(* ===== verification/Pwf_Prelude.thy ===== *)
theory Pwf_Prelude
  imports Main "HOL-Library.Word" "HOL-Library.Multiset"
begin

text \<open>
  What every component of the library shares: the widths of the C integers, the C string
  functions the sources call, the NULL-handle guard of the public functions, the bounded wait on
  the thread loop, and the growable array that five components spell out by hand.

  C's \<open>int\<close> is a HOL \<open>int\<close> where the code only compares it or casts it to an unsigned type (the
  cast is \<open>word_of_int\<close>); the unsigned types are words, whose \<open>+\<close>, \<open>*\<close> and \<open>-\<close> wrap
  around; an array length that counts elements in memory is a \<open>nat\<close>.
\<close>

type_synonym u16 = "16 word"
type_synonym u32 = "32 word"
type_synonym u64 = "64 word"
type_synonym byte = "8 word"

named_theorems pwf_defs \<open>definitions a component proof unfolds together\<close>
named_theorems pwf_frame \<open>which fields an operation leaves alone\<close>

section \<open>C strings\<close>

text \<open>\<open>strrchr\<close>: the part of the string before the last \<open>c\<close> and the part after it.\<close>

fun c_strrchr :: "char \<Rightarrow> string \<Rightarrow> (string \<times> string) option" where
  "c_strrchr c [] = None"
| "c_strrchr c (x # xs) =
     (case c_strrchr c xs of
        Some (before, after) \<Rightarrow> Some (x # before, after)
      | None \<Rightarrow> if x = c then Some ([], xs) else None)"

definition is_digit :: "char \<Rightarrow> bool" where
  "is_digit c \<longleftrightarrow> 48 \<le> (of_char c :: nat) \<and> (of_char c :: nat) \<le> 57"

definition digit_value :: "char \<Rightarrow> nat" where
  "digit_value c = of_char c - 48"

definition digit_char :: "nat \<Rightarrow> char" where
  "digit_char d = char_of (48 + d)"

definition is_space :: "char \<Rightarrow> bool" where
  "is_space c \<longleftrightarrow> (of_char c :: nat) = 32 \<or> (9 \<le> (of_char c :: nat) \<and> (of_char c :: nat) \<le> 13)"

text \<open>The digits at the front of a string, most significant first, as \<open>strtoull\<close> reads them.\<close>

fun digits_value :: "nat \<Rightarrow> string \<Rightarrow> nat" where
  "digits_value acc [] = acc"
| "digits_value acc (c # cs) =
     (if is_digit c then digits_value (10 * acc + digit_value c) cs else acc)"

text \<open>
  \<open>strtoull (s, NULL, 10)\<close>: leading white space, an optional sign, digits up to the first other
  character; a value out of range is \<open>ULLONG_MAX\<close> and a minus sign negates in the unsigned type.
\<close>

definition saturate64 :: "nat \<Rightarrow> u64" where
  "saturate64 n = (if n < 2 ^ 64 then of_nat n else - 1)"

definition c_strtoull :: "string \<Rightarrow> u64" where
  "c_strtoull s =
     (case dropWhile is_space s of
        [] \<Rightarrow> 0
      | c # cs \<Rightarrow>
          if c = CHR ''-'' then
            (if digits_value 0 cs < 2 ^ 64 then - of_nat (digits_value 0 cs) else - 1)
          else if c = CHR ''+'' then saturate64 (digits_value 0 cs)
          else saturate64 (digits_value 0 (c # cs)))"

text \<open>\<open>(uint32_t)strtoul (s, NULL, 10)\<close> where \<open>unsigned long\<close> has 64 bits.\<close>

definition c_strtoul32 :: "string \<Rightarrow> u32" where
  "c_strtoul32 s = ucast (c_strtoull s)"

text \<open>\<open>snprintf\<close> of \<open>%u\<close>, \<open>%zu\<close> or \<open>%llu\<close>: the decimal digits.\<close>

fun c_decimal :: "nat \<Rightarrow> string" where
  "c_decimal n = (if n < 10 then [digit_char n] else c_decimal (n div 10) @ [digit_char (n mod 10)])"

declare c_decimal.simps [simp del]

text \<open>\<open>snprintf\<close> into a buffer of \<open>n\<close> bytes keeps \<open>n - 1\<close> characters and the terminator.\<close>

definition c_snprintf :: "nat \<Rightarrow> string \<Rightarrow> string" where
  "c_snprintf n s = take (n - 1) s"

section \<open>Handles that may be NULL\<close>

text \<open>
  Most public functions begin with a test for a NULL handle. \<open>on_handle err f h\<close> is that
  prologue: \<open>err\<close> and nothing changed for NULL, the body otherwise.
\<close>

definition on_handle :: "'r \<Rightarrow> ('s \<Rightarrow> 'r \<times> 's) \<Rightarrow> 's option \<Rightarrow> 'r \<times> 's option" where
  "on_handle err body h =
     (case h of None \<Rightarrow> (err, None) | Some s \<Rightarrow> (case body s of (r, s') \<Rightarrow> (r, Some s')))"

lemma on_handle_None [simp]: "on_handle err body None = (err, None)"
  by (simp add: on_handle_def)

lemma on_handle_Some [simp]: "on_handle err body (Some s) = (fst (body s), Some (snd (body s)))"
  by (simp add: on_handle_def split: prod.splits)

section \<open>The bounded wait on the thread loop\<close>

text \<open>
  \<^verbatim>\<open>
    while (!ready)
        if (pw_thread_loop_timed_wait_full(loop, &deadline) < 0) { ...; break; }
  \<close>
  While the caller waits, the loop thread runs callbacks. A schedule is the list of wake-ups before
  the deadline, each with the events dispatched before it, and the events dispatched before the
  wait that reports the deadline. The deadline is absolute, so every schedule is finite and the
  loop is a structural recursion. The result says whether the flag was seen before the deadline.
\<close>

type_synonym 'e schedule = "'e list list \<times> 'e list"

fun loop_wait :: "('s \<Rightarrow> bool) \<Rightarrow> ('e \<Rightarrow> 's \<Rightarrow> 's) \<Rightarrow> 'e list list \<Rightarrow> 'e list \<Rightarrow> 's \<Rightarrow> bool \<times> 's" where
  "loop_wait ready dispatch [] late s =
     (if ready s then (True, s) else (False, fold dispatch late s))"
| "loop_wait ready dispatch (evs # wakes) late s =
     (if ready s then (True, s) else loop_wait ready dispatch wakes late (fold dispatch evs s))"

lemma loop_wait_ready: "loop_wait ready dispatch wakes late s = (True, s') \<Longrightarrow> ready s'"
  by (induction wakes arbitrary: s) (auto split: if_splits)

lemma loop_wait_already [simp]: "ready s \<Longrightarrow> loop_wait ready dispatch wakes late s = (True, s)"
  by (cases wakes) auto

lemma loop_wait_timeout: "loop_wait ready dispatch wakes late s = (False, s') \<Longrightarrow> \<not> ready s"
  by (cases wakes) (auto split: if_splits)

text \<open>
  What the loop thread keeps true, a wait keeps true: the contract between a component's
  event callbacks and every function of it that waits.
\<close>

locale loop_client =
  fixes dispatch :: "'e \<Rightarrow> 's \<Rightarrow> 's"
    and inv :: "'s \<Rightarrow> bool"
  assumes dispatch_inv: "inv s \<Longrightarrow> inv (dispatch e s)"
begin

lemma fold_inv: "inv s \<Longrightarrow> inv (fold dispatch evs s)"
  by (induction evs arbitrary: s) (auto simp: dispatch_inv)

lemma wait_inv: "inv s \<Longrightarrow> inv (snd (loop_wait ready dispatch wakes late s))"
  by (induction wakes arbitrary: s) (auto simp: fold_inv)

lemma wait_inv_pair: "inv s \<Longrightarrow> loop_wait ready dispatch wakes late s = (b, s') \<Longrightarrow> inv s'"
  using wait_inv [of s ready wakes late] by simp

end

section \<open>Growable arrays\<close>

text \<open>
  \<^verbatim>\<open>
    if (n == capacity) {
        new_cap = capacity == 0 ? INIT : capacity * 2;
        grown = realloc(items, new_cap * sizeof(*grown));
        if (!grown) return ...;
        items = grown; capacity = new_cap;
    }
    items[n++] = item;
  \<close>
  The sources write this out for the registry's nodes and ports, a filter's ports and an event
  port's incoming and pending events. A growable array is its used prefix and its capacity.
\<close>

record 'a growable =
  items :: "'a list"
  capacity :: nat

definition growable_empty :: "'a growable" where
  "growable_empty = \<lparr>items = [], capacity = 0\<rparr>"

text \<open>The capacity test and \<open>realloc\<close>; \<open>None\<close> when the allocation fails.\<close>

definition growable_reserve :: "nat \<Rightarrow> bool \<Rightarrow> 'a growable \<Rightarrow> 'a growable option" where
  "growable_reserve init alloc_ok g =
     (if length (items g) = capacity g then
        (if alloc_ok then Some (g\<lparr>capacity := (if capacity g = 0 then init else capacity g * 2)\<rparr>)
         else None)
      else Some g)"

definition growable_push :: "'a \<Rightarrow> 'a growable \<Rightarrow> 'a growable" where
  "growable_push x g = g\<lparr>items := items g @ [x]\<rparr>"

definition growable_append :: "nat \<Rightarrow> bool \<Rightarrow> 'a \<Rightarrow> 'a growable \<Rightarrow> bool \<times> 'a growable" where
  "growable_append init alloc_ok x g =
     (case growable_reserve init alloc_ok g of
        None \<Rightarrow> (False, g)
      | Some g' \<Rightarrow> (True, growable_push x g'))"

text \<open>No write past the allocation: the used prefix fits the capacity.\<close>

definition growable_ok :: "'a growable \<Rightarrow> bool" where
  "growable_ok g \<longleftrightarrow> length (items g) \<le> capacity g"

lemma growable_ok_empty [simp]: "growable_ok growable_empty"
  by (simp add: growable_ok_def growable_empty_def)

lemma items_growable_empty [simp]: "items growable_empty = []" "capacity growable_empty = 0"
  by (simp_all add: growable_empty_def)

lemma growable_reserve_items: "growable_reserve init a g = Some g' \<Longrightarrow> items g' = items g"
  by (auto simp: growable_reserve_def split: if_splits)

lemma growable_reserve_room:
  "growable_ok g \<Longrightarrow> 0 < init \<Longrightarrow> growable_reserve init a g = Some g' \<Longrightarrow>
     length (items g') < capacity g'"
  by (auto simp: growable_reserve_def growable_ok_def split: if_splits)

lemma growable_reserve_ok:
  "growable_reserve init a g = Some g' \<Longrightarrow> growable_ok g \<Longrightarrow> 0 < init \<Longrightarrow> growable_ok g'"
  using growable_reserve_room [of g init a g'] by (simp add: growable_ok_def)

lemma growable_append_ok:
  "growable_ok g \<Longrightarrow> 0 < init \<Longrightarrow> growable_ok (snd (growable_append init a x g))"
  by (auto simp: growable_append_def growable_push_def growable_ok_def
      dest: growable_reserve_items growable_reserve_room [unfolded growable_ok_def]
      split: option.splits)

lemma growable_append_items:
  "items (snd (growable_append init a x g)) =
     (if fst (growable_append init a x g) then items g @ [x] else items g)"
  by (auto simp: growable_append_def growable_push_def dest: growable_reserve_items
      split: option.splits)

lemma growable_append_succeeds [simp]: "fst (growable_append init True x g)"
  by (simp add: growable_append_def growable_reserve_def)

lemma growable_append_failed:
  "\<not> fst (growable_append init a x g) \<Longrightarrow> snd (growable_append init a x g) = g"
  by (auto simp: growable_append_def split: option.splits)

section \<open>Decimal numbers\<close>

lemma of_char_digit_char: "d < 10 \<Longrightarrow> (of_char (digit_char d) :: nat) = 48 + d"
  by (simp add: digit_char_def)

lemma is_digit_digit_char [simp]: "d < 10 \<Longrightarrow> is_digit (digit_char d)"
  by (simp add: is_digit_def of_char_digit_char)

lemma digit_value_digit_char [simp]: "d < 10 \<Longrightarrow> digit_value (digit_char d) = d"
  by (simp add: digit_value_def of_char_digit_char)

lemma digit_not_space: "is_digit c \<Longrightarrow> \<not> is_space c"
  by (auto simp: is_digit_def is_space_def)

lemma digit_not_sign: "is_digit c \<Longrightarrow> c \<noteq> CHR ''-'' \<and> c \<noteq> CHR ''+''"
  by (auto simp: is_digit_def)

lemma digits_value_append:
  "list_all is_digit xs \<Longrightarrow> digits_value acc (xs @ ys) = digits_value (digits_value acc xs) ys"
  by (induction xs arbitrary: acc) auto

lemma c_decimal_digits: "list_all is_digit (c_decimal n)"
proof (induction n rule: c_decimal.induct)
  case (1 n)
  then show ?case
    by (subst c_decimal.simps) (cases "n < 10", auto)
qed

lemma c_decimal_nonempty [simp]: "c_decimal n \<noteq> []"
  by (subst c_decimal.simps) simp

lemma digits_value_c_decimal: "digits_value 0 (c_decimal n) = n"
proof (induction n rule: c_decimal.induct)
  case (1 n)
  show ?case
  proof (cases "n < 10")
    case True
    then show ?thesis by (subst c_decimal.simps) simp
  next
    case False
    with "1.IH" have "digits_value 0 (c_decimal (n div 10)) = n div 10" by simp
    with False show ?thesis
      by (subst c_decimal.simps) (simp add: digits_value_append c_decimal_digits)
  qed
qed

lemma c_strtoull_digits:
  assumes "list_all is_digit s" and "s \<noteq> []"
  shows "c_strtoull s = saturate64 (digits_value 0 s)"
proof -
  obtain c cs where s: "s = c # cs" using assms(2) by (cases s) auto
  with assms(1) have "is_digit c" by simp
  with s show ?thesis
    by (simp add: c_strtoull_def digit_not_space digit_not_sign)
qed

lemma unat_u64_bound: "unat (w :: u64) < 2 ^ 64"
  using unsigned_less [of w, where ?'a = nat] by simp

lemma unat_u32_bound: "unat (w :: u32) < 2 ^ 32"
  using unsigned_less [of w, where ?'a = nat] by simp

lemma c_strtoull_c_decimal: "c_strtoull (c_decimal (unat (w :: u64))) = w"
  using unat_u64_bound [of w]
  by (simp add: c_strtoull_digits c_decimal_digits digits_value_c_decimal saturate64_def)

lemma c_strrchr_None: "c_strrchr c xs = None \<longleftrightarrow> c \<notin> set xs"
  by (induction xs) (auto split: option.splits if_splits)

lemma c_strrchr_Some:
  "c_strrchr c xs = Some (before, after) \<longleftrightarrow> xs = before @ c # after \<and> c \<notin> set after"
proof (induction xs arbitrary: before)
  case Nil
  then show ?case by simp
next
  case (Cons x xs)
  show ?case
  proof (cases "c_strrchr c xs")
    case None
    then have "c \<notin> set xs" by (simp add: c_strrchr_None)
    with None show ?thesis by (cases before) auto
  next
    case (Some p)
    then have "c \<in> set xs" using c_strrchr_None [of c xs] by simp
    with Some Cons.IH show ?thesis by (cases before) (auto split: prod.splits)
  qed
qed

end
