(* ===== verification/Pwf_Types.thy ===== *)
theory Pwf_Types
  imports Pwf_Prelude
begin

text \<open>
  The data of \<^verbatim>\<open>include/pwf/pwf_types.h\<close>, the enumerations of the internal headers, and the
  shapes of the SPA and PipeWire values the sources exchange with the server. An enumeration that
  belongs to PipeWire lists the values the sources name and one constructor for every other value.

  A call into PipeWire is not modelled; it is recorded. Each stateful object of the model carries
  the list of the calls its operations made, in order, and an operation that reads an answer of
  PipeWire takes that answer as an argument.
\<close>

section \<open>pwf\_types.h\<close>

datatype pwf_data_type = PWF_DATA_AUDIO | PWF_DATA_VIDEO | PWF_DATA_SIGNAL | PWF_DATA_EVENT

datatype pwf_error =
    PWF_OK | PWF_ERR_INVALID_ARG | PWF_ERR_CONNECT_FAILED | PWF_ERR_INVALID_FORMAT
  | PWF_ERR_NOT_CONFIGURED | PWF_ERR_SOURCE_UNAVAILABLE | PWF_ERR_IN_CALLBACK
  | PWF_ERR_NOT_FOUND | PWF_ERR_TIMEOUT | PWF_ERR_NO_MEMORY

fun error_code :: "pwf_error \<Rightarrow> int" where
  "error_code PWF_OK = 0"
| "error_code PWF_ERR_INVALID_ARG = -1"
| "error_code PWF_ERR_CONNECT_FAILED = -2"
| "error_code PWF_ERR_INVALID_FORMAT = -3"
| "error_code PWF_ERR_NOT_CONFIGURED = -4"
| "error_code PWF_ERR_SOURCE_UNAVAILABLE = -5"
| "error_code PWF_ERR_IN_CALLBACK = -6"
| "error_code PWF_ERR_NOT_FOUND = -7"
| "error_code PWF_ERR_TIMEOUT = -8"
| "error_code PWF_ERR_NO_MEMORY = -9"

text \<open>\<open>res < 0\<close> on a value of \<open>enum pwf_error\<close>.\<close>

abbreviation failed :: "pwf_error \<Rightarrow> bool" where
  "failed e \<equiv> e \<noteq> PWF_OK"

record pwf_audio_config =
  sample_rate :: int
  channels :: int
  sample_format :: "string option"

record pwf_video_config =
  cfg_width :: int
  cfg_height :: int
  cfg_pixel_format :: "string option"
  cfg_fps :: int

datatype pwf_port_memory = PWF_PORT_MEMORY_AUTO | PWF_PORT_MEMORY_DMABUF

record pwf_dmabuf_plane =
  plane_fd :: int
  plane_offset :: u32
  plane_stride :: u32
  plane_size :: u32

text \<open>
  \<open>fps\<close> is the array of eight rates, of which the first \<open>n_fps\<close> are set.
\<close>

record pwf_video_format_info =
  pixel_format :: string
  width :: int
  height :: int
  width_max :: int
  height_max :: int
  fps :: "int list"
  n_fps :: nat

section \<open>SPA enumerations\<close>

datatype spa_direction = SPA_DIRECTION_INPUT | SPA_DIRECTION_OUTPUT

datatype spa_audio_format =
    SPA_AUDIO_FORMAT_UNKNOWN | SPA_AUDIO_FORMAT_U8 | SPA_AUDIO_FORMAT_S16
  | SPA_AUDIO_FORMAT_S24 | SPA_AUDIO_FORMAT_S24_32 | SPA_AUDIO_FORMAT_S32
  | SPA_AUDIO_FORMAT_F32 | SPA_AUDIO_FORMAT_DSP_F32 | SPA_AUDIO_FORMAT_other nat

datatype spa_video_format =
    SPA_VIDEO_FORMAT_UNKNOWN | SPA_VIDEO_FORMAT_ENCODED | SPA_VIDEO_FORMAT_RGB
  | SPA_VIDEO_FORMAT_YUY2 | SPA_VIDEO_FORMAT_NV12 | SPA_VIDEO_FORMAT_NV21
  | SPA_VIDEO_FORMAT_I420 | SPA_VIDEO_FORMAT_other nat

datatype spa_media_type =
    SPA_MEDIA_TYPE_video | SPA_MEDIA_TYPE_application | SPA_MEDIA_TYPE_other nat

datatype spa_media_subtype =
    SPA_MEDIA_SUBTYPE_raw | SPA_MEDIA_SUBTYPE_mjpg | SPA_MEDIA_SUBTYPE_h264
  | SPA_MEDIA_SUBTYPE_control | SPA_MEDIA_SUBTYPE_other nat

datatype spa_param_type =
    SPA_PARAM_EnumFormat | SPA_PARAM_Format | SPA_PARAM_Buffers | SPA_PARAM_Meta
  | SPA_PARAM_Props | SPA_PARAM_other nat

datatype spa_data_type =
    SPA_DATA_MemPtr | SPA_DATA_MemFd | SPA_DATA_DmaBuf | SPA_DATA_other nat

text \<open>\<open>enum spa_prop\<close>: the three identifiers the event vocabulary names.\<close>

datatype spa_prop = SPA_PROP_volume | SPA_PROP_mute | SPA_PROP_channelVolumes | SPA_PROP_other u32

section \<open>PODs\<close>

text \<open>
  The PODs the library builds, as the calls it makes to the SPA builder: an object with its
  properties in order, or one of the SPA helpers that build a whole format from a struct.
\<close>

datatype pod_object_type =
    SPA_TYPE_OBJECT_Format | SPA_TYPE_OBJECT_ParamBuffers | SPA_TYPE_OBJECT_ParamMeta

datatype pod_key =
    SPA_FORMAT_mediaType | SPA_FORMAT_mediaSubtype | SPA_FORMAT_VIDEO_format
  | SPA_FORMAT_VIDEO_size | SPA_FORMAT_VIDEO_framerate
  | SPA_PARAM_BUFFERS_buffers | SPA_PARAM_BUFFERS_dataType
  | SPA_PARAM_META_type | SPA_PARAM_META_size

record spa_rectangle =
  rect_width :: u32
  rect_height :: u32

record spa_fraction =
  num :: u32
  denom :: u32

datatype pod_value =
    Pod_media_type spa_media_type
  | Pod_media_subtype spa_media_subtype
  | Pod_video_format spa_video_format
  | Pod_rectangle spa_rectangle
  | Pod_fraction spa_fraction
  | Pod_fraction_range spa_fraction spa_fraction spa_fraction
  | Pod_int_range int int int
  | Pod_data_types "spa_data_type list"
  | Pod_meta_header
  | Pod_sizeof_meta_header

record spa_audio_info_raw =
  raw_format :: spa_audio_format
  raw_rate :: u32
  raw_channels :: u32

record spa_video_info_encoded =
  enc_size :: spa_rectangle
  enc_framerate :: spa_fraction

datatype spa_pod =
    Pod_object pod_object_type spa_param_type "(pod_key \<times> pod_value) list"
  | Pod_audio_raw spa_audio_info_raw
  | Pod_video_mjpg spa_video_info_encoded
  | Pod_video_h264 spa_video_info_encoded
  | Pod_audio_dsp spa_audio_format

section \<open>Buffers\<close>

text \<open>
  A \<open>struct spa_data\<close>; \<open>d_data\<close> is the mapped pointer, \<open>None\<close> when the region is not mapped.
  \<open>header_pts\<close> is the \<open>pts\<close> of the buffer's \<open>SPA_META_Header\<close>, \<open>None\<close> without one.
\<close>

record spa_chunk =
  chunk_offset :: u32
  chunk_size :: u32
  chunk_stride :: int

record spa_data =
  d_type :: spa_data_type
  d_fd :: int
  mapoffset :: u32
  maxsize :: u32
  d_data :: "nat option"
  chunk :: "spa_chunk option"

record spa_buffer =
  datas :: "spa_data list"
  header_pts :: "int option"

record pw_buffer =
  buf_id :: nat
  buffer :: spa_buffer
  requested :: u64
  b_size :: u64

section \<open>The calling thread\<close>

text \<open>
  The two thread-local variables \<open>pwf_stream_processing\<close> and \<open>pwf_filter_processing\<close>, which name
  the object whose callback this thread is running, and the loop whose thread this is. Objects and
  loops are named by numbers, as pointers name them in the code.
\<close>

record pwf_thread =
  pwf_stream_processing :: "nat option"
  pwf_filter_processing :: "nat option"
  on_loop :: "nat option"

definition app_thread :: pwf_thread where
  "app_thread = \<lparr>pwf_stream_processing = None, pwf_filter_processing = None, on_loop = None\<rparr>"

section \<open>What an operation does besides changing its object\<close>

text \<open>Severities, in the order of \<^verbatim>\<open>pwf_log.h\<close>; the code compares the numbers.\<close>

definition PWF_LOG_ERROR :: int where "PWF_LOG_ERROR = 0"
definition PWF_LOG_WARNING :: int where "PWF_LOG_WARNING = 1"
definition PWF_LOG_INFO :: int where "PWF_LOG_INFO = 2"
definition PWF_LOG_DEBUG :: int where "PWF_LOG_DEBUG = 3"
definition PWF_LOG_VERBOSE :: int where "PWF_LOG_VERBOSE = 4"

text \<open>
  A PipeWire call, a log call or an application callback. A \<open>nat option\<close> is the pointer passed,
  \<open>None\<close> for NULL.
\<close>

datatype pw_call =
    Loop_lock | Loop_unlock | Loop_signal | Loop_stop | Loop_destroy
  | Core_disconnect | Context_destroy | Registry_destroy
  | Stream_new "(string \<times> string) list"
  | Stream_connect "nat option" spa_direction bool bool "spa_pod list"
  | Stream_set_active "nat option" bool
  | Stream_flush "nat option"
  | Stream_destroy "nat option"
  | Stream_update_params "nat option" "spa_pod list"
  | Stream_queue_buffer nat
  | Filter_new string "(string \<times> string) list"
  | Filter_add_port spa_direction bool "(string \<times> string) list" "spa_pod list"
  | Filter_connect "nat option"
  | Filter_set_active "nat option" bool
  | Filter_flush "nat option"
  | Filter_destroy "nat option"
  | Filter_update_properties "(string \<times> string) list"
  | Filter_update_params nat "spa_pod list"
  | Filter_queue_buffer nat nat
  | Link_create "(string \<times> string) list"
  | Proxy_destroy nat
  | Log int
  | Error_callback pwf_error
  | Port_error_callback nat pwf_error

text \<open>
  Behaviour C leaves undefined: an operation that reaches it records it here instead of inventing
  a result.
\<close>

datatype pwf_fault = Null_pointer | Use_after_free | Out_of_bounds

text \<open>How much deeper the loop lock is held after a list of calls.\<close>

fun lock_delta :: "pw_call \<Rightarrow> int" where
  "lock_delta Loop_lock = 1"
| "lock_delta Loop_unlock = -1"
| "lock_delta _ = 0"

definition lock_depth :: "pw_call list \<Rightarrow> int" where
  "lock_depth cs = sum_list (map lock_delta cs)"

lemma lock_depth_simps [simp]:
  "lock_depth [] = 0"
  "lock_depth (c # cs) = lock_delta c + lock_depth cs"
  "lock_depth (xs @ ys) = lock_depth xs + lock_depth ys"
  by (simp_all add: lock_depth_def)

lemma error_code_negative: "failed e \<longleftrightarrow> error_code e < 0"
  by (cases e) auto

lemma error_code_inj: "error_code a = error_code b \<Longrightarrow> a = b"
  by (cases a; cases b) auto

end
