(* ===== verification/Pwf_Log.thy ===== *)
theory Pwf_Log
  imports Pwf_Types
begin

text \<open>
  \<^verbatim>\<open>src/pwf_log.c\<close>: the process-wide log callback and threshold, and the one function every
  diagnostic goes through. A callback is named by a number; the message is the text \<open>vsnprintf\<close>
  makes of the format, before it is cut to the 512-byte buffer.
\<close>

record log_state =
  g_callback :: "nat option"
  g_user_data :: nat
  g_level :: int

definition log_init :: log_state where
  "log_init = \<lparr>g_callback = None, g_user_data = 0, g_level = PWF_LOG_WARNING\<rparr>"

datatype log_output =
    To_callback nat int string int string nat
  | To_stderr string

definition pwf_log_set_callback :: "nat option \<Rightarrow> nat \<Rightarrow> log_state \<Rightarrow> log_state" where
  "pwf_log_set_callback callback user_data g =
     g\<lparr>g_callback := callback, g_user_data := user_data\<rparr>"

definition pwf_log_set_level :: "int \<Rightarrow> log_state \<Rightarrow> log_state" where
  "pwf_log_set_level level g = g\<lparr>g_level := level\<rparr>"

definition pwf_log_level_name :: "int \<Rightarrow> string" where
  "pwf_log_level_name level =
     (if level = PWF_LOG_ERROR then ''error''
      else if level = PWF_LOG_WARNING then ''warning''
      else if level = PWF_LOG_INFO then ''info''
      else if level = PWF_LOG_DEBUG then ''debug''
      else if level = PWF_LOG_VERBOSE then ''verbose''
      else ''?'')"

definition pwf_log_basename :: "string \<Rightarrow> string" where
  "pwf_log_basename path =
     (case c_strrchr (CHR ''/'') path of Some (_, after) \<Rightarrow> after | None \<Rightarrow> path)"

text \<open>\<open>%d\<close> of the line number.\<close>

definition c_decimal_int :: "int \<Rightarrow> string" where
  "c_decimal_int i = (if i < 0 then CHR ''-'' # c_decimal (nat (- i)) else c_decimal (nat i))"

definition pwf_log_emit ::
    "int \<Rightarrow> string \<Rightarrow> int \<Rightarrow> string \<Rightarrow> log_state \<Rightarrow> log_output option" where
  "pwf_log_emit level file line formatted g =
     (let pass = level \<le> g_level g;
          message = c_snprintf 512 formatted;
          base = pwf_log_basename file
      in if \<not> pass then None
         else case g_callback g of
             Some callback \<Rightarrow> Some (To_callback callback level base line message (g_user_data g))
           | None \<Rightarrow> Some (To_stderr
               (''[pwf:'' @ pwf_log_level_name level @ ''] '' @ base @ '':'' @ c_decimal_int line
                @ '': '' @ message @ [CHR 0x0A])))"

section \<open>Facts\<close>

lemma pwf_log_basename_no_slash: "CHR ''/'' \<notin> set (pwf_log_basename path)"
  by (auto simp: pwf_log_basename_def c_strrchr_None c_strrchr_Some split: option.splits)

lemma pwf_log_basename_suffix: "\<exists>dir. path = dir @ pwf_log_basename path"
proof (cases "c_strrchr (CHR ''/'') path")
  case None
  then show ?thesis by (intro exI [of _ "[]"]) (simp add: pwf_log_basename_def)
next
  case (Some p)
  then obtain before after where p: "p = (before, after)" by (cases p)
  with Some have "path = (before @ [CHR ''/'']) @ after" by (simp add: c_strrchr_Some)
  with Some p show ?thesis
    by (intro exI [of _ "before @ [CHR ''/'']"]) (simp add: pwf_log_basename_def)
qed

text \<open>The callback a message reaches and the threshold it passed are the ones set last.\<close>

lemma pwf_log_emit_to_callback:
  "pwf_log_emit level file line formatted (pwf_log_set_callback (Some cb) u g) =
     (if level \<le> g_level g
      then Some (To_callback cb level (pwf_log_basename file) line (take 511 formatted) u)
      else None)"
  by (simp add: pwf_log_emit_def pwf_log_set_callback_def c_snprintf_def Let_def)

end
