(* ===== verification/Pwf_Rate_Limit.thy ===== *)
theory Pwf_Rate_Limit
  imports Pwf_Types
begin

text \<open>
  \<^verbatim>\<open>src/pwf_rate_limit.c\<close>: the monotonic clock and the limiter that keeps a condition repeating
  every cycle from being logged every cycle. The limiter's two words are passed by pointer; here
  they are a record, one per condition a stream watches.
\<close>

record rate_limit =
  last_log_ns :: u64
  suppressed :: u64

definition rate_limit_init :: rate_limit where
  "rate_limit_init = \<lparr>last_log_ns = 0, suppressed = 0\<rparr>"

definition PWF_LOG_INTERVAL_NS :: u64 where
  "PWF_LOG_INTERVAL_NS = 1000000000"

text \<open>\<open>clock_gettime\<close> answers seconds and nanoseconds.\<close>

definition pwf_monotonic_ns :: "int \<Rightarrow> int \<Rightarrow> u64" where
  "pwf_monotonic_ns tv_sec tv_nsec = word_of_int tv_sec * 1000000000 + word_of_int tv_nsec"

definition pwf_rate_limited :: "u64 \<Rightarrow> rate_limit \<Rightarrow> bool \<times> rate_limit" where
  "pwf_rate_limited now_ns r =
     (if last_log_ns r \<noteq> 0 \<and> now_ns - last_log_ns r < PWF_LOG_INTERVAL_NS
      then (False, r\<lparr>suppressed := suppressed r + 1\<rparr>)
      else (True, r\<lparr>last_log_ns := now_ns\<rparr>))"

text \<open>
  What the callers do with it: when the limiter says so, log with the count of the suppressed
  occurrences and clear the count. \<open>Some n\<close> is a report that mentions \<open>n\<close> more.
\<close>

definition rate_report :: "u64 \<Rightarrow> rate_limit \<Rightarrow> u64 option \<times> rate_limit" where
  "rate_report now_ns r =
     (case pwf_rate_limited now_ns r of
        (True, r') \<Rightarrow> (Some (suppressed r'), r'\<lparr>suppressed := 0\<rparr>)
      | (False, r') \<Rightarrow> (None, r'))"

text \<open>A run of occurrences at the given times, with the reports it makes.\<close>

fun rate_run :: "u64 list \<Rightarrow> rate_limit \<Rightarrow> (u64 \<times> u64) list \<times> rate_limit" where
  "rate_run [] r = ([], r)"
| "rate_run (t # ts) r =
     (case rate_report t r of
        (Some n, r') \<Rightarrow> (case rate_run ts r' of (reps, r'') \<Rightarrow> ((t, n) # reps, r''))
      | (None, r') \<Rightarrow> rate_run ts r')"

section \<open>Facts\<close>

lemma rate_report_first [simp]:
  "last_log_ns r = 0 \<Longrightarrow> rate_report now r = (Some (suppressed r), r\<lparr>last_log_ns := now, suppressed := 0\<rparr>)"
  by (simp add: rate_report_def pwf_rate_limited_def)

lemma rate_report_cases:
  obtains (silent) "last_log_ns r \<noteq> 0" "now - last_log_ns r < PWF_LOG_INTERVAL_NS"
      "rate_report now r = (None, r\<lparr>suppressed := suppressed r + 1\<rparr>)"
  | (report) "last_log_ns r = 0 \<or> \<not> now - last_log_ns r < PWF_LOG_INTERVAL_NS"
      "rate_report now r = (Some (suppressed r), r\<lparr>last_log_ns := now, suppressed := 0\<rparr>)"
  by (cases "last_log_ns r \<noteq> 0 \<and> now - last_log_ns r < PWF_LOG_INTERVAL_NS")
     (auto simp: rate_report_def pwf_rate_limited_def)

text \<open>Where the clock has not gone back, the distance of two times is the word difference.\<close>

lemma interval_unat:
  assumes "unat t0 \<le> unat (now :: u64)" and "\<not> now - t0 < PWF_LOG_INTERVAL_NS"
  shows "unat t0 + 1000000000 \<le> unat now"
proof -
  have "t0 \<le> now" using assms(1) by (simp add: word_le_nat_alt)
  then have "unat (now - t0) = unat now - unat t0" by (rule unat_sub)
  moreover have "1000000000 \<le> unat (now - t0)"
    using assms(2) by (simp add: PWF_LOG_INTERVAL_NS_def word_less_nat_alt)
  ultimately show ?thesis using assms(1) by linarith
qed

definition spaced :: "(u64 \<times> u64) list \<Rightarrow> bool" where
  "spaced reps \<longleftrightarrow> sorted_wrt (\<lambda>a b. unat (fst a) + 1000000000 \<le> unat (fst b)) reps"

lemma rate_run_spaced_aux:
  assumes "sorted (map unat ts)" and "\<forall>t\<in>set ts. t \<noteq> 0"
    and "last_log_ns r \<noteq> 0 \<longrightarrow> (\<forall>t\<in>set ts. unat (last_log_ns r) \<le> unat t)"
  shows "spaced (fst (rate_run ts r)) \<and>
    (last_log_ns r \<noteq> 0 \<longrightarrow> (\<forall>p\<in>set (fst (rate_run ts r)). unat (last_log_ns r) + 1000000000 \<le> unat (fst p)))"
  using assms
proof (induction ts arbitrary: r)
  case Nil
  then show ?case by (simp add: spaced_def)
next
  case (Cons t ts)
  show ?case
  proof (cases rule: rate_report_cases [of r t])
    case silent
    from Cons.IH [of "r\<lparr>suppressed := suppressed r + 1\<rparr>"] Cons.prems silent show ?thesis by simp
  next
    case report
    let ?r = "r\<lparr>last_log_ns := t, suppressed := 0\<rparr>"
    have ih: "spaced (fst (rate_run ts ?r))"
      "\<forall>p\<in>set (fst (rate_run ts ?r)). unat t + 1000000000 \<le> unat (fst p)"
      using Cons.IH [of ?r] Cons.prems by auto
    have gap: "last_log_ns r \<noteq> 0 \<Longrightarrow> unat (last_log_ns r) + 1000000000 \<le> unat t"
      using report(1) Cons.prems(3) interval_unat [of "last_log_ns r" t] by auto
    have run: "fst (rate_run (t # ts) r) = (t, suppressed r) # fst (rate_run ts ?r)"
      using report(2) by (simp split: prod.splits)
    show ?thesis unfolding run
      using ih gap by (fastforce simp: spaced_def)
  qed
qed

lemma rate_run_accounting_aux:
  "suppressed r + of_nat (length ts) =
     sum_list (map snd (fst (rate_run ts r))) + of_nat (length (fst (rate_run ts r)))
       + suppressed (snd (rate_run ts r))"
proof (induction ts arbitrary: r)
  case Nil
  then show ?case by simp
next
  case (Cons t ts)
  show ?case
  proof (cases rule: rate_report_cases [of r t])
    case silent
    with Cons.IH [of "r\<lparr>suppressed := suppressed r + 1\<rparr>"] show ?thesis
      by (simp add: algebra_simps)
  next
    case report
    with Cons.IH [of "r\<lparr>last_log_ns := t, suppressed := 0\<rparr>"] show ?thesis
      by (simp add: algebra_simps split: prod.splits)
  qed
qed

end
