(* ===== verification/Pwf_Dmabuf.thy ===== *)
theory Pwf_Dmabuf
  imports Pwf_Types
begin

text \<open>
  \<^verbatim>\<open>src/pwf_dmabuf.c\<close>: whether a buffer carries a DMABUF frame, and the copy of its DMABUF planes
  into the caller's array. The array is a list of \<open>planes_len\<close> entries, \<open>None\<close> for a NULL pointer.
\<close>

definition pwf_dmabuf_buffer_present :: "spa_buffer option \<Rightarrow> bool" where
  "pwf_dmabuf_buffer_present b =
     (case b of
        None \<Rightarrow> False
      | Some buf \<Rightarrow> (case datas buf of [] \<Rightarrow> False | d # _ \<Rightarrow> d_type d = SPA_DATA_DmaBuf))"

text \<open>The casts to \<open>int\<close> and \<open>uint32_t\<close>.\<close>

definition c_int :: "int \<Rightarrow> int" where
  "c_int i = sint (word_of_int i :: 32 word)"

definition plane_of_data :: "spa_data \<Rightarrow> pwf_dmabuf_plane" where
  "plane_of_data d =
     \<lparr>plane_fd = c_int (d_fd d),
      plane_offset = mapoffset d,
      plane_stride = (case chunk d of Some c \<Rightarrow> word_of_int (chunk_stride c) | None \<Rightarrow> 0),
      plane_size = (case chunk d of Some c \<Rightarrow> chunk_size c | None \<Rightarrow> maxsize d)\<rparr>"

fun extract_planes_loop ::
    "spa_data list \<Rightarrow> pwf_dmabuf_plane list option \<Rightarrow> nat \<Rightarrow> nat \<Rightarrow> nat \<times> pwf_dmabuf_plane list option" where
  "extract_planes_loop [] planes planes_len cnt = (cnt, planes)"
| "extract_planes_loop (d # ds) planes planes_len cnt =
     (if d_type d \<noteq> SPA_DATA_DmaBuf then extract_planes_loop ds planes planes_len cnt
      else
        let planes' = (case planes of
                         Some ps \<Rightarrow> if cnt < planes_len then Some (ps[cnt := plane_of_data d]) else Some ps
                       | None \<Rightarrow> None)
        in extract_planes_loop ds planes' planes_len (cnt + 1))"

definition pwf_dmabuf_extract_planes ::
    "spa_buffer option \<Rightarrow> pwf_dmabuf_plane list option \<Rightarrow> nat \<Rightarrow> nat \<times> pwf_dmabuf_plane list option" where
  "pwf_dmabuf_extract_planes b planes planes_len =
     (case b of None \<Rightarrow> (0, planes) | Some buf \<Rightarrow> extract_planes_loop (datas buf) planes planes_len 0)"

section \<open>Facts\<close>

definition dmabuf_planes :: "spa_buffer \<Rightarrow> pwf_dmabuf_plane list" where
  "dmabuf_planes buf = map plane_of_data (filter (\<lambda>d. d_type d = SPA_DATA_DmaBuf) (datas buf))"

lemma extract_planes_loop_count:
  "fst (extract_planes_loop ds planes n cnt) =
     cnt + length (filter (\<lambda>d. d_type d = SPA_DATA_DmaBuf) ds)"
  by (induction ds arbitrary: planes cnt) (auto simp: Let_def)

lemma extract_planes_loop_null [simp]: "snd (extract_planes_loop ds None n cnt) = None"
  by (induction ds arbitrary: cnt) (auto simp: Let_def)

text \<open>The array after the loop: what was there before \<open>cnt\<close>, the new planes, the old rest.\<close>

lemma extract_planes_loop_array:
  assumes "length ps = n" and "cnt \<le> n"
  shows "snd (extract_planes_loop ds (Some ps) n cnt) =
     (let new = map plane_of_data (filter (\<lambda>d. d_type d = SPA_DATA_DmaBuf) ds)
      in Some (take cnt ps @ take (n - cnt) new @ drop (cnt + length new) ps))"
  using assms
proof (induction ds arbitrary: ps cnt)
  case Nil
  then show ?case by simp
next
  case (Cons d ds)
  show ?case
  proof (cases "d_type d = SPA_DATA_DmaBuf")
    case False
    with Cons show ?thesis by simp
  next
    case dma: True
    show ?thesis
    proof (cases "cnt < n")
      case True
      let ?ps = "ps[cnt := plane_of_data d]"
      have "take (Suc cnt) ?ps = take cnt ps @ [plane_of_data d]"
        using True Cons.prems by (simp add: take_Suc_conv_app_nth)
      moreover have "n - cnt = Suc (n - Suc cnt)" using True by simp
      ultimately show ?thesis using Cons.IH [of ?ps "cnt + 1"] Cons.prems True dma
        by (simp add: Let_def)
    next
      case False
      then have "cnt = n" using Cons.prems by simp
      moreover have "snd (extract_planes_loop ds (Some ps) n c) = Some ps" if "n \<le> c" for c
        using that by (induction ds arbitrary: c) (auto simp: Let_def)
      ultimately show ?thesis using dma Cons.prems by (simp add: Let_def)
    qed
  qed
qed

end
