(* ===== verification/Pwf_Pw_Core.thy ===== *)
theory Pwf_Pw_Core
  imports Pwf_Types
begin

text \<open>
  The connection half of \<^verbatim>\<open>src/pwf_pw_core.c\<close>: the process-wide \<open>pw_init\<close> count, the thread loop,
  context and core each stream and filter owns, and the bounded core round trip.

  \<open>loop\<close> is the thread loop's pointer; \<open>pw_context\<close> and \<open>core\<close> say whether those pointers are set.
\<close>

section \<open>The library's reference count\<close>

datatype pw_lib_call = Pw_init | Pw_deinit

record pw_global =
  g_pw_init_count :: int
  lib_calls :: "pw_lib_call list"

definition pw_global_start :: pw_global where
  "pw_global_start = \<lparr>g_pw_init_count = 0, lib_calls = []\<rparr>"

definition pwf_pw_global_init :: "pw_global \<Rightarrow> pw_global" where
  "pwf_pw_global_init g =
     (let g1 = (if g_pw_init_count g = 0 then g\<lparr>lib_calls := lib_calls g @ [Pw_init]\<rparr> else g)
      in g1\<lparr>g_pw_init_count := g_pw_init_count g1 + 1\<rparr>)"

definition pwf_pw_global_deinit :: "pw_global \<Rightarrow> pw_global" where
  "pwf_pw_global_deinit g =
     (let g1 = g\<lparr>g_pw_init_count := g_pw_init_count g - 1\<rparr>
      in if g_pw_init_count g1 = 0 then g1\<lparr>lib_calls := lib_calls g1 @ [Pw_deinit]\<rparr> else g1)"

section \<open>The connection\<close>

record pwf_pw_core_conn =
  loop :: "nat option"
  pw_context :: bool
  core :: bool
  pending_seq :: int
  connect_result :: int
  sync_done :: bool

definition conn_zero :: pwf_pw_core_conn where
  "conn_zero = \<lparr>loop = None, pw_context = False, core = False, pending_seq = 0,
                connect_result = 0, sync_done = False\<rparr>"

definition PW_ID_CORE :: u32 where "PW_ID_CORE = 0"

definition ETIMEDOUT :: int where "ETIMEDOUT = 110"

definition pwf_pw_core_on_done :: "u32 \<Rightarrow> int \<Rightarrow> pwf_pw_core_conn \<Rightarrow> pwf_pw_core_conn" where
  "pwf_pw_core_on_done i seq c =
     (if i = PW_ID_CORE \<and> seq = pending_seq c then c\<lparr>sync_done := True\<rparr> else c)"

definition pwf_pw_core_on_error :: "int \<Rightarrow> pwf_pw_core_conn \<Rightarrow> pwf_pw_core_conn" where
  "pwf_pw_core_on_error res c =
     c\<lparr>connect_result := (if res < 0 then res else -1), sync_done := True\<rparr>"

datatype core_event = Core_done u32 int | Core_error int

fun core_dispatch :: "core_event \<Rightarrow> pwf_pw_core_conn \<Rightarrow> pwf_pw_core_conn" where
  "core_dispatch (Core_done i seq) c = pwf_pw_core_on_done i seq c"
| "core_dispatch (Core_error res) c = pwf_pw_core_on_error res c"

text \<open>
  What the PipeWire calls of \<open>pwf_pw_core_connect\<close> answer: the new loop, the result of starting it,
  whether a context and a core were made, the sequence number of the sync and the wake-ups.
\<close>

record connect_env =
  env_loop :: "nat option"
  env_loop_start :: int
  env_context :: bool
  env_core :: bool
  env_seq :: int
  env_wakes :: "core_event list list"
  env_late :: "core_event list"

text \<open>
  The wait of the code: the three fields are reset before it, a wait that fails sets the result to
  the given code, and the result is read after it.
\<close>

definition core_wait ::
    "int \<Rightarrow> int \<Rightarrow> core_event list list \<Rightarrow> core_event list \<Rightarrow> pwf_pw_core_conn \<Rightarrow> pwf_pw_core_conn" where
  "core_wait on_timeout seq wakes late c =
     (let c1 = c\<lparr>pending_seq := seq, sync_done := False, connect_result := 0\<rparr>
      in case loop_wait sync_done core_dispatch wakes late c1 of
           (True, c2) \<Rightarrow> c2
         | (False, c2) \<Rightarrow> c2\<lparr>connect_result := on_timeout\<rparr>)"

definition pwf_pw_core_connect ::
    "connect_env \<Rightarrow> pwf_pw_core_conn \<Rightarrow> int \<times> pwf_pw_core_conn \<times> pw_call list" where
  "pwf_pw_core_connect env c =
     (let c1 = c\<lparr>loop := env_loop env\<rparr> in
      if loop c1 = None then (-1, c1, [Log PWF_LOG_ERROR])
      else if env_loop_start env < 0 then (-1, c1, [Log PWF_LOG_ERROR])
      else
        let c2 = c1\<lparr>pw_context := env_context env\<rparr> in
        if \<not> pw_context c2 then (-1, c2, [Loop_lock, Loop_unlock, Log PWF_LOG_ERROR])
        else
          let c3 = c2\<lparr>core := env_core env\<rparr> in
          if \<not> core c3 then (-1, c3, [Loop_lock, Loop_unlock, Log PWF_LOG_ERROR])
          else
            let c4 = core_wait (-1) (env_seq env) (env_wakes env) (env_late env) c3 in
            (connect_result c4, c4,
             [Loop_lock, Loop_unlock] @ (if connect_result c4 < 0 then [Log PWF_LOG_ERROR] else [])))"

definition pwf_pw_core_teardown :: "pwf_pw_core_conn \<Rightarrow> pwf_pw_core_conn \<times> pw_call list" where
  "pwf_pw_core_teardown c =
     (let calls0 = (if loop c \<noteq> None then [Loop_stop] else []);
          calls1 = (if core c then [Core_disconnect] else []);
          c1 = c\<lparr>core := False\<rparr>;
          calls2 = (if pw_context c1 then [Context_destroy] else []);
          c2 = c1\<lparr>pw_context := False\<rparr>;
          calls3 = (if loop c2 \<noteq> None then [Loop_destroy] else []);
          c3 = c2\<lparr>loop := None\<rparr>
      in (c3, calls0 @ calls1 @ calls2 @ calls3))"

definition pwf_pw_error_from_sync :: "int \<Rightarrow> pwf_error" where
  "pwf_pw_error_from_sync res = (if res = - ETIMEDOUT then PWF_ERR_TIMEOUT else PWF_ERR_CONNECT_FAILED)"

section \<open>Facts\<close>

text \<open>\<open>pw_init\<close> and \<open>pw_deinit\<close> alternate, and the library is up exactly while the count is positive.\<close>

fun alternating :: "bool \<Rightarrow> pw_lib_call list \<Rightarrow> bool" where
  "alternating up [] = True"
| "alternating up (Pw_init # cs) = (\<not> up \<and> alternating True cs)"
| "alternating up (Pw_deinit # cs) = (up \<and> alternating False cs)"

definition lib_up :: "pw_lib_call list \<Rightarrow> bool" where
  "lib_up cs = (cs \<noteq> [] \<and> last cs = Pw_init)"

definition pw_global_ok :: "pw_global \<Rightarrow> bool" where
  "pw_global_ok g \<longleftrightarrow>
     0 \<le> g_pw_init_count g \<and> alternating False (lib_calls g) \<and>
     (lib_up (lib_calls g) \<longleftrightarrow> 0 < g_pw_init_count g)"

lemma alternating_snoc:
  "alternating up (cs @ [c]) \<longleftrightarrow>
     alternating up cs \<and> (c = Pw_init \<longleftrightarrow> \<not> (if cs = [] then up else last cs = Pw_init))"
proof (induction up cs rule: alternating.induct)
  case (1 up)
  then show ?case by (cases c) auto
next
  case (2 up cs)
  then show ?case by (cases cs) auto
next
  case (3 up cs)
  then show ?case by (cases cs) auto
qed

lemma pw_global_ok_start: "pw_global_ok pw_global_start"
  by (simp add: pw_global_ok_def pw_global_start_def lib_up_def)

lemma pw_global_ok_init: "pw_global_ok g \<Longrightarrow> pw_global_ok (pwf_pw_global_init g)"
  by (auto simp: pw_global_ok_def pwf_pw_global_init_def Let_def lib_up_def alternating_snoc)

lemma pw_global_ok_deinit:
  "pw_global_ok g \<Longrightarrow> 0 < g_pw_init_count g \<Longrightarrow> pw_global_ok (pwf_pw_global_deinit g)"
  by (auto simp: pw_global_ok_def pwf_pw_global_deinit_def Let_def lib_up_def alternating_snoc)

lemma core_dispatch_frame [simp]:
  "loop (core_dispatch e c) = loop c" "pw_context (core_dispatch e c) = pw_context c"
  "core (core_dispatch e c) = core c" "pending_seq (core_dispatch e c) = pending_seq c"
  by (cases e; simp add: pwf_pw_core_on_done_def pwf_pw_core_on_error_def)+

text \<open>
  Until the answer arrives, the result field holds what the last error callback put there, which is
  never positive.
\<close>

interpretation core_client: loop_client core_dispatch "\<lambda>c. connect_result c \<le> 0"
  by unfold_locales
     (case_tac e; auto simp: pwf_pw_core_on_done_def pwf_pw_core_on_error_def)

interpretation core_pointers: loop_client core_dispatch "\<lambda>c. loop c = l \<and> core c = k \<and> pw_context c = x"
  for l k x
  by unfold_locales auto

lemma core_wait_result: "connect_result (core_wait on_timeout seq wakes late c) \<le> 0 \<or>
   connect_result (core_wait on_timeout seq wakes late c) = on_timeout"
  using core_client.wait_inv [of "c\<lparr>pending_seq := seq, sync_done := False, connect_result := 0\<rparr>" sync_done wakes late]
  by (auto simp: core_wait_def Let_def split: prod.splits bool.splits)

lemma core_wait_success:
  assumes "0 \<le> connect_result (core_wait on_timeout seq wakes late c)" and "on_timeout < 0"
  shows "sync_done (core_wait on_timeout seq wakes late c)"
  using assms by (auto simp: core_wait_def Let_def dest: loop_wait_ready split: prod.splits bool.splits)

lemma core_wait_pointers [simp]:
  "loop (core_wait t seq wakes late c) = loop c"
  "core (core_wait t seq wakes late c) = core c"
  "pw_context (core_wait t seq wakes late c) = pw_context c"
  using core_pointers.wait_inv
    [of "c\<lparr>pending_seq := seq, sync_done := False, connect_result := 0\<rparr>" "loop c" "core c" "pw_context c" sync_done wakes late]
  by (auto simp: core_wait_def Let_def split: prod.splits bool.splits)

lemma teardown_clears:
  "pwf_pw_core_teardown c = (c', cs) \<Longrightarrow> loop c' = None \<and> \<not> core c' \<and> \<not> pw_context c'"
  by (auto simp: pwf_pw_core_teardown_def Let_def)

lemma teardown_idempotent:
  "pwf_pw_core_teardown (fst (pwf_pw_core_teardown c)) = (fst (pwf_pw_core_teardown c), [])"
  by (simp add: pwf_pw_core_teardown_def Let_def)

end
