(* ===== verification/Pwf_Registry.thy ===== *)
theory Pwf_Registry
  imports Pwf_Pw_Core
begin

text \<open>
  The registry half of \<^verbatim>\<open>src/pwf_pw_core.c\<close>: a cache of the graph's nodes and ports kept current by
  a listener, the lookups on it, and the round trips that wait for it. A stream and a filter each
  own one beside their connection, so the functions here work on a \<open>pwf_client\<close>, the two fields
  both structs begin with, and leave the owner's own fields alone.
\<close>

record pwf_pw_node_entry =
  node_id :: u32
  node_name :: string
  serial :: u64
  media_class :: "string option"
  description :: "string option"

record pwf_pw_port_entry =
  port_id :: u32
  port_node_id :: u32
  port_name :: string
  port_direction :: spa_direction
  ordinal :: u32

text \<open>
  \<open>bound\<close> says whether the registry proxy exists; the two callbacks are the owner's, and the flags
  say whether they are set.
\<close>

record pwf_pw_registry =
  bound :: bool
  nodes :: "pwf_pw_node_entry growable"
  ports :: "pwf_pw_port_entry growable"
  node_removed_cb :: bool
  port_added_cb :: bool

definition registry_zero :: pwf_pw_registry where
  "registry_zero = \<lparr>bound = False, nodes = growable_empty, ports = growable_empty,
                    node_removed_cb = False, port_added_cb = False\<rparr>"

text \<open>Which allocations of an \<open>add\<close> succeed: the array, the name, and the two optional strings.\<close>

record add_allocs =
  grow_ok :: bool
  name_ok :: bool
  class_ok :: bool
  desc_ok :: bool

definition all_allocs :: add_allocs where
  "all_allocs = \<lparr>grow_ok = True, name_ok = True, class_ok = True, desc_ok = True\<rparr>"

text \<open>A property dictionary; \<open>spa_dict_lookup\<close> is application. \<open>strdup\<close> of a string or NULL.\<close>

type_synonym spa_dict = "string \<rightharpoonup> string"

definition c_strdup :: "bool \<Rightarrow> string option \<Rightarrow> string option" where
  "c_strdup ok s = (if ok then s else None)"

section \<open>The listener\<close>

definition pwf_pw_registry_add_node ::
    "add_allocs \<Rightarrow> u32 \<Rightarrow> spa_dict \<Rightarrow> pwf_pw_registry \<Rightarrow> pwf_pw_registry" where
  "pwf_pw_registry_add_node al i props reg =
     (case props ''node.name'' of
        None \<Rightarrow> reg
      | Some name \<Rightarrow>
          (case growable_reserve 16 (grow_ok al) (nodes reg) of
             None \<Rightarrow> reg
           | Some g \<Rightarrow>
               if \<not> name_ok al then reg\<lparr>nodes := g\<rparr>
               else reg\<lparr>nodes := growable_push
                     \<lparr>node_id = i, node_name = name,
                      serial = (case props ''object.serial'' of Some s \<Rightarrow> c_strtoull s | None \<Rightarrow> 0),
                      media_class = c_strdup (class_ok al) (props ''media.class''),
                      description = c_strdup (desc_ok al) (props ''node.description'')\<rparr> g\<rparr>))"

text \<open>The second component is the node id handed to \<open>port_added_cb\<close>, when it is called.\<close>

definition pwf_pw_registry_add_port ::
    "add_allocs \<Rightarrow> u32 \<Rightarrow> spa_dict \<Rightarrow> pwf_pw_registry \<Rightarrow> pwf_pw_registry \<times> u32 option" where
  "pwf_pw_registry_add_port al i props reg =
     (case (props ''port.name'', props ''node.id'') of
        (Some name, Some nid) \<Rightarrow>
          (case growable_reserve 32 (grow_ok al) (ports reg) of
             None \<Rightarrow> (reg, None)
           | Some g \<Rightarrow>
               if \<not> name_ok al then (reg\<lparr>ports := g\<rparr>, None)
               else
                 let e = \<lparr>port_id = i, port_node_id = c_strtoul32 nid, port_name = name,
                          port_direction = (if props ''port.direction'' = Some ''out''
                                            then SPA_DIRECTION_OUTPUT else SPA_DIRECTION_INPUT),
                          ordinal = (case props ''port.id'' of Some s \<Rightarrow> c_strtoul32 s | None \<Rightarrow> 0)\<rparr>
                 in (reg\<lparr>ports := growable_push e g\<rparr>,
                     if port_added_cb reg then Some (port_node_id e) else None))
      | _ \<Rightarrow> (reg, None))"

definition pwf_pw_registry_on_global ::
    "add_allocs \<Rightarrow> u32 \<Rightarrow> string \<Rightarrow> spa_dict option \<Rightarrow> pwf_pw_registry \<Rightarrow> pwf_pw_registry \<times> u32 option" where
  "pwf_pw_registry_on_global al i type props reg =
     (case props of
        None \<Rightarrow> (reg, None)
      | Some d \<Rightarrow>
          if type = ''PipeWire:Interface:Node'' then (pwf_pw_registry_add_node al i d reg, None)
          else if type = ''PipeWire:Interface:Port'' then pwf_pw_registry_add_port al i d reg
          else (reg, None))"

text \<open>
  \<^verbatim>\<open>array[i] = array[--n]\<close> on the first entry with the id: the last entry takes its place.
\<close>

fun find_index :: "('a \<Rightarrow> bool) \<Rightarrow> 'a list \<Rightarrow> nat option" where
  "find_index P [] = None"
| "find_index P (x # xs) = (if P x then Some 0 else map_option Suc (find_index P xs))"

definition remove_by_swap :: "('a \<Rightarrow> bool) \<Rightarrow> 'a growable \<Rightarrow> bool \<times> 'a growable" where
  "remove_by_swap P g =
     (case find_index P (items g) of
        None \<Rightarrow> (False, g)
      | Some i \<Rightarrow> (True, g\<lparr>items := butlast ((items g)[i := last (items g)])\<rparr>))"

text \<open>The second component is the id handed to \<open>node_removed_cb\<close>, when it is called.\<close>

definition pwf_pw_registry_on_global_remove ::
    "u32 \<Rightarrow> pwf_pw_registry \<Rightarrow> pwf_pw_registry \<times> u32 option" where
  "pwf_pw_registry_on_global_remove i reg =
     (let (was_node, ns) = remove_by_swap (\<lambda>e. node_id e = i) (nodes reg);
          (_, ps) = remove_by_swap (\<lambda>e. port_id e = i) (ports reg)
      in (reg\<lparr>nodes := ns, ports := ps\<rparr>,
          if was_node \<and> node_removed_cb reg then Some i else None))"

definition pwf_pw_registry_teardown :: "pwf_pw_registry \<Rightarrow> pwf_pw_registry \<times> pw_call list" where
  "pwf_pw_registry_teardown reg =
     (reg\<lparr>bound := False, nodes := growable_empty, ports := growable_empty\<rparr>,
      if bound reg then [Registry_destroy] else [])"

section \<open>Lookups\<close>

definition pwf_pw_registry_find_node_by_name :: "pwf_pw_registry \<Rightarrow> string \<Rightarrow> u32" where
  "pwf_pw_registry_find_node_by_name reg name =
     (case find (\<lambda>e. node_name e = name) (items (nodes reg)) of Some e \<Rightarrow> node_id e | None \<Rightarrow> 0)"

definition pwf_pw_registry_find_node_by_serial :: "pwf_pw_registry \<Rightarrow> u64 \<Rightarrow> u32" where
  "pwf_pw_registry_find_node_by_serial reg s =
     (if s = 0 then 0
      else case find (\<lambda>e. serial e = s) (items (nodes reg)) of Some e \<Rightarrow> node_id e | None \<Rightarrow> 0)"

definition pwf_pw_registry_find_port ::
    "pwf_pw_registry \<Rightarrow> u32 \<Rightarrow> string \<Rightarrow> spa_direction \<Rightarrow> u32" where
  "pwf_pw_registry_find_port reg nid name dir =
     (case find (\<lambda>e. port_node_id e = nid \<and> port_direction e = dir \<and> port_name e = name)
             (items (ports reg)) of
        Some e \<Rightarrow> port_id e | None \<Rightarrow> 0)"

text \<open>
  The insertion of the port list: the entries above shift up from slot \<open>at\<close> until the new one's
  place is found. \<open>out\<close> is the filled part of the caller's array and the slot being filled.
\<close>

fun insert_by_ordinal :: "pwf_pw_port_entry \<Rightarrow> nat \<Rightarrow> pwf_pw_port_entry list \<Rightarrow> pwf_pw_port_entry list" where
  "insert_by_ordinal e 0 out = out[0 := e]"
| "insert_by_ordinal e (Suc at) out =
     (if ordinal (out ! at) > ordinal e
      then insert_by_ordinal e at (out[Suc at := out ! at])
      else out[Suc at := e])"

text \<open>
  \<open>out\<close> is \<open>None\<close> when the caller only counts. The result is the number of ports the node has and
  the filled part of the array.
\<close>

fun list_ports_loop ::
    "(pwf_pw_port_entry \<Rightarrow> bool) \<Rightarrow> nat \<Rightarrow> pwf_pw_port_entry list \<Rightarrow> nat \<Rightarrow>
     pwf_pw_port_entry list option \<Rightarrow> nat \<times> pwf_pw_port_entry list option" where
  "list_ports_loop wanted max_out [] found out = (found, out)"
| "list_ports_loop wanted max_out (e # es) found out =
     (if \<not> wanted e then list_ports_loop wanted max_out es found out
      else
        let found' = found + 1 in
        case out of
          None \<Rightarrow> list_ports_loop wanted max_out es found' out
        | Some xs \<Rightarrow>
            if found' > max_out then list_ports_loop wanted max_out es found' out
            else list_ports_loop wanted max_out es found'
                   (Some (insert_by_ordinal e (found' - 1) (xs @ [e]))))"

definition pwf_pw_registry_list_ports ::
    "pwf_pw_registry \<Rightarrow> u32 \<Rightarrow> spa_direction \<Rightarrow> bool \<Rightarrow> nat \<Rightarrow> nat \<times> pwf_pw_port_entry list option" where
  "pwf_pw_registry_list_ports reg nid dir has_out max_out =
     list_ports_loop (\<lambda>e. port_node_id e = nid \<and> port_direction e = dir) max_out
       (items (ports reg)) 0 (if has_out then Some [] else None)"

section \<open>Round trips\<close>

text \<open>
  A client: its connection and its registry, the calls it has made into PipeWire and the faults it
  has met (the last two are the model's). A stream and a filter extend this record, and their
  callbacks are the \<open>dispatch\<close> the waits run.
\<close>

record pwf_client =
  conn :: pwf_pw_core_conn
  registry :: pwf_pw_registry
  calls :: "pw_call list"
  faults :: "pwf_fault list"

definition emit :: "pw_call list \<Rightarrow> 'a pwf_client_scheme \<Rightarrow> 'a pwf_client_scheme" where
  "emit cs c = c\<lparr>calls := calls c @ cs\<rparr>"

definition fault :: "pwf_fault \<Rightarrow> 'a pwf_client_scheme \<Rightarrow> 'a pwf_client_scheme" where
  "fault f c = c\<lparr>faults := faults c @ [f]\<rparr>"

text \<open>The sequence number \<open>pw_core_sync\<close> answers, and the schedule of the wait.\<close>

record 'e sync_env =
  sync_seq :: int
  sync_wakes :: "'e list list"
  sync_late :: "'e list"

definition pwf_pw_core_sync_locked ::
    "('e \<Rightarrow> 'a pwf_client_scheme \<Rightarrow> 'a pwf_client_scheme) \<Rightarrow> 'e sync_env \<Rightarrow>
     'a pwf_client_scheme \<Rightarrow> int \<times> 'a pwf_client_scheme" where
  "pwf_pw_core_sync_locked dispatch env c =
     (let c1 = c\<lparr>conn := (conn c)\<lparr>pending_seq := sync_seq env, sync_done := False, connect_result := 0\<rparr>\<rparr>
      in case loop_wait (\<lambda>s. sync_done (conn s)) dispatch (sync_wakes env) (sync_late env) c1 of
           (True, c2) \<Rightarrow> (connect_result (conn c2), c2)
         | (False, c2) \<Rightarrow>
             let c3 = c2\<lparr>conn := (conn c2)\<lparr>connect_result := - ETIMEDOUT\<rparr>\<rparr>
             in (connect_result (conn c3), c3))"

definition pwf_pw_registry_bind ::
    "('e \<Rightarrow> 'a pwf_client_scheme \<Rightarrow> 'a pwf_client_scheme) \<Rightarrow> bool \<Rightarrow> 'e sync_env \<Rightarrow>
     'a pwf_client_scheme \<Rightarrow> int \<times> 'a pwf_client_scheme" where
  "pwf_pw_registry_bind dispatch got_registry env c =
     (if \<not> core (conn c) then (-1, c)
      else if bound (registry c) then (0, c)
      else
        let c1 = emit [Loop_lock] c;
            c2 = c1\<lparr>registry := (registry c1)\<lparr>bound := got_registry\<rparr>\<rparr>
        in if \<not> bound (registry c2) then (-1, emit [Loop_unlock, Log PWF_LOG_ERROR] c2)
           else
             case pwf_pw_core_sync_locked dispatch env c2 of
               (res, c3) \<Rightarrow>
                 (res, emit ([Loop_unlock] @ (if res < 0 then [Log PWF_LOG_ERROR] else [])) c3))"

definition pwf_pw_registry_sync ::
    "('e \<Rightarrow> 'a pwf_client_scheme \<Rightarrow> 'a pwf_client_scheme) \<Rightarrow> 'e sync_env \<Rightarrow>
     'a pwf_client_scheme \<Rightarrow> int \<times> 'a pwf_client_scheme" where
  "pwf_pw_registry_sync dispatch env c =
     (if \<not> bound (registry c) \<or> \<not> core (conn c) then (-1, c)
      else
        case pwf_pw_core_sync_locked dispatch env (emit [Loop_lock] c) of
          (res, c1) \<Rightarrow> (res, emit [Loop_unlock] c1))"

end
