(* ===== verification/Pwf_Registry_Facts.thy ===== *)
theory Pwf_Registry_Facts
  imports Pwf_Registry
begin

text \<open>
  What the registry promises its owners: the caches never overrun their arrays; with the unique ids
  the server hands out they hold exactly the globals announced and not removed; a port listing is
  the stable sort of a node's ports by ordinal.
\<close>

section \<open>Bounds\<close>

definition registry_ok :: "pwf_pw_registry \<Rightarrow> bool" where
  "registry_ok reg \<longleftrightarrow> growable_ok (nodes reg) \<and> growable_ok (ports reg)"

lemma registry_ok_zero [simp]: "registry_ok registry_zero"
  by (simp add: registry_ok_def registry_zero_def)

lemma growable_push_ok:
  "growable_reserve init a g = Some g' \<Longrightarrow> growable_ok g \<Longrightarrow> 0 < init \<Longrightarrow> growable_ok (growable_push x g')"
  using growable_reserve_room [of g init a g'] by (simp add: growable_ok_def growable_push_def)

lemma remove_by_swap_ok: "growable_ok g \<Longrightarrow> growable_ok (snd (remove_by_swap P g))"
  by (auto simp: remove_by_swap_def growable_ok_def split: option.splits)

lemma add_node_ok: "registry_ok reg \<Longrightarrow> registry_ok (pwf_pw_registry_add_node al i props reg)"
  by (auto simp: pwf_pw_registry_add_node_def registry_ok_def growable_push_ok growable_reserve_ok
      split: option.splits)

lemma add_port_ok: "registry_ok reg \<Longrightarrow> registry_ok (fst (pwf_pw_registry_add_port al i props reg))"
  by (auto simp: pwf_pw_registry_add_port_def registry_ok_def growable_push_ok growable_reserve_ok Let_def
      split: option.splits)

lemma on_global_ok: "registry_ok reg \<Longrightarrow> registry_ok (fst (pwf_pw_registry_on_global al i type props reg))"
  by (auto simp: pwf_pw_registry_on_global_def add_node_ok add_port_ok split: option.splits)

lemma on_global_remove_ok: "registry_ok reg \<Longrightarrow> registry_ok (fst (pwf_pw_registry_on_global_remove i reg))"
  using remove_by_swap_ok [of "nodes reg" "\<lambda>e. node_id e = i"]
    remove_by_swap_ok [of "ports reg" "\<lambda>e. port_id e = i"]
  by (auto simp: pwf_pw_registry_on_global_remove_def registry_ok_def split: prod.splits)

lemma teardown_ok [simp]: "registry_ok (fst (pwf_pw_registry_teardown reg))"
  by (simp add: pwf_pw_registry_teardown_def registry_ok_def)

section \<open>Removal keeps the rest\<close>

lemma find_index_Some:
  "find_index P xs = Some i \<Longrightarrow> i < length xs \<and> P (xs ! i) \<and> (\<forall>j<i. \<not> P (xs ! j))"
proof (induction xs arbitrary: i)
  case Nil
  then show ?case by simp
next
  case (Cons x xs)
  then show ?case by (cases i) (auto simp: less_Suc_eq_0_disj split: if_splits)
qed

lemma find_index_None: "find_index P xs = None \<longleftrightarrow> (\<forall>x\<in>set xs. \<not> P x)"
  by (induction xs) auto

lemma mset_swap_out:
  assumes "i < length xs"
  shows "mset (butlast (xs[i := last xs])) = mset xs - {#xs ! i#}"
proof -
  obtain ys y where xs: "xs = ys @ [y]" using assms by (cases xs rule: rev_cases) auto
  show ?thesis
  proof (cases "i < length ys")
    case True
    then show ?thesis using xs by (simp add: mset_update list_update_append nth_append)
  next
    case False
    with assms xs have "i = length ys" by simp
    with xs show ?thesis by (simp add: list_update_append)
  qed
qed

lemma remove_by_swap_mset:
  "mset (items (snd (remove_by_swap P g))) =
     (case find_index P (items g) of None \<Rightarrow> mset (items g) | Some i \<Rightarrow> mset (items g) - {#items g ! i#})"
  by (auto simp: remove_by_swap_def mset_swap_out dest: find_index_Some split: option.splits)

text \<open>The cache as a map from ids, which is what unique ids make of it.\<close>

definition cache :: "('a \<Rightarrow> 'k) \<Rightarrow> 'a growable \<Rightarrow> ('k \<rightharpoonup> 'a)" where
  "cache key g = map_of (map (\<lambda>e. (key e, e)) (items g))"

definition keyed :: "('a \<Rightarrow> 'k) \<Rightarrow> 'a growable \<Rightarrow> bool" where
  "keyed key g \<longleftrightarrow> distinct (map key (items g))"

lemma cache_Some:
  "keyed key g \<Longrightarrow> cache key g k = Some e \<longleftrightarrow> e \<in> set (items g) \<and> key e = k"
  by (auto simp: cache_def keyed_def map_of_eq_Some_iff comp_def)

lemma map_eqI_Some: "(\<And>k e. m k = Some e \<longleftrightarrow> m' k = Some e) \<Longrightarrow> m = m'"
  by (metis ext not_Some_eq)

lemma keyed_mset: "keyed key g \<longleftrightarrow> (\<forall>k. count (image_mset key (mset (items g))) k \<le> 1)"
proof -
  have "distinct xs \<longleftrightarrow> (\<forall>k. count (mset xs) k \<le> 1)" for xs :: "'b list"
    by (auto simp: distinct_count_atmost_1 count_mset_0_iff le_Suc_eq)
  then show ?thesis unfolding keyed_def by (metis mset_map)
qed

lemma keyed_remove: "keyed key g \<Longrightarrow> keyed key (snd (remove_by_swap P g))"
proof (cases "find_index P (items g)")
  case None
  then show "keyed key g \<Longrightarrow> ?thesis" by (simp add: remove_by_swap_def)
next
  case (Some i)
  assume k: "keyed key g"
  have "mset (items (snd (remove_by_swap P g))) \<subseteq># mset (items g)"
    using Some by (simp add: remove_by_swap_mset)
  then have "count (image_mset key (mset (items (snd (remove_by_swap P g))))) x
      \<le> count (image_mset key (mset (items g))) x" for x
    by (intro mset_subset_eq_count image_mset_subseteq_mono)
  with k show ?thesis unfolding keyed_mset by (meson le_trans)
qed

lemma cache_remove:
  assumes k: "keyed key g"
  shows "cache key (snd (remove_by_swap (\<lambda>e. key e = k) g)) = (cache key g)(k := None)"
proof (rule map_eqI_Some)
  fix j e
  let ?g' = "snd (remove_by_swap (\<lambda>e. key e = k) g)"
  have k': "keyed key ?g'" using k by (rule keyed_remove)
  have dist: "distinct (items g)" using k by (simp add: keyed_def distinct_map)
  have set': "set (items ?g') = {x \<in> set (items g). key x \<noteq> k}"
  proof (cases "find_index (\<lambda>e. key e = k) (items g)")
    case None
    then have "?g' = g" by (simp add: remove_by_swap_def)
    with None show ?thesis by (auto simp: find_index_None)
  next
    case (Some i)
    then have i: "i < length (items g)" "key (items g ! i) = k" by (auto dest: find_index_Some)
    have "mset (items ?g') = mset (items g) - {#items g ! i#}"
      using Some by (simp add: remove_by_swap_mset)
    then have "set (items ?g') = set (items g) - {items g ! i}"
      using dist by (metis mset_remove1 mset_eq_setD set_remove1_eq)
    moreover have "x = items g ! i" if "x \<in> set (items g)" "key x = k" for x
      using k i that by (auto simp: keyed_def distinct_map inj_on_def)
    ultimately show ?thesis using i by auto
  qed
  show "cache key ?g' j = Some e \<longleftrightarrow> ((cache key g)(k := None)) j = Some e"
    using set' by (auto simp: cache_Some [OF k'] cache_Some [OF k])
qed

lemma items_reserve_push:
  "growable_reserve init a g = Some g' \<Longrightarrow> items (growable_push x g') = items g @ [x]"
  by (simp add: growable_push_def growable_reserve_items)

lemma cache_push:
  assumes "items g' = items g @ [e]" and "key e \<notin> key ` set (items g)"
  shows "cache key g' = (cache key g)(key e \<mapsto> e)"
proof -
  have "map_of (map (\<lambda>x. (key x, x)) (items g)) (key e) = None"
    using assms(2) by (auto simp: map_of_eq_None_iff image_iff)
  then show ?thesis
    by (auto simp: cache_def assms(1) map_add_def fun_eq_iff split: option.splits)
qed

section \<open>The cache mirrors the graph\<close>

text \<open>
  The specification: the graph as two maps from ids, changed by what the server announces. The
  announcements are the events of the listener; \<open>graph_step\<close> says what each means.
\<close>

datatype registry_event =
    Global add_allocs u32 string "spa_dict option"
  | Global_remove u32

definition registry_dispatch :: "registry_event \<Rightarrow> pwf_pw_registry \<Rightarrow> pwf_pw_registry" where
  "registry_dispatch ev reg =
     (case ev of
        Global al i type props \<Rightarrow> fst (pwf_pw_registry_on_global al i type props reg)
      | Global_remove i \<Rightarrow> fst (pwf_pw_registry_on_global_remove i reg))"

definition node_of_dict :: "u32 \<Rightarrow> spa_dict \<Rightarrow> pwf_pw_node_entry option" where
  "node_of_dict i d =
     map_option (\<lambda>name. \<lparr>node_id = i, node_name = name,
                       serial = (case d ''object.serial'' of Some s \<Rightarrow> c_strtoull s | None \<Rightarrow> 0),
                       media_class = d ''media.class'', description = d ''node.description''\<rparr>)
       (d ''node.name'')"

definition port_of_dict :: "u32 \<Rightarrow> spa_dict \<Rightarrow> pwf_pw_port_entry option" where
  "port_of_dict i d =
     (case (d ''port.name'', d ''node.id'') of
        (Some name, Some nid) \<Rightarrow>
          Some \<lparr>port_id = i, port_node_id = c_strtoul32 nid, port_name = name,
                port_direction = (if d ''port.direction'' = Some ''out''
                                  then SPA_DIRECTION_OUTPUT else SPA_DIRECTION_INPUT),
                ordinal = (case d ''port.id'' of Some s \<Rightarrow> c_strtoul32 s | None \<Rightarrow> 0)\<rparr>
      | _ \<Rightarrow> None)"

type_synonym graph = "(u32 \<rightharpoonup> pwf_pw_node_entry) \<times> (u32 \<rightharpoonup> pwf_pw_port_entry)"

definition graph_step :: "registry_event \<Rightarrow> graph \<Rightarrow> graph" where
  "graph_step ev G =
     (case ev of
        Global _ i type (Some d) \<Rightarrow>
          (if type = ''PipeWire:Interface:Node''
           then (case node_of_dict i d of Some e \<Rightarrow> (fst G)(i \<mapsto> e) | None \<Rightarrow> fst G, snd G)
           else if type = ''PipeWire:Interface:Port''
           then (fst G, case port_of_dict i d of Some e \<Rightarrow> (snd G)(i \<mapsto> e) | None \<Rightarrow> snd G)
           else G)
      | Global _ i type None \<Rightarrow> G
      | Global_remove i \<Rightarrow> ((fst G)(i := None), (snd G)(i := None)))"

definition graph_of :: "pwf_pw_registry \<Rightarrow> graph" where
  "graph_of reg = (cache node_id (nodes reg), cache port_id (ports reg))"

definition registry_keyed :: "pwf_pw_registry \<Rightarrow> bool" where
  "registry_keyed reg \<longleftrightarrow> keyed node_id (nodes reg) \<and> keyed port_id (ports reg)"

text \<open>
  What PipeWire documents of an announcement: the id of a new global is not in use. The other half
  is the machine's: the allocations succeed.
\<close>

fun event_fresh :: "registry_event \<Rightarrow> graph \<Rightarrow> bool" where
  "event_fresh (Global al i _ _) G \<longleftrightarrow> al = all_allocs \<and> fst G i = None \<and> snd G i = None"
| "event_fresh (Global_remove _) G \<longleftrightarrow> True"

fun events_fresh :: "registry_event list \<Rightarrow> graph \<Rightarrow> bool" where
  "events_fresh [] G = True"
| "events_fresh (e # es) G = (event_fresh e G \<and> events_fresh es (graph_step e G))"

lemma growable_reserve_True: "\<exists>g'. growable_reserve init True g = Some g'"
  by (simp add: growable_reserve_def)

lemma cache_None_fresh: "cache key g k = None \<Longrightarrow> k \<notin> key ` set (items g)"
  by (auto simp: cache_def map_of_eq_None_iff image_iff)

lemma keyed_push:
  "items g' = items g @ [e] \<Longrightarrow> keyed key g \<Longrightarrow> key e \<notin> key ` set (items g) \<Longrightarrow> keyed key g'"
  by (auto simp: keyed_def)

lemma add_node_mirror:
  assumes "registry_keyed reg" and "fst (graph_of reg) i = None"
  shows "graph_of (pwf_pw_registry_add_node all_allocs i d reg) =
      (case node_of_dict i d of Some e \<Rightarrow> (fst (graph_of reg))(i \<mapsto> e) | None \<Rightarrow> fst (graph_of reg),
       snd (graph_of reg)) \<and>
    registry_keyed (pwf_pw_registry_add_node all_allocs i d reg)"
proof (cases "d ''node.name''")
  case None
  with assms show ?thesis by (simp add: pwf_pw_registry_add_node_def node_of_dict_def graph_of_def)
next
  case (Some name)
  obtain g where g: "growable_reserve 16 True (nodes reg) = Some g"
    using growable_reserve_True by blast
  obtain e where e: "node_of_dict i d = Some e" "node_id e = i"
    using Some by (auto simp: node_of_dict_def)
  have add: "pwf_pw_registry_add_node all_allocs i d reg = reg\<lparr>nodes := growable_push e g\<rparr>"
    using Some g e by (auto simp: pwf_pw_registry_add_node_def all_allocs_def node_of_dict_def c_strdup_def)
  have fresh: "node_id e \<notin> node_id ` set (items (nodes reg))"
    using assms(2) e by (simp add: graph_of_def cache_None_fresh)
  have its: "items (growable_push e g) = items (nodes reg) @ [e]"
    using g by (rule items_reserve_push)
  show ?thesis
    using assms(1) e cache_push [OF its fresh] keyed_push [OF its _ fresh]
    by (simp add: add graph_of_def registry_keyed_def)
qed

lemma add_port_mirror:
  assumes "registry_keyed reg" and "snd (graph_of reg) i = None"
  shows "graph_of (fst (pwf_pw_registry_add_port all_allocs i d reg)) =
      (fst (graph_of reg),
       case port_of_dict i d of Some e \<Rightarrow> (snd (graph_of reg))(i \<mapsto> e) | None \<Rightarrow> snd (graph_of reg)) \<and>
    registry_keyed (fst (pwf_pw_registry_add_port all_allocs i d reg))"
proof (cases "port_of_dict i d")
  case None
  with assms show ?thesis
    by (auto simp: pwf_pw_registry_add_port_def port_of_dict_def graph_of_def split: option.splits)
next
  case (Some e)
  obtain g where g: "growable_reserve 32 True (ports reg) = Some g"
    using growable_reserve_True by blast
  have e: "port_id e = i" using Some by (auto simp: port_of_dict_def split: option.splits)
  have add: "fst (pwf_pw_registry_add_port all_allocs i d reg) = reg\<lparr>ports := growable_push e g\<rparr>"
    using Some g
    by (auto simp: pwf_pw_registry_add_port_def all_allocs_def port_of_dict_def Let_def split: option.splits)
  have fresh: "port_id e \<notin> port_id ` set (items (ports reg))"
    using assms(2) e by (simp add: graph_of_def cache_None_fresh)
  have its: "items (growable_push e g) = items (ports reg) @ [e]"
    using g by (rule items_reserve_push)
  show ?thesis
    using assms(1) Some e cache_push [OF its fresh] keyed_push [OF its _ fresh]
    by (simp add: add graph_of_def registry_keyed_def)
qed

lemma on_global_remove_mirror:
  assumes "registry_keyed reg"
  shows "graph_of (fst (pwf_pw_registry_on_global_remove i reg)) =
      ((fst (graph_of reg))(i := None), (snd (graph_of reg))(i := None)) \<and>
    registry_keyed (fst (pwf_pw_registry_on_global_remove i reg))"
proof -
  have "fst (pwf_pw_registry_on_global_remove i reg) =
      reg\<lparr>nodes := snd (remove_by_swap (\<lambda>e. node_id e = i) (nodes reg)),
          ports := snd (remove_by_swap (\<lambda>e. port_id e = i) (ports reg))\<rparr>"
    by (simp add: pwf_pw_registry_on_global_remove_def split: prod.splits)
  with assms show ?thesis by (simp add: graph_of_def registry_keyed_def cache_remove keyed_remove)
qed

lemma registry_dispatch_mirror:
  assumes "registry_keyed reg" and "event_fresh ev (graph_of reg)"
  shows "graph_of (registry_dispatch ev reg) = graph_step ev (graph_of reg) \<and>
    registry_keyed (registry_dispatch ev reg)"
proof (cases ev)
  case (Global al i type props)
  with assms show ?thesis
    by (cases props) (auto simp: registry_dispatch_def graph_step_def pwf_pw_registry_on_global_def
        add_node_mirror add_port_mirror)
next
  case (Global_remove i)
  with assms show ?thesis
    by (auto simp: registry_dispatch_def graph_step_def on_global_remove_mirror)
qed


section \<open>Listing ports is a stable sort\<close>

lemma insert_by_ordinal_shift:
  "insert_by_ordinal e (length ys) (ys @ x # zs) =
     (let moved = takeWhile (\<lambda>y. ordinal e < ordinal y) (rev ys)
      in take (length ys - length moved) ys @ e # rev moved @ zs)"
proof (induction ys arbitrary: x zs rule: rev_induct)
  case Nil
  then show ?case by simp
next
  case (snoc y ys)
  show ?case
  proof (cases "ordinal e < ordinal y")
    case True
    have "insert_by_ordinal e (length (ys @ [y])) ((ys @ [y]) @ x # zs) =
        insert_by_ordinal e (length ys) (ys @ y # y # zs)"
      using True by (simp add: list_update_append nth_append)
    also have "\<dots> = (let moved = takeWhile (\<lambda>y. ordinal e < ordinal y) (rev ys)
        in take (length ys - length moved) ys @ e # rev moved @ y # zs)"
      by (rule snoc.IH)
    finally show ?thesis
      using True by (simp add: Let_def)
  next
    case False
    then show ?thesis by (simp add: list_update_append nth_append)
  qed
qed

text \<open>The insertion of one port, on the sorted prefix.\<close>

definition ordinal_insert :: "pwf_pw_port_entry \<Rightarrow> pwf_pw_port_entry list \<Rightarrow> pwf_pw_port_entry list" where
  "ordinal_insert e xs = insert_by_ordinal e (length xs) (xs @ [e])"

lemma ordinal_insert_split:
  "\<exists>keep moved. xs = keep @ moved \<and> ordinal_insert e xs = keep @ e # moved \<and>
     (\<forall>y\<in>set moved. ordinal e < ordinal y) \<and> (keep = [] \<or> \<not> ordinal e < ordinal (last keep))"
proof -
  let ?P = "\<lambda>y. ordinal e < ordinal y"
  let ?m = "takeWhile ?P (rev xs)" and ?k = "dropWhile ?P (rev xs)"
  have xs: "xs = rev ?k @ rev ?m"
    by (metis rev_append rev_rev_ident takeWhile_dropWhile_id)
  have len: "length xs - length ?m = length (rev ?k)"
    using arg_cong [OF xs, of length] by simp
  have "take (length xs - length ?m) xs = take (length (rev ?k)) (rev ?k @ rev ?m)"
    unfolding len using xs by simp
  then have "take (length xs - length ?m) xs = rev ?k" by simp
  then have "ordinal_insert e xs = rev ?k @ e # rev ?m"
    unfolding ordinal_insert_def using insert_by_ordinal_shift [of e xs e "[]"] by (simp add: Let_def)
  moreover have "\<forall>y\<in>set (rev ?m). ?P y" by (auto dest: set_takeWhileD)
  moreover have "rev ?k = [] \<or> \<not> ?P (last (rev ?k))"
    by (metis hd_dropWhile last_rev rev_is_Nil_conv)
  ultimately show ?thesis using xs by blast
qed

lemma ordinal_insert_sort:
  "ordinal_insert e (sort_key ordinal xs) = sort_key ordinal (xs @ [e])"
proof -
  obtain keep moved where s: "sort_key ordinal xs = keep @ moved"
    and r: "ordinal_insert e (sort_key ordinal xs) = keep @ e # moved"
    and m: "\<forall>y\<in>set moved. ordinal e < ordinal y"
    and k: "keep = [] \<or> \<not> ordinal e < ordinal (last keep)"
    using ordinal_insert_split [of "sort_key ordinal xs" e] by blast
  have sorted: "sorted (map ordinal (keep @ moved))" by (metis s sorted_sort_key)
  have le: "\<forall>y\<in>set keep. ordinal y \<le> ordinal e"
  proof
    fix y assume y: "y \<in> set keep"
    then obtain ks l where kl: "keep = ks @ [l]" by (cases keep rule: rev_cases) auto
    with sorted y have "ordinal y \<le> ordinal l" by (auto simp: sorted_append)
    with k kl show "ordinal y \<le> ordinal e" by simp
  qed
  have "sort_key ordinal (xs @ [e]) = keep @ e # moved"
  proof (rule properties_for_sort_key)
    show "mset (keep @ e # moved) = mset (xs @ [e])"
      using arg_cong [OF s, of mset] by simp
  next
    fix x assume "x \<in> set (keep @ e # moved)"
    have "filter (\<lambda>y. ordinal x = ordinal y) (keep @ moved) = filter (\<lambda>y. ordinal x = ordinal y) xs"
      using sort_key_stable [of ordinal "ordinal x" xs] by (simp add: s eq_commute)
    moreover have "filter (\<lambda>y. ordinal x = ordinal y) moved = []" if "ordinal x = ordinal e"
      using m that by (auto simp: filter_empty_conv)
    ultimately show "filter (\<lambda>y. ordinal x = ordinal y) (keep @ e # moved) = filter (\<lambda>y. ordinal x = ordinal y) (xs @ [e])"
      by auto
  next
    show "sorted (map ordinal (keep @ e # moved))"
      using sorted le m by (auto simp: sorted_append intro: less_imp_le)
  qed
  with r show ?thesis by simp
qed

lemma list_ports_loop_count:
  "fst (list_ports_loop wanted max_out es found out) = found + length (filter wanted es)"
  by (induction wanted max_out es found out rule: list_ports_loop.induct)
     (auto simp: Let_def split: option.splits)

lemma list_ports_loop_out:
  "list_ports_loop wanted max_out es (length pre) (Some (sort_key ordinal (take max_out pre))) =
     (length pre + length (filter wanted es), Some (sort_key ordinal (take max_out (pre @ filter wanted es))))"
proof (induction es arbitrary: pre)
  case Nil
  then show ?case by simp
next
  case (Cons e es)
  show ?case
  proof (cases "wanted e")
    case False
    with Cons show ?thesis by simp
  next
    case True
    show ?thesis
    proof (cases "Suc (length pre) > max_out")
      case full: True
      then have "take max_out (pre @ [e]) = take max_out pre" by simp
      with full True Cons.IH [of "pre @ [e]"] show ?thesis by (simp add: Let_def)
    next
      case room: False
      then have t: "take max_out pre = pre" "take max_out (pre @ [e]) = pre @ [e]" by auto
      have ins: "insert_by_ordinal e (length pre) (sort_key ordinal pre @ [e]) = sort_key ordinal (pre @ [e])"
        using ordinal_insert_sort [of e pre] by (simp add: ordinal_insert_def)
      with room t True Cons.IH [of "pre @ [e]"] show ?thesis by (simp add: Let_def ins)
    qed
  qed
qed

definition node_ports :: "pwf_pw_registry \<Rightarrow> u32 \<Rightarrow> spa_direction \<Rightarrow> pwf_pw_port_entry list" where
  "node_ports reg nid dir =
     filter (\<lambda>e. port_node_id e = nid \<and> port_direction e = dir) (items (ports reg))"

lemma list_ports_eq:
  "pwf_pw_registry_list_ports reg nid dir True max_out =
     (length (node_ports reg nid dir), Some (sort_key ordinal (take max_out (node_ports reg nid dir))))"
  using list_ports_loop_out [of "\<lambda>e. port_node_id e = nid \<and> port_direction e = dir" max_out "items (ports reg)" "[]"]
  by (simp add: pwf_pw_registry_list_ports_def node_ports_def)

lemma list_ports_count: "fst (pwf_pw_registry_list_ports reg nid dir has_out max_out) =
   length (node_ports reg nid dir)"
  by (simp add: pwf_pw_registry_list_ports_def node_ports_def list_ports_loop_count)

end
