(* ===== verification/Pwf_Client.thy ===== *)
theory Pwf_Client
  imports Pwf_Registry_Facts
begin

text \<open>
  The contract between an owner's event callbacks and the functions of the connection and the
  registry that wait on its loop. A stream and a filter each register callbacks that the loop
  thread may run during a wait; whatever those are, they keep the pointers the wait uses, leave the
  loop lock as they found it and keep the registry well formed. What the round trips promise in
  return is proved once here, and both owners inherit it.
\<close>

definition held :: "'a pwf_client_scheme \<Rightarrow> int" where
  "held c = lock_depth (calls c)"

lemma held_emit [simp]: "held (emit cs c) = held c + lock_depth cs"
  by (simp add: held_def emit_def)

lemma emit_frame [simp]:
  "conn (emit cs c) = conn c" "registry (emit cs c) = registry c" "faults (emit cs c) = faults c"
  "calls (emit cs c) = calls c @ cs" "pwf_client.more (emit cs c) = pwf_client.more c"
  by (simp_all add: emit_def)

lemma fault_frame [simp]:
  "conn (fault f c) = conn c" "registry (fault f c) = registry c" "calls (fault f c) = calls c"
  "held (fault f c) = held c" "pwf_client.more (fault f c) = pwf_client.more c"
  by (simp_all add: fault_def held_def)

lemma held_conn_update [simp]: "held (c\<lparr>conn := x\<rparr>) = held c"
  and held_registry_update [simp]: "held (c\<lparr>registry := r\<rparr>) = held c"
  by (simp_all add: held_def)

text \<open>How often a proxy was destroyed.\<close>

definition destroyed :: "nat \<Rightarrow> 'a pwf_client_scheme \<Rightarrow> nat" where
  "destroyed q c = count_list (calls c) (Proxy_destroy q)"

lemma destroyed_emit: "destroyed q (emit cs c) = destroyed q c + count_list cs (Proxy_destroy q)"
  by (simp add: destroyed_def emit_def)

lemma destroyed_update [simp]: "destroyed q (c\<lparr>conn := x\<rparr>) = destroyed q c" "destroyed q (c\<lparr>registry := r\<rparr>) = destroyed q c"
  by (simp_all add: destroyed_def)

text \<open>What a wait may not change.\<close>

definition same_client :: "'a pwf_client_scheme \<Rightarrow> 'a pwf_client_scheme \<Rightarrow> bool" where
  "same_client c0 c \<longleftrightarrow>
     loop (conn c) = loop (conn c0) \<and> core (conn c) = core (conn c0) \<and>
     bound (registry c) = bound (registry c0) \<and> held c = held c0 \<and>
     (registry_ok (registry c0) \<longrightarrow> registry_ok (registry c))"

lemma same_client_refl [simp]: "same_client c c"
  by (simp add: same_client_def)

lemma same_client_trans: "same_client a b \<Longrightarrow> same_client b c \<Longrightarrow> same_client a c"
  by (auto simp: same_client_def)

text \<open>
  A wait that is answered: as long as nothing else disturbs it, the wake-up that brings the answer
  ends it, however many wake-ups follow.
\<close>

lemma loop_wait_answered:
  assumes "calm s"
    and step: "\<And>e s. e \<in> set (concat ws) \<Longrightarrow> calm s \<Longrightarrow> calm (dispatch e s)"
    and early: "\<And>s. calm s \<Longrightarrow> ready s \<Longrightarrow> Q s"
    and answer: "\<And>s. calm s \<Longrightarrow> ready (fold dispatch evs s) \<and> Q (fold dispatch evs s)"
  shows "\<exists>s'. loop_wait ready dispatch (ws @ evs # rest) late s = (True, s') \<and> Q s'"
  using assms(1) step
proof (induction ws arbitrary: s)
  case Nil
  show ?case
  proof (cases "ready s")
    case True
    then show ?thesis using early [OF Nil.prems(1)] by simp
  next
    case False
    then show ?thesis using answer [OF Nil.prems(1)] by simp
  qed
next
  case (Cons w ws)
  show ?case
  proof (cases "ready s")
    case True
    then show ?thesis using early [OF Cons.prems(1)] by simp
  next
    case False
    have "calm (fold dispatch w s)"
      by (rule fold_invariant [where Q = "\<lambda>e. e \<in> set w"]) (use Cons.prems in simp_all)
    then show ?thesis using Cons.IH Cons.prems(2) False by simp
  qed
qed

text \<open>A connection attempt leaves no lock held, and succeeds only with the loop and the core in place.\<close>

lemma connect_kept:
  assumes "pwf_pw_core_connect env c = (res, k, cs)"
  shows "lock_depth cs = 0" "0 \<le> res \<Longrightarrow> loop k \<noteq> None \<and> core k"
  using assms by (auto simp: pwf_pw_core_connect_def Let_def split: if_splits)

locale client_loop =
  fixes dispatch :: "'e \<Rightarrow> 'a pwf_client_scheme \<Rightarrow> 'a pwf_client_scheme"
  assumes dispatch_same: "same_client c (dispatch e c)"
    and dispatch_result: "connect_result (conn c) \<le> 0 \<Longrightarrow> connect_result (conn (dispatch e c)) \<le> 0"
begin

lemma dispatch_keeps: "same_client c0 c \<Longrightarrow> same_client c0 (dispatch e c)"
  using dispatch_same same_client_trans by blast

end

sublocale client_loop \<subseteq> same: loop_client dispatch "same_client c0"
  by unfold_locales (rule dispatch_keeps)

sublocale client_loop \<subseteq> result: loop_client dispatch "\<lambda>c. connect_result (conn c) \<le> 0"
  by unfold_locales (rule dispatch_result)

context client_loop
begin

lemma wait_same: "same_client c (snd (loop_wait ready dispatch wakes late c))"
  by (rule same.wait_inv) simp

lemma sync_same: "same_client c (snd (pwf_pw_core_sync_locked dispatch env c))"
proof -
  let ?c1 = "c\<lparr>conn := (conn c)\<lparr>pending_seq := sync_seq env, sync_done := False, connect_result := 0\<rparr>\<rparr>"
  have "same_client c ?c1" by (simp add: same_client_def)
  then have "same_client c (snd (loop_wait (\<lambda>s. sync_done (conn s)) dispatch (sync_wakes env) (sync_late env) ?c1))"
    by (rule same.wait_inv)
  then show ?thesis
    by (auto simp: pwf_pw_core_sync_locked_def Let_def same_client_def split: prod.splits bool.splits)
qed

lemma sync_result: "fst (pwf_pw_core_sync_locked dispatch env c) \<le> 0"
  using result.wait_inv [of "c\<lparr>conn := (conn c)\<lparr>pending_seq := sync_seq env, sync_done := False, connect_result := 0\<rparr>\<rparr>"
      "\<lambda>s. sync_done (conn s)" "sync_wakes env" "sync_late env"]
  by (auto simp: pwf_pw_core_sync_locked_def Let_def ETIMEDOUT_def split: prod.splits bool.splits)

text \<open>The lock is released and the pointers are kept on every path; success means a bound registry.\<close>

lemma bind_spec:
  assumes "pwf_pw_registry_bind dispatch got env c = (res, c')"
  shows "held c' = held c" "loop (conn c') = loop (conn c)" "core (conn c') = core (conn c)" "res \<le> 0"
    "0 \<le> res \<Longrightarrow> bound (registry c')" "registry_ok (registry c) \<Longrightarrow> registry_ok (registry c')"
proof -
  let ?c2 = "(emit [Loop_lock] c)\<lparr>registry := (registry c)\<lparr>bound := True\<rparr>\<rparr>"
  obtain r c3 where s: "pwf_pw_core_sync_locked dispatch env ?c2 = (r, c3)" by fastforce
  have same: "same_client ?c2 c3" and r: "r \<le> 0"
    using sync_same [of ?c2 env] sync_result [of env ?c2] s by simp_all
  have ok: "registry_ok ((registry c)\<lparr>bound := b\<rparr>) = registry_ok (registry c)" for b
    by (simp add: registry_ok_def)
  have "held c' = held c \<and> loop (conn c') = loop (conn c) \<and> core (conn c') = core (conn c) \<and> res \<le> 0 \<and>
      (0 \<le> res \<longrightarrow> bound (registry c')) \<and> (registry_ok (registry c) \<longrightarrow> registry_ok (registry c'))"
    using assms s same r
    by (cases got) (auto simp: pwf_pw_registry_bind_def Let_def same_client_def ok split: if_splits)
  then show "held c' = held c" "loop (conn c') = loop (conn c)" "core (conn c') = core (conn c)" "res \<le> 0"
    "0 \<le> res \<Longrightarrow> bound (registry c')" "registry_ok (registry c) \<Longrightarrow> registry_ok (registry c')"
    by auto
qed

lemma bind_again: "bound (registry c) \<Longrightarrow> core (conn c) \<Longrightarrow> pwf_pw_registry_bind dispatch got env c = (0, c)"
  by (simp add: pwf_pw_registry_bind_def)

lemma registry_sync_spec:
  assumes "pwf_pw_registry_sync dispatch env c = (res, c')"
  shows "same_client c c'" "res \<le> 0"
proof -
  obtain r c1 where s: "pwf_pw_core_sync_locked dispatch env (emit [Loop_lock] c) = (r, c1)" by fastforce
  have "same_client (emit [Loop_lock] c) c1" "r \<le> 0"
    using sync_same [of "emit [Loop_lock] c" env] sync_result [of env "emit [Loop_lock] c"] s by simp_all
  with assms s show "same_client c c'" "res \<le> 0"
    by (auto simp: pwf_pw_registry_sync_def same_client_def split: if_splits)
qed

end

end
