(* ===== verification/Pwf_Spa_Format.thy ===== *)
theory Pwf_Spa_Format
  imports Pwf_Types
begin

text \<open>
  \<^verbatim>\<open>src/pwf_spa_format.c\<close>: the format-name tables and their lookups, and the PODs built for each
  kind of stream and port; and \<open>pwf_audio_bytes_per_frame\<close> of \<^verbatim>\<open>src/pwf_audio_format.c\<close>.
\<close>

section \<open>Names of formats\<close>

definition pwf_audio_sample_formats :: "(string \<times> spa_audio_format) list" where
  "pwf_audio_sample_formats =
     [(''U8'', SPA_AUDIO_FORMAT_U8),
      (''S16'', SPA_AUDIO_FORMAT_S16),
      (''S24'', SPA_AUDIO_FORMAT_S24),
      (''S24_32'', SPA_AUDIO_FORMAT_S24_32),
      (''S32'', SPA_AUDIO_FORMAT_S32),
      (''F32'', SPA_AUDIO_FORMAT_F32)]"

definition pwf_pixel_formats :: "(string \<times> spa_video_format) list" where
  "pwf_pixel_formats =
     [(''RGB'', SPA_VIDEO_FORMAT_RGB),
      (''YUYV'', SPA_VIDEO_FORMAT_YUY2),
      (''NV12'', SPA_VIDEO_FORMAT_NV12),
      (''NV21'', SPA_VIDEO_FORMAT_NV21),
      (''I420'', SPA_VIDEO_FORMAT_I420)]"

text \<open>The search loops: the first entry with the wanted name, or with the wanted format.\<close>

fun table_find_by_name :: "'f \<Rightarrow> (string \<times> 'f) list \<Rightarrow> string \<Rightarrow> 'f" where
  "table_find_by_name unknown [] name = unknown"
| "table_find_by_name unknown ((n, f) # rest) name =
     (if n = name then f else table_find_by_name unknown rest name)"

fun table_find_by_format :: "(string \<times> 'f) list \<Rightarrow> 'f \<Rightarrow> string option" where
  "table_find_by_format [] format = None"
| "table_find_by_format ((n, f) # rest) format =
     (if f = format then Some n else table_find_by_format rest format)"

definition pwf_spa_lookup_audio_format :: "string \<Rightarrow> spa_audio_format" where
  "pwf_spa_lookup_audio_format name =
     table_find_by_name SPA_AUDIO_FORMAT_UNKNOWN pwf_audio_sample_formats name"

definition pwf_spa_lookup_pixel_format :: "string \<Rightarrow> spa_video_format" where
  "pwf_spa_lookup_pixel_format name =
     table_find_by_name SPA_VIDEO_FORMAT_UNKNOWN pwf_pixel_formats name"

definition pwf_spa_pixel_format_name_or_null :: "spa_video_format \<Rightarrow> string option" where
  "pwf_spa_pixel_format_name_or_null format =
     (if format = SPA_VIDEO_FORMAT_ENCODED then Some ''MJPG''
      else table_find_by_format pwf_pixel_formats format)"

definition pwf_spa_pixel_format_name :: "spa_video_format \<Rightarrow> string" where
  "pwf_spa_pixel_format_name format =
     (case pwf_spa_pixel_format_name_or_null format of Some name \<Rightarrow> name | None \<Rightarrow> ''unknown'')"

definition pwf_spa_pixel_format_is_mjpg :: "string \<Rightarrow> bool" where
  "pwf_spa_pixel_format_is_mjpg name \<longleftrightarrow> name = ''MJPG''"

definition pwf_spa_pixel_format_is_h264 :: "string \<Rightarrow> bool" where
  "pwf_spa_pixel_format_is_h264 name \<longleftrightarrow> name = ''H264''"

section \<open>PODs\<close>

definition pwf_spa_build_audio_format :: "pwf_audio_config \<Rightarrow> spa_audio_format \<Rightarrow> spa_pod" where
  "pwf_spa_build_audio_format config fmt =
     Pod_audio_raw \<lparr>raw_format = fmt,
                    raw_rate = word_of_int (sample_rate config),
                    raw_channels = word_of_int (channels config)\<rparr>"

definition config_rectangle :: "pwf_video_config \<Rightarrow> spa_rectangle" where
  "config_rectangle config =
     \<lparr>rect_width = word_of_int (cfg_width config), rect_height = word_of_int (cfg_height config)\<rparr>"

definition SPA_FRACTION :: "u32 \<Rightarrow> u32 \<Rightarrow> spa_fraction" where
  "SPA_FRACTION n d = \<lparr>num = n, denom = d\<rparr>"

definition pwf_spa_build_video_format :: "pwf_video_config \<Rightarrow> spa_video_format \<Rightarrow> spa_pod" where
  "pwf_spa_build_video_format config fmt =
     Pod_object SPA_TYPE_OBJECT_Format SPA_PARAM_EnumFormat
       ([(SPA_FORMAT_mediaType, Pod_media_type SPA_MEDIA_TYPE_video),
         (SPA_FORMAT_mediaSubtype, Pod_media_subtype SPA_MEDIA_SUBTYPE_raw),
         (SPA_FORMAT_VIDEO_format, Pod_video_format fmt),
         (SPA_FORMAT_VIDEO_size, Pod_rectangle (config_rectangle config))] @
        (if cfg_fps config > 0 then
           [(SPA_FORMAT_VIDEO_framerate, Pod_fraction (SPA_FRACTION (word_of_int (cfg_fps config)) 1))]
         else
           [(SPA_FORMAT_VIDEO_framerate,
             Pod_fraction_range (SPA_FRACTION 30 1) (SPA_FRACTION 0 1) (SPA_FRACTION 1000 1))]))"

text \<open>The two encoded formats fill the same struct; a rate that is not asked for stays zero.\<close>

definition encoded_info :: "pwf_video_config \<Rightarrow> spa_video_info_encoded" where
  "encoded_info config =
     \<lparr>enc_size = config_rectangle config,
      enc_framerate = (if cfg_fps config > 0 then SPA_FRACTION (word_of_int (cfg_fps config)) 1
                       else SPA_FRACTION 0 0)\<rparr>"

definition pwf_spa_build_video_format_mjpg :: "pwf_video_config \<Rightarrow> spa_pod" where
  "pwf_spa_build_video_format_mjpg config = Pod_video_mjpg (encoded_info config)"

definition pwf_spa_build_video_format_h264 :: "pwf_video_config \<Rightarrow> spa_pod" where
  "pwf_spa_build_video_format_h264 config = Pod_video_h264 (encoded_info config)"

definition pwf_spa_build_signal_format :: spa_pod where
  "pwf_spa_build_signal_format = Pod_audio_dsp SPA_AUDIO_FORMAT_DSP_F32"

definition pwf_spa_build_event_format :: spa_pod where
  "pwf_spa_build_event_format =
     Pod_object SPA_TYPE_OBJECT_Format SPA_PARAM_EnumFormat
       [(SPA_FORMAT_mediaType, Pod_media_type SPA_MEDIA_TYPE_application),
        (SPA_FORMAT_mediaSubtype, Pod_media_subtype SPA_MEDIA_SUBTYPE_control)]"

definition pwf_spa_build_dmabuf_buffers :: "int \<Rightarrow> spa_pod" where
  "pwf_spa_build_dmabuf_buffers extra_buffers =
     (let min_buffers = 2 + extra_buffers in
      Pod_object SPA_TYPE_OBJECT_ParamBuffers SPA_PARAM_Buffers
        [(SPA_PARAM_BUFFERS_buffers, Pod_int_range min_buffers min_buffers 32),
         (SPA_PARAM_BUFFERS_dataType, Pod_data_types [SPA_DATA_DmaBuf])])"

definition pwf_spa_build_cpu_buffers :: spa_pod where
  "pwf_spa_build_cpu_buffers =
     Pod_object SPA_TYPE_OBJECT_ParamBuffers SPA_PARAM_Buffers
       [(SPA_PARAM_BUFFERS_dataType, Pod_data_types [SPA_DATA_MemPtr, SPA_DATA_MemFd])]"

definition pwf_spa_build_meta_header :: spa_pod where
  "pwf_spa_build_meta_header =
     Pod_object SPA_TYPE_OBJECT_ParamMeta SPA_PARAM_Meta
       [(SPA_PARAM_META_type, Pod_meta_header), (SPA_PARAM_META_size, Pod_sizeof_meta_header)]"

section \<open>Frame sizes\<close>

text \<open>\<open>sample * (size_t)channels\<close> in \<open>size_t\<close>.\<close>

definition pwf_audio_bytes_per_frame :: "spa_audio_format \<Rightarrow> int \<Rightarrow> u64" where
  "pwf_audio_bytes_per_frame format chans =
     (if chans \<le> 0 then 0
      else case format of
          SPA_AUDIO_FORMAT_U8 \<Rightarrow> 1 * word_of_int chans
        | SPA_AUDIO_FORMAT_S16 \<Rightarrow> 2 * word_of_int chans
        | SPA_AUDIO_FORMAT_S24 \<Rightarrow> 3 * word_of_int chans
        | SPA_AUDIO_FORMAT_S24_32 \<Rightarrow> 4 * word_of_int chans
        | SPA_AUDIO_FORMAT_S32 \<Rightarrow> 4 * word_of_int chans
        | SPA_AUDIO_FORMAT_F32 \<Rightarrow> 4 * word_of_int chans
        | _ \<Rightarrow> 0)"

section \<open>Which memory a stream or port asks for\<close>

text \<open>The memory types a list of params restricts buffers to, for the properties about DMABUF.\<close>

fun pod_data_types :: "spa_pod \<Rightarrow> spa_data_type list" where
  "pod_data_types (Pod_object _ _ props) =
     concat (map (\<lambda>(k, v). case v of Pod_data_types ts \<Rightarrow> ts | _ \<Rightarrow> []) props)"
| "pod_data_types _ = []"

section \<open>Facts\<close>

lemmas spa_tables = pwf_audio_sample_formats_def pwf_pixel_formats_def

lemma pixel_format_name_of_lookup:
  "pwf_spa_lookup_pixel_format name \<noteq> SPA_VIDEO_FORMAT_UNKNOWN \<Longrightarrow>
     pwf_spa_pixel_format_name_or_null (pwf_spa_lookup_pixel_format name) = Some name"
  by (auto simp: pwf_spa_lookup_pixel_format_def pwf_spa_pixel_format_name_or_null_def
      pwf_pixel_formats_def split: if_splits)

lemma pixel_format_lookup_of_name:
  "pwf_spa_pixel_format_name_or_null f = Some name \<Longrightarrow> f \<noteq> SPA_VIDEO_FORMAT_ENCODED \<Longrightarrow>
     pwf_spa_lookup_pixel_format name = f \<and> f \<noteq> SPA_VIDEO_FORMAT_UNKNOWN"
  by (auto simp: pwf_spa_lookup_pixel_format_def pwf_spa_pixel_format_name_or_null_def
      pwf_pixel_formats_def split: if_splits)

lemma audio_lookup_bytes_pos:
  assumes "pwf_spa_lookup_audio_format name \<noteq> SPA_AUDIO_FORMAT_UNKNOWN"
    and "0 < chans" and "chans < 2 ^ 31"
  shows "pwf_audio_bytes_per_frame (pwf_spa_lookup_audio_format name) chans \<noteq> 0"
proof -
  have bound: "0 < k * chans \<and> k * chans < 2 ^ 64" if "0 < k" "k \<le> 4" for k :: int
  proof -
    have "k * chans \<le> 4 * chans" using that assms(2) by (intro mult_right_mono) auto
    moreover have "4 * chans < 2 ^ 64" using assms(3) by simp
    ultimately have "k * chans < 2 ^ 64" by (rule le_less_trans)
    moreover have "0 < k * chans" using that assms(2) by simp
    ultimately show ?thesis by simp
  qed
  have nz: "word_of_int (k * chans) \<noteq> (0 :: u64)" if "0 < k" "k \<le> 4" for k :: int
  proof
    assume "word_of_int (k * chans) = (0 :: u64)"
    then have "uint (word_of_int (k * chans) :: u64) = 0" by (simp only: uint_0_eq)
    then have "k * chans mod 2 ^ 64 = 0" by (simp only: uint_word_of_int) simp
    with bound [OF that] show False by auto
  qed
  show ?thesis
    using assms(1,2) nz [of 1] nz [of 2] nz [of 3] nz [of 4]
    by (auto simp: pwf_spa_lookup_audio_format_def pwf_audio_sample_formats_def
        pwf_audio_bytes_per_frame_def split: if_splits)
qed

lemma cpu_buffers_exclude_dmabuf: "SPA_DATA_DmaBuf \<notin> set (pod_data_types pwf_spa_build_cpu_buffers)"
  by (simp add: pwf_spa_build_cpu_buffers_def)

lemma dmabuf_buffers_only_dmabuf:
  "pod_data_types (pwf_spa_build_dmabuf_buffers n) = [SPA_DATA_DmaBuf]"
  by (simp add: pwf_spa_build_dmabuf_buffers_def Let_def)

end
