(* ===== verification/Pwf_Video_Enum.thy ===== *)
theory Pwf_Video_Enum
  imports Pwf_Client Pwf_Spa_Format Pwf_Dmabuf
begin

text \<open>
  \<^verbatim>\<open>src/pwf_video_enum.c\<close>: reading a camera's formats. One EnumFormat object of the server is seen
  through the SPA accessors the code calls on it: \<open>spa_format_parse\<close> (\<open>parsed\<close>, \<open>None\<close> when it
  fails) and, for each of three properties, \<open>spa_pod_find_prop\<close> with \<open>spa_pod_get_values\<close> (\<open>None\<close>
  when there is no such property).
\<close>

section \<open>What the SPA accessors answer\<close>

datatype spa_choice =
    SPA_CHOICE_None | SPA_CHOICE_Range | SPA_CHOICE_Step | SPA_CHOICE_Enum | SPA_CHOICE_other nat

datatype spa_values =
    Values_null
  | Values_Id "spa_video_format list"
  | Values_Rectangle "spa_rectangle list"
  | Values_Fraction "spa_fraction list"
  | Values_other nat

record enum_format_param =
  parsed :: "(spa_media_type \<times> spa_media_subtype) option"
  video_format_prop :: "(spa_values \<times> spa_choice) option"
  video_size_prop :: "(spa_values \<times> spa_choice) option"
  video_framerate_prop :: "(spa_values \<times> spa_choice) option"

section \<open>Inserting a frame rate\<close>

definition fps_cap :: nat where "fps_cap = 8"

definition info_zero :: pwf_video_format_info where
  "info_zero = \<lparr>pixel_format = [], width = 0, height = 0, width_max = 0, height_max = 0,
                fps = replicate fps_cap 0, n_fps = 0\<rparr>"

text \<open>\<^verbatim>\<open>while (pos < n_fps && fps[pos] > rate) pos++\<close>\<close>

function fps_position :: "int list \<Rightarrow> nat \<Rightarrow> int \<Rightarrow> nat \<Rightarrow> nat" where
  "fps_position rates n rate pos =
     (if pos < n \<and> rates ! pos > rate then fps_position rates n rate (pos + 1) else pos)"
  by pat_completeness auto
termination
  by (relation "measure (\<lambda>(rates, n, rate, pos). n - pos)") auto

declare fps_position.simps [simp del]

text \<open>\<^verbatim>\<open>for (i = last; i > pos; i--) fps[i] = fps[i - 1]\<close>\<close>

fun fps_shift :: "nat \<Rightarrow> nat \<Rightarrow> int list \<Rightarrow> int list" where
  "fps_shift pos 0 rates = rates"
| "fps_shift pos (Suc i) rates =
     (if Suc i > pos then fps_shift pos i (rates[Suc i := rates ! i]) else rates)"

definition pwf_video_insert_framerate :: "int \<Rightarrow> pwf_video_format_info \<Rightarrow> pwf_video_format_info" where
  "pwf_video_insert_framerate rate info =
     (if rate \<in> set (take (n_fps info) (fps info)) then info
      else
        let pos = fps_position (fps info) (n_fps info) rate 0 in
        if pos = fps_cap then info
        else
          let last_slot = (if n_fps info < fps_cap then n_fps info else fps_cap - 1);
              shifted = fps_shift pos last_slot (fps info)
          in info\<lparr>fps := shifted[pos := rate],
                  n_fps := (if n_fps info < fps_cap then n_fps info + 1 else n_fps info)\<rparr>)"

section \<open>Parsing one format\<close>

definition pwf_video_parse_pixel_format :: "enum_format_param \<Rightarrow> string option" where
  "pwf_video_parse_pixel_format param =
     (case parsed param of
        None \<Rightarrow> None
      | Some (media_type, media_subtype) \<Rightarrow>
          if media_type \<noteq> SPA_MEDIA_TYPE_video then None
          else if media_subtype = SPA_MEDIA_SUBTYPE_mjpg then Some ''MJPG''
          else if media_subtype = SPA_MEDIA_SUBTYPE_h264 then Some ''H264''
          else if media_subtype \<noteq> SPA_MEDIA_SUBTYPE_raw then None
          else
            (case video_format_prop param of
               Some (Values_Id (f # _), _) \<Rightarrow> pwf_spa_pixel_format_name_or_null f
             | _ \<Rightarrow> None))"

text \<open>\<open>(int)\<close> of a \<open>uint32_t\<close>.\<close>

definition int_of_u32 :: "u32 \<Rightarrow> int" where
  "int_of_u32 w = sint w"

definition pwf_video_parse_size ::
    "enum_format_param \<Rightarrow> pwf_video_format_info \<Rightarrow> pwf_video_format_info option" where
  "pwf_video_parse_size param info =
     (case video_size_prop param of
        Some (Values_Rectangle rects, choice) \<Rightarrow>
          if rects = [] then None
          else
            let ranged = (choice = SPA_CHOICE_Range \<or> choice = SPA_CHOICE_Step) \<and> length rects \<ge> 3;
                low = (if ranged then rects ! 1 else rects ! 0);
                high = (if ranged then rects ! 2 else rects ! 0)
            in if rect_width low = 0 \<or> rect_height low = 0 then None
               else Some (info\<lparr>width := int_of_u32 (rect_width low),
                               height := int_of_u32 (rect_height low),
                               width_max := int_of_u32 (rect_width high),
                               height_max := int_of_u32 (rect_height high)\<rparr>)
      | _ \<Rightarrow> None)"

text \<open>The body of the loop over the fractions.\<close>

definition insert_fraction :: "spa_fraction \<Rightarrow> pwf_video_format_info \<Rightarrow> pwf_video_format_info" where
  "insert_fraction frac info =
     (if denom frac = 0 then info
      else
        let rate = int_of_u32 (num frac div denom frac) in
        if rate > 0 then pwf_video_insert_framerate rate info else info)"

definition pwf_video_parse_framerates ::
    "enum_format_param \<Rightarrow> pwf_video_format_info \<Rightarrow> pwf_video_format_info" where
  "pwf_video_parse_framerates param info =
     (case video_framerate_prop param of
        Some (Values_Fraction fracs, choice) \<Rightarrow>
          let n_vals = length fracs;
              loop = (\<lambda>first last. fold (\<lambda>i. insert_fraction (fracs ! i)) [first..<last + 1] info)
          in if n_vals = 0 then info
             else (case choice of
                 SPA_CHOICE_None \<Rightarrow> loop 0 0
               | SPA_CHOICE_Enum \<Rightarrow> if n_vals < 2 then info else loop 1 (n_vals - 1)
               | SPA_CHOICE_Range \<Rightarrow> if n_vals < 3 then info else loop 1 2
               | SPA_CHOICE_Step \<Rightarrow> if n_vals < 3 then info else loop 1 2
               | SPA_CHOICE_other _ \<Rightarrow> info)
      | _ \<Rightarrow> info)"

section \<open>Collecting the formats\<close>

text \<open>The caller's array (\<open>None\<close> for NULL), its capacity and the true count.\<close>

record pwf_video_enum_ctx =
  ctx_out :: "pwf_video_format_info list option"
  ctx_out_len :: nat
  ctx_found :: nat

definition pwf_video_enum_on_param ::
    "spa_param_type \<Rightarrow> enum_format_param option \<Rightarrow> pwf_video_enum_ctx \<Rightarrow> pwf_video_enum_ctx" where
  "pwf_video_enum_on_param i param ctx =
     (if i \<noteq> SPA_PARAM_EnumFormat then ctx
      else case param of
          None \<Rightarrow> ctx
        | Some p \<Rightarrow>
            (case pwf_video_parse_pixel_format p of
               None \<Rightarrow> ctx
             | Some name \<Rightarrow>
                 (case pwf_video_parse_size p info_zero of
                    None \<Rightarrow> ctx
                  | Some sized \<Rightarrow>
                      let info = (pwf_video_parse_framerates p sized)\<lparr>pixel_format := c_snprintf 16 name\<rparr>;
                          out' = (case ctx_out ctx of
                                    Some xs \<Rightarrow> if ctx_found ctx < ctx_out_len ctx
                                               then Some (xs[ctx_found ctx := info]) else Some xs
                                  | None \<Rightarrow> None)
                      in ctx\<lparr>ctx_out := out', ctx_found := ctx_found ctx + 1\<rparr>)))"

text \<open>
  \<open>node\<close> is the proxy \<open>pw_registry_bind\<close> answers and \<open>params\<close> are the param events that arrive during
  the round trip; they touch nothing but the context, so their order among other events is
  immaterial. The result is the error, the count through \<open>found\<close> (the pointer may be NULL) and the
  array.
\<close>

definition pwf_pw_enum_video_formats ::
    "('e \<Rightarrow> 'a pwf_client_scheme \<Rightarrow> 'a pwf_client_scheme) \<Rightarrow> 'e sync_env \<Rightarrow> nat option \<Rightarrow>
     (spa_param_type \<times> enum_format_param option) list \<Rightarrow> u32 \<Rightarrow>
     pwf_video_format_info list option \<Rightarrow> nat \<Rightarrow> bool \<Rightarrow> 'a pwf_client_scheme \<Rightarrow>
     (pwf_error \<times> nat \<times> pwf_video_format_info list option) \<times> 'a pwf_client_scheme" where
  "pwf_pw_enum_video_formats dispatch env node params nid out out_len has_found c =
     (if \<not> has_found then ((PWF_ERR_INVALID_ARG, 0, out), c)
      else if \<not> core (conn c) \<or> \<not> bound (registry c) \<or> nid = 0 then ((PWF_ERR_INVALID_ARG, 0, out), c)
      else
        let ctx0 = \<lparr>ctx_out = out, ctx_out_len = (if out = None then 0 else out_len), ctx_found = 0\<rparr>;
            c1 = emit [Loop_lock] c
        in case node of
            None \<Rightarrow> ((PWF_ERR_CONNECT_FAILED, 0, out), emit [Loop_unlock, Log PWF_LOG_ERROR] c1)
          | Some proxy \<Rightarrow>
              let ctx = fold (\<lambda>(i, p). pwf_video_enum_on_param i p) params ctx0 in
              case pwf_pw_core_sync_locked dispatch env c1 of
                (res, c2) \<Rightarrow>
                  let c3 = emit [Proxy_destroy proxy, Loop_unlock] c2 in
                  if res < 0
                  then ((pwf_pw_error_from_sync res, 0, ctx_out ctx), emit [Log PWF_LOG_ERROR] c3)
                  else ((PWF_OK, ctx_found ctx, ctx_out ctx), c3))"

section \<open>The rates kept are the fastest\<close>

text \<open>The rates of an entry, and the invariant of its array.\<close>

definition rates :: "pwf_video_format_info \<Rightarrow> int list" where
  "rates info = take (n_fps info) (fps info)"

definition fps_ok :: "pwf_video_format_info \<Rightarrow> bool" where
  "fps_ok info \<longleftrightarrow> length (fps info) = fps_cap \<and> n_fps info \<le> fps_cap \<and>
     sorted_wrt (>) (rates info)"

text \<open>The fastest eight of a set of rates, fastest first.\<close>

definition fastest :: "int set \<Rightarrow> int list" where
  "fastest S = take fps_cap (rev (sorted_list_of_set S))"

lemma fps_ok_zero [simp]: "fps_ok info_zero"
  by (simp add: fps_ok_def info_zero_def rates_def)

lemma rates_zero [simp]: "rates info_zero = []"
  by (simp add: rates_def info_zero_def)

lemma fps_position_spec:
  assumes "pos \<le> n" and "n \<le> length xs"
    and "\<forall>j<pos. xs ! j > rate"
  shows "let p = fps_position xs n rate pos in
    pos \<le> p \<and> p \<le> n \<and> (\<forall>j<p. xs ! j > rate) \<and> (p < n \<longrightarrow> xs ! p \<le> rate)"
  using assms
proof (induction xs n rate pos rule: fps_position.induct)
  case (1 xs n rate pos)
  show ?case
  proof (cases "pos < n \<and> xs ! pos > rate")
    case True
    with "1.prems" have "\<forall>j<pos + 1. xs ! j > rate" by (auto simp: less_Suc_eq)
    with True "1.IH" "1.prems" show ?thesis
      by (subst (1) fps_position.simps) (auto simp: Let_def)
  next
    case False
    with "1.prems" show ?thesis by (subst (1) fps_position.simps) (auto simp: Let_def)
  qed
qed

lemma length_fps_shift [simp]: "length (fps_shift pos i xs) = length xs"
  by (induction pos i xs rule: fps_shift.induct) auto

text \<open>After the shift the slots above \<open>pos\<close> up to \<open>i\<close> hold their lower neighbours.\<close>

lemma fps_shift_nth:
  assumes "i < length xs" and "k < length xs"
  shows "fps_shift pos i xs ! k = (if pos < k \<and> k \<le> i then xs ! (k - 1) else xs ! k)"
  using assms
proof (induction pos i xs arbitrary: k rule: fps_shift.induct)
  case (1 pos rates)
  then show ?case by auto
next
  case (2 pos i rates)
  consider "k = Suc i" | "k \<noteq> Suc i" by blast
  then show ?case
    using 2 by cases (auto simp: nth_list_update le_Suc_eq)
qed

lemma fps_shift_insert:
  assumes "pos \<le> i" and "i < length xs"
  shows "(fps_shift pos i xs)[pos := x] = take pos xs @ x # take (i - pos) (drop pos xs) @ drop (i + 1) xs"
proof (rule nth_equalityI)
  show len: "length ((fps_shift pos i xs)[pos := x]) = length (take pos xs @ x # take (i - pos) (drop pos xs) @ drop (i + 1) xs)"
    using assms by simp
  fix k assume "k < length ((fps_shift pos i xs)[pos := x])"
  then have k: "k < length xs" by simp
  show "(fps_shift pos i xs)[pos := x] ! k = (take pos xs @ x # take (i - pos) (drop pos xs) @ drop (i + 1) xs) ! k"
    using assms k fps_shift_nth [OF assms(2) k, of pos]
    by (auto simp: nth_list_update nth_append nth_Cons' min_def)
qed

text \<open>Insertion into a descending list without repetitions.\<close>

fun insert_desc :: "int \<Rightarrow> int list \<Rightarrow> int list" where
  "insert_desc r [] = [r]"
| "insert_desc r (x # xs) =
     (if r = x then x # xs else if x > r then x # insert_desc r xs else r # x # xs)"

lemma insert_desc_at:
  assumes "p \<le> length xs" and "\<forall>j<p. xs ! j > r" and "p < length xs \<longrightarrow> xs ! p < r"
  shows "insert_desc r xs = take p xs @ r # drop p xs"
  using assms
proof (induction xs arbitrary: p)
  case Nil
  then show ?case by simp
next
  case (Cons x xs)
  show ?case
  proof (cases p)
    case 0
    with Cons.prems show ?thesis by auto
  next
    case (Suc q)
    from Cons.prems(2) Suc have "x > r" by (metis nth_Cons_0 zero_less_Suc)
    moreover from Cons.prems(2) Suc have "\<forall>j<q. xs ! j > r" by auto
    ultimately show ?thesis using Cons.IH [of q] Cons.prems(1,3) Suc by auto
  qed
qed

lemma set_insert_desc [simp]: "set (insert_desc r xs) = insert r (set xs)"
  by (induction xs) auto

lemma sorted_insert_desc: "sorted_wrt (>) xs \<Longrightarrow> sorted_wrt (>) (insert_desc r xs)"
  by (induction xs) auto

lemma insert_desc_mem: "sorted_wrt (>) xs \<Longrightarrow> r \<in> set xs \<Longrightarrow> insert_desc r xs = xs"
  by (induction xs) auto

lemma take_insert_desc: "take n (insert_desc r (take n xs)) = take n (insert_desc r xs)"
proof (induction xs arbitrary: n)
  case Nil
  then show ?case by simp
next
  case (Cons x xs)
  then show ?case by (cases n) (auto simp: take_Cons')
qed

text \<open>The array operation is the list operation cut to the capacity.\<close>

lemma insert_framerate_rates:
  assumes ok: "fps_ok info"
  shows "rates (pwf_video_insert_framerate r info) = take fps_cap (insert_desc r (rates info))"
    and "fps_ok (pwf_video_insert_framerate r info)"
proof -
  let ?n = "n_fps info" and ?xs = "fps info"
  from ok have len: "length ?xs = fps_cap" and n: "?n \<le> fps_cap"
    and sorted: "sorted_wrt (>) (rates info)" by (auto simp: fps_ok_def)
  have eq: "rates (pwf_video_insert_framerate r info) = take fps_cap (insert_desc r (rates info)) \<and>
      length (fps (pwf_video_insert_framerate r info)) = fps_cap \<and>
      n_fps (pwf_video_insert_framerate r info) \<le> fps_cap"
  proof (cases "r \<in> set (rates info)")
    case True
    with sorted have "insert_desc r (rates info) = rates info" by (rule insert_desc_mem)
    with True len n show ?thesis by (simp add: pwf_video_insert_framerate_def rates_def)
  next
    case new: False
    define p where "p = fps_position ?xs ?n r 0"
    have p: "p \<le> ?n" "\<forall>j<p. ?xs ! j > r" "p < ?n \<Longrightarrow> ?xs ! p \<le> r"
      using fps_position_spec [of 0 ?n ?xs r] len n by (auto simp: p_def Let_def)
    have "p < ?n \<Longrightarrow> ?xs ! p \<noteq> r"
      using new len n by (auto simp: rates_def in_set_conv_nth)
    with p have lt: "p < ?n \<Longrightarrow> ?xs ! p < r" by (simp add: less_le)
    have ins: "insert_desc r (rates info) = take p ?xs @ r # drop p (take ?n ?xs)"
      using insert_desc_at [of p "rates info" r] p lt len n by (auto simp: rates_def min_def)
    show ?thesis
    proof (cases "p = fps_cap")
      case True
      with p n have full: "?n = fps_cap" by simp
      then have "fps_position ?xs fps_cap r 0 = fps_cap" using True p_def by simp
      with full True new len n ins show ?thesis
        by (simp add: pwf_video_insert_framerate_def rates_def Let_def)
    next
      case False
      with p n have pc: "p < fps_cap" by simp
      let ?l = "if ?n < fps_cap then ?n else fps_cap - 1"
      have l: "p \<le> ?l" "?l < length ?xs" using p n pc len by auto
      have "(fps_shift p ?l ?xs)[p := r] = take p ?xs @ r # take (?l - p) (drop p ?xs) @ drop (?l + 1) ?xs"
        by (rule fps_shift_insert [OF l])
      moreover have "fps_cap - Suc p \<le> ?n - p \<Longrightarrow> ?n < fps_cap \<Longrightarrow> ?n - p = fps_cap - Suc p"
        using p(1) by arith
      ultimately show ?thesis using new False len n l p(1) ins pc
        by (auto simp: pwf_video_insert_framerate_def rates_def p_def [symmetric] Let_def
            take_Cons' drop_take min_def)
    qed
  qed
  then show "rates (pwf_video_insert_framerate r info) = take fps_cap (insert_desc r (rates info))" by simp
  from eq sorted show "fps_ok (pwf_video_insert_framerate r info)"
    by (simp add: fps_ok_def sorted_insert_desc sorted_wrt_take)
qed

lemma fold_insert_framerate:
  assumes "fps_ok info"
  shows "fps_ok (fold pwf_video_insert_framerate rs info)"
    and "rates (fold pwf_video_insert_framerate rs info) = take fps_cap (fold insert_desc rs (rates info))"
  using assms
proof (induction rs rule: rev_induct)
  case Nil
  { case 1 then show ?case by simp }
  { case 2 then show ?case by (simp add: fps_ok_def rates_def) }
next
  case (snoc r rs)
  { case 1 with snoc show ?case by (simp add: insert_framerate_rates) }
  { case 2 with snoc show ?case by (simp add: insert_framerate_rates take_insert_desc) }
qed

text \<open>A descending list is the reverse of its set's sorted list.\<close>

lemma sorted_desc_unique:
  assumes "sorted_wrt (>) xs"
  shows "xs = rev (sorted_list_of_set (set xs))"
proof -
  have "sorted_wrt (<) (rev xs)" using assms by (simp add: sorted_wrt_rev)
  then have "rev xs = sorted_list_of_set (set (rev xs))"
    by (metis strict_sorted_equal strict_sorted_list_of_set finite_set set_sorted_list_of_set)
  then show ?thesis by (metis rev_rev_ident set_rev)
qed

lemma fold_insert_desc:
  "sorted_wrt (>) xs \<Longrightarrow> sorted_wrt (>) (fold insert_desc rs xs) \<and>
     set (fold insert_desc rs xs) = set xs \<union> set rs"
  by (induction rs arbitrary: xs) (auto simp: sorted_insert_desc)

lemma fold_insert_framerate_fastest:
  "rates (fold pwf_video_insert_framerate rs info_zero) = fastest (set rs)"
proof -
  have "fold insert_desc rs [] = rev (sorted_list_of_set (set rs))"
    using fold_insert_desc [of "[]" rs] sorted_desc_unique [of "fold insert_desc rs []"] by simp
  then show ?thesis by (simp add: fold_insert_framerate fastest_def)
qed

section \<open>The entries an enumeration reports\<close>

text \<open>The rates a list of fractions contributes: whole, positive ones.\<close>

definition fraction_rates :: "spa_fraction list \<Rightarrow> int list" where
  "fraction_rates fracs =
     filter (\<lambda>r. r > 0) (map (\<lambda>f. int_of_u32 (num f div denom f)) (filter (\<lambda>f. denom f \<noteq> 0) fracs))"

lemma fold_insert_fraction:
  "fold insert_fraction fracs info = fold pwf_video_insert_framerate (fraction_rates fracs) info"
  by (induction fracs arbitrary: info) (auto simp: insert_fraction_def fraction_rates_def Let_def)

lemma fold_by_index:
  assumes "a \<le> b" and "b \<le> length xs"
  shows "fold (\<lambda>i. f (xs ! i)) [a..<b] s = fold f (take (b - a) (drop a xs)) s"
proof -
  have "map ((!) xs) [a..<b] = take (b - a) (drop a xs)"
    using assms by (intro nth_equalityI) auto
  then show ?thesis by (metis comp_def fold_map fold_cong)
qed

text \<open>The fractions of a property that name a rate.\<close>

definition offered_fractions :: "(spa_values \<times> spa_choice) option \<Rightarrow> spa_fraction list" where
  "offered_fractions p =
     (case p of
        Some (Values_Fraction fracs, choice) \<Rightarrow>
          (case choice of
             SPA_CHOICE_None \<Rightarrow> take 1 fracs
           | SPA_CHOICE_Enum \<Rightarrow> drop 1 fracs
           | SPA_CHOICE_Range \<Rightarrow> if length fracs < 3 then [] else take 2 (drop 1 fracs)
           | SPA_CHOICE_Step \<Rightarrow> if length fracs < 3 then [] else take 2 (drop 1 fracs)
           | SPA_CHOICE_other _ \<Rightarrow> [])
      | _ \<Rightarrow> [])"

lemma parse_framerates_fold:
  "pwf_video_parse_framerates p info =
     fold pwf_video_insert_framerate (fraction_rates (offered_fractions (video_framerate_prop p))) info"
proof -
  have "pwf_video_parse_framerates p info = fold insert_fraction (offered_fractions (video_framerate_prop p)) info"
    by (auto simp: pwf_video_parse_framerates_def offered_fractions_def fold_by_index Let_def
        Suc_le_eq numeral_2_eq_2 numeral_3_eq_3 neq_Nil_conv
        simp del: upt_Suc
        split: option.split spa_values.split spa_choice.split prod.split)
  then show ?thesis by (simp add: fold_insert_fraction)
qed

lemma insert_framerate_frame [simp]:
  "pixel_format (pwf_video_insert_framerate r info) = pixel_format info"
  "width (pwf_video_insert_framerate r info) = width info"
  "height (pwf_video_insert_framerate r info) = height info"
  "width_max (pwf_video_insert_framerate r info) = width_max info"
  "height_max (pwf_video_insert_framerate r info) = height_max info"
  by (simp_all add: pwf_video_insert_framerate_def Let_def)

lemma fold_insert_framerate_frame [simp]:
  "pixel_format (fold pwf_video_insert_framerate rs info) = pixel_format info"
  "width (fold pwf_video_insert_framerate rs info) = width info"
  "height (fold pwf_video_insert_framerate rs info) = height info"
  "width_max (fold pwf_video_insert_framerate rs info) = width_max info"
  "height_max (fold pwf_video_insert_framerate rs info) = height_max info"
  by (induction rs arbitrary: info) auto

text \<open>What one param event contributes: its entry, if it is one this library can take.\<close>

definition video_entry :: "spa_param_type \<times> enum_format_param option \<Rightarrow> pwf_video_format_info list" where
  "video_entry ev =
     (case ev of
        (SPA_PARAM_EnumFormat, Some p) \<Rightarrow>
          (case (pwf_video_parse_pixel_format p, pwf_video_parse_size p info_zero) of
             (Some name, Some sized) \<Rightarrow>
               [(pwf_video_parse_framerates p sized)\<lparr>pixel_format := c_snprintf 16 name\<rparr>]
           | _ \<Rightarrow> [])
      | _ \<Rightarrow> [])"

text \<open>Recording an entry: the next slot if the caller's array has one, and the count.\<close>

definition record_entry :: "pwf_video_format_info \<Rightarrow> pwf_video_enum_ctx \<Rightarrow> pwf_video_enum_ctx" where
  "record_entry e ctx =
     ctx\<lparr>ctx_out := map_option (\<lambda>xs. if ctx_found ctx < ctx_out_len ctx then xs[ctx_found ctx := e] else xs)
                      (ctx_out ctx),
         ctx_found := ctx_found ctx + 1\<rparr>"

lemma on_param_record: "pwf_video_enum_on_param i p ctx = fold record_entry (video_entry (i, p)) ctx"
  by (auto simp: pwf_video_enum_on_param_def video_entry_def record_entry_def Let_def
      split: option.splits spa_param_type.splits)

lemma fold_on_param_record:
  "fold (\<lambda>(i, p). pwf_video_enum_on_param i p) params ctx =
     fold record_entry (concat (map video_entry params)) ctx"
  by (induction params arbitrary: ctx) (auto simp: on_param_record)

lemma fold_record_found [simp]:
  "ctx_found (fold record_entry es ctx) = ctx_found ctx + length es"
  by (induction es arbitrary: ctx) (auto simp: record_entry_def)

lemma fold_record_null: "ctx_out ctx = None \<Longrightarrow> ctx_out (fold record_entry es ctx) = None"
  by (induction es arbitrary: ctx) (auto simp: record_entry_def)

lemma fold_record_out:
  assumes "ctx_out ctx = Some xs" and "length xs = ctx_out_len ctx"
  shows "ctx_out (fold record_entry es ctx) =
    Some (take (length xs) (take (ctx_found ctx) xs @ es) @ drop (ctx_found ctx + length es) xs)"
  using assms
proof (induction es arbitrary: ctx xs)
  case Nil
  then show ?case by (simp add: min_def)
next
  case (Cons e es)
  show ?case
  proof (cases "ctx_found ctx < length xs")
    case True
    let ?xs = "xs[ctx_found ctx := e]"
    have "ctx_out (record_entry e ctx) = Some ?xs" using True Cons.prems by (simp add: record_entry_def)
    from Cons.IH [OF this] Cons.prems True show ?thesis
      by (simp add: record_entry_def take_Suc_conv_app_nth)
  next
    case False
    have "ctx_out (record_entry e ctx) = Some xs" using False Cons.prems by (simp add: record_entry_def)
    from Cons.IH [OF this] Cons.prems False show ?thesis by (simp add: record_entry_def)
  qed
qed

end
