(* ===== verification/Pwf_Core_Properties.thy ===== *)
theory Pwf_Core_Properties
  imports Pwf_Log Pwf_Rate_Limit Pwf_Dmabuf Pwf_Video_Enum Pwf_Client
begin

text \<open>
  What the shared parts promise: the registry cache, the library's reference count, the connection,
  the format tables, the DMABUF plane copy, the rate limiter and the log.
\<close>

section \<open>The registry\<close>

lemma dispatch_mirrors:
  "registry_keyed reg \<Longrightarrow> events_fresh evs (graph_of reg) \<Longrightarrow>
     graph_of (fold registry_dispatch evs reg) = fold graph_step evs (graph_of reg) \<and>
     registry_keyed (fold registry_dispatch evs reg)"
proof (induction evs arbitrary: reg)
  case (Cons ev evs)
  then show ?case using registry_dispatch_mirror [of reg ev] Cons.IH [of "registry_dispatch ev reg"] by simp
qed simp

text \<open>C9: refinement. Whatever the server announces, in any order and number of globals added and
  removed, the cached arrays hold exactly the graph's nodes and ports, one entry per id. Ids in use
  are not announced again and the allocations succeed.\<close>

theorem registry_mirrors_graph:
  assumes "events_fresh evs (graph_of registry_zero)"
  shows "graph_of (fold registry_dispatch evs registry_zero) = fold graph_step evs (graph_of registry_zero) \<and>
    registry_keyed (fold registry_dispatch evs registry_zero)"
  using dispatch_mirrors [of registry_zero evs] assms
  by (simp_all add: registry_keyed_def keyed_def registry_zero_def)

definition example_events :: "registry_event list" where
  "example_events =
     [Global all_allocs 30 ''PipeWire:Interface:Node'' (Some [''node.name'' \<mapsto> ''mic'']),
      Global all_allocs 31 ''PipeWire:Interface:Port''
        (Some [''port.name'' \<mapsto> ''out_0'', ''node.id'' \<mapsto> ''30'']),
      Global_remove 30,
      Global all_allocs 30 ''PipeWire:Interface:Node'' (Some [''node.name'' \<mapsto> ''cam''])]"

theorem registry_mirrors_graph_witness:
  "graph_of (fold registry_dispatch example_events registry_zero) =
     fold graph_step example_events (graph_of registry_zero)"
proof -
  have "events_fresh example_events (graph_of registry_zero)"
    by (simp add: example_events_def graph_of_def registry_zero_def cache_def graph_step_def
        node_of_dict_def port_of_dict_def)
  then show ?thesis using registry_mirrors_graph by blast
qed

text \<open>C29: equivalence. Listing a node's ports into an array of \<open>max_out\<close> entries answers how many
  the node has on that side and fills the array with the first \<open>max_out\<close> of them as a stable sort by
  the port's number leaves them: ports with one number keep the order of their announcement.\<close>

theorem list_ports_stable_sort:
  "pwf_pw_registry_list_ports reg nid dir True max_out =
     (length (node_ports reg nid dir), Some (sort_key ordinal (take max_out (node_ports reg nid dir))))"
  by (rule list_ports_eq)

section \<open>The library and the connection\<close>

datatype library_user = Creates | Gives_up

fun library_run :: "library_user list \<Rightarrow> pw_global \<Rightarrow> pw_global" where
  "library_run [] g = g"
| "library_run (Creates # us) g = library_run us (pwf_pw_global_init g)"
| "library_run (Gives_up # us) g = library_run us (pwf_pw_global_deinit g)"

text \<open>No one gives up a reference that was not taken.\<close>

fun paired :: "nat \<Rightarrow> library_user list \<Rightarrow> bool" where
  "paired n [] = True"
| "paired n (Creates # us) = paired (n + 1) us"
| "paired n (Gives_up # us) = (0 < n \<and> paired (n - 1) us)"

lemma library_run_ok:
  "pw_global_ok g \<Longrightarrow> paired (nat (g_pw_init_count g)) us \<Longrightarrow> pw_global_ok (library_run us g)"
proof (induction us arbitrary: g)
  case (Cons u us)
  have pos: "0 \<le> g_pw_init_count g" using Cons.prems by (simp add: pw_global_ok_def)
  show ?case
  proof (cases u)
    case Creates
    have "g_pw_init_count (pwf_pw_global_init g) = g_pw_init_count g + 1"
      by (simp add: pwf_pw_global_init_def Let_def)
    then show ?thesis using Creates Cons pos by (simp add: pw_global_ok_init nat_add_distrib)
  next
    case Gives_up
    have "g_pw_init_count (pwf_pw_global_deinit g) = g_pw_init_count g - 1"
      by (simp add: pwf_pw_global_deinit_def Let_def)
    then show ?thesis using Gives_up Cons pos by (simp add: pw_global_ok_deinit nat_diff_distrib)
  qed
qed simp

text \<open>However streams and filters come and go, \<open>pw_init\<close> and \<open>pw_deinit\<close> are called in
  turn, starting with \<open>pw_init\<close>, and the library is up exactly while the count is positive.\<close>

theorem library_calls_alternate:
  assumes "paired 0 us"
  shows "alternating False (lib_calls (library_run us pw_global_start)) \<and>
    (lib_up (lib_calls (library_run us pw_global_start)) \<longleftrightarrow>
       0 < g_pw_init_count (library_run us pw_global_start))"
  using library_run_ok [OF pw_global_ok_start, of us] assms
  by (simp add: pw_global_ok_def pw_global_start_def)

theorem library_calls_alternate_witness:
  "alternating False (lib_calls (library_run [Creates, Creates, Gives_up, Gives_up, Creates] pw_global_start))"
  using library_calls_alternate [of "[Creates, Creates, Gives_up, Gives_up, Creates]"] by simp

text \<open>Connecting never answers a positive number; zero means that the loop, the context
  and the core exist and that the core answered in time; and giving the connection up after any
  outcome leaves no pointer behind, so that giving it up again does nothing.\<close>

theorem connect_outcome:
  assumes run: "pwf_pw_core_connect env c = (res, k, cs)"
  shows "res \<le> 0 \<and> lock_depth cs = 0 \<and>
    (res = 0 \<longrightarrow> loop k = env_loop env \<and> loop k \<noteq> None \<and> pw_context k \<and> core k \<and> sync_done k) \<and>
    pwf_pw_core_teardown (fst (pwf_pw_core_teardown k)) = (fst (pwf_pw_core_teardown k), [])"
proof -
  let ?c3 = "c\<lparr>loop := env_loop env, pw_context := True, core := True\<rparr>"
  let ?w = "core_wait (-1) (env_seq env) (env_wakes env) (env_late env) ?c3"
  have w: "connect_result ?w \<le> 0" "connect_result ?w = 0 \<Longrightarrow> sync_done ?w"
    using core_wait_result [of "-1" "env_seq env" "env_wakes env" "env_late env" ?c3]
      core_wait_success [of "-1" "env_seq env" "env_wakes env" "env_late env" ?c3] by auto
  then show ?thesis using run
    by (auto simp: pwf_pw_core_connect_def Let_def teardown_idempotent split: if_splits)
qed

definition answering_env :: connect_env where
  "answering_env = \<lparr>env_loop = Some 1, env_loop_start = 0, env_context = True, env_core = True, env_seq = 7,
     env_wakes = [[Core_done 0 3], [Core_done 0 7]], env_late = []\<rparr>"

theorem connect_outcome_witness:
  "sync_done (fst (snd (pwf_pw_core_connect answering_env conn_zero)))"
proof -
  obtain res k cs where r: "pwf_pw_core_connect answering_env conn_zero = (res, k, cs)" by (metis prod_cases3)
  moreover have "fst (pwf_pw_core_connect answering_env conn_zero) = 0"
    by (simp add: pwf_pw_core_connect_def answering_env_def core_wait_def Let_def pwf_pw_core_on_done_def PW_ID_CORE_def)
  ultimately show ?thesis using connect_outcome [OF r] by simp
qed

text \<open>No error, and the wait's sequence number still the one it was armed with.\<close>

definition core_calm :: "int \<Rightarrow> pwf_pw_core_conn \<Rightarrow> bool" where
  "core_calm seq c \<longleftrightarrow> connect_result c = 0 \<and> pending_seq c = seq"

definition is_core_error :: "core_event \<Rightarrow> bool" where
  "is_core_error e = (case e of Core_error _ \<Rightarrow> True | Core_done _ _ \<Rightarrow> False)"

lemma core_calm_step: "\<not> is_core_error e \<Longrightarrow> core_calm seq c \<Longrightarrow> core_calm seq (core_dispatch e c)"
  by (cases e) (auto simp: is_core_error_def core_calm_def pwf_pw_core_on_done_def)

lemma core_calm_fold: "\<forall>e\<in>set evs. \<not> is_core_error e \<Longrightarrow> core_calm seq c \<Longrightarrow> core_calm seq (fold core_dispatch evs c)"
  by (induction evs arbitrary: c) (auto simp: core_calm_step)

lemma core_answer:
  assumes "Core_done PW_ID_CORE seq \<in> set evs" and "\<forall>e\<in>set evs. \<not> is_core_error e" and "core_calm seq c"
  shows "sync_done (fold core_dispatch evs c) \<and> core_calm seq (fold core_dispatch evs c)"
proof -
  have keep: "sync_done (fold core_dispatch es d)" if "sync_done d" for es d
    using that
  proof (induction es arbitrary: d)
    case (Cons e es)
    then show ?case by (cases e) (auto simp: pwf_pw_core_on_done_def pwf_pw_core_on_error_def)
  qed simp
  obtain es fs where evs: "evs = es @ Core_done PW_ID_CORE seq # fs" using assms(1) by (auto simp: in_set_conv_decomp)
  have "core_calm seq (fold core_dispatch es c)" by (rule core_calm_fold) (use assms evs in auto)
  then have "sync_done (core_dispatch (Core_done PW_ID_CORE seq) (fold core_dispatch es c))"
    by (simp add: core_calm_def pwf_pw_core_on_done_def)
  then have "sync_done (fold core_dispatch evs c)" by (simp add: evs keep)
  then show ?thesis using core_calm_fold [OF assms(2,3)] by blast
qed

text \<open>C27: liveness. Connecting succeeds whenever the server can be reached: if the loop starts, the
  context and the core exist, and some wake-up before the deadline brings the answer to the sync
  that was sent, with no error reported up to it, the call returns 0, whatever other events, answers
  to other syncs included, come before, with or after it.\<close>

theorem connect_answered:
  assumes "env_loop env \<noteq> None" and "0 \<le> env_loop_start env" and "env_context env" and "env_core env"
    and "env_wakes env = ws @ w # rest" and "Core_done PW_ID_CORE (env_seq env) \<in> set w"
    and "\<forall>e\<in>set (concat (ws @ [w])). \<not> is_core_error e"
  shows "fst (pwf_pw_core_connect env c) = 0"
proof -
  let ?c = "c\<lparr>loop := env_loop env, pw_context := True, core := True, pending_seq := env_seq env,
    sync_done := False, connect_result := 0\<rparr>"
  obtain s' where s: "loop_wait sync_done core_dispatch (ws @ w # rest) (env_late env) ?c = (True, s')" "core_calm (env_seq env) s'"
    using loop_wait_answered [where calm = "core_calm (env_seq env)" and s = ?c and ws = ws and evs = w and rest = rest
        and late = "env_late env" and ready = sync_done and dispatch = core_dispatch and Q = "core_calm (env_seq env)"]
      core_calm_step core_answer [OF assms(6)] assms(7) by (force simp: core_calm_def)
  then have "connect_result (core_wait (-1) (env_seq env) (env_wakes env) (env_late env)
      (c\<lparr>loop := env_loop env, pw_context := True, core := True\<rparr>)) = 0"
    using assms(5) by (simp add: core_wait_def core_calm_def)
  then show ?thesis using assms(1-4) by (simp add: pwf_pw_core_connect_def Let_def)
qed

theorem connect_answered_witness: "fst (pwf_pw_core_connect answering_env conn_zero) = 0"
  using connect_answered [of answering_env "[[Core_done 0 3]]" "[Core_done 0 7]" "[]" conn_zero]
  by (simp add: answering_env_def PW_ID_CORE_def is_core_error_def)

section \<open>Formats\<close>

text \<open>C31: functional. Whatever frame rates a node offers, as a single value, a list of values or a
  range, and in any order, a resolution's entry holds the eight fastest of them, each once, fastest
  first; rates that are not positive and fractions over zero are left out.\<close>

theorem framerates_fastest_first:
  "rates (pwf_video_parse_framerates p info_zero) =
     fastest (set (fraction_rates (offered_fractions (video_framerate_prop p))))"
  by (simp add: parse_framerates_fold fold_insert_framerate_fastest)

text \<open>C32: functional. Enumerating a node's formats: the count is of all the formats found, whether or
  not they fit, and the array is filled from the front with the first \<open>out_len\<close> of them; its rest is
  untouched.\<close>

theorem enumerated_formats:
  assumes "length out = out_len"
  shows "fold (\<lambda>(i, p). pwf_video_enum_on_param i p) params
      \<lparr>ctx_out = Some out, ctx_out_len = out_len, ctx_found = 0\<rparr> =
    (let found = concat (map video_entry params)
     in \<lparr>ctx_out = Some (take out_len found @ drop (length found) out), ctx_out_len = out_len,
         ctx_found = length found\<rparr>)"
proof -
  let ?ctx = "\<lparr>ctx_out = Some out, ctx_out_len = out_len, ctx_found = 0\<rparr>"
  let ?es = "concat (map video_entry params)"
  have len: "ctx_out_len (fold record_entry es ctx) = ctx_out_len ctx" for es ctx
    by (induction es arbitrary: ctx) (auto simp: record_entry_def)
  have "ctx_out (fold record_entry ?es ?ctx) = Some (take (length out) ?es @ drop (length ?es) out)"
    using fold_record_out [of ?ctx out ?es] assms by simp
  then show ?thesis using assms len [of ?es ?ctx]
    by (simp add: fold_on_param_record Let_def)
qed

definition one_video_param :: enum_format_param where
  "one_video_param = \<lparr>parsed = Some (SPA_MEDIA_TYPE_video, SPA_MEDIA_SUBTYPE_mjpg), video_format_prop = None,
     video_size_prop = Some (Values_Rectangle [\<lparr>rect_width = 640, rect_height = 480\<rparr>], SPA_CHOICE_None),
     video_framerate_prop = Some (Values_Fraction [\<lparr>num = 30, denom = 1\<rparr>], SPA_CHOICE_None)\<rparr>"

theorem enumerated_formats_witness:
  "ctx_found (fold (\<lambda>(i, p). pwf_video_enum_on_param i p) [(SPA_PARAM_EnumFormat, Some one_video_param)]
      \<lparr>ctx_out = Some [info_zero], ctx_out_len = 1, ctx_found = 0\<rparr>) = 1"
  using enumerated_formats [of "[info_zero]" 1 "[(SPA_PARAM_EnumFormat, Some one_video_param)]"]
  by (simp add: Let_def video_entry_def one_video_param_def pwf_video_parse_pixel_format_def pwf_video_parse_size_def)

text \<open>Looking up a pixel format by its name and naming the answer gives the name back;
  naming a raw format and looking the name up gives the format back.\<close>

theorem pixel_format_round_trip:
  "(pwf_spa_lookup_pixel_format name \<noteq> SPA_VIDEO_FORMAT_UNKNOWN \<longrightarrow>
      pwf_spa_pixel_format_name (pwf_spa_lookup_pixel_format name) = name) \<and>
   (pwf_spa_pixel_format_name_or_null f = Some named \<longrightarrow> f \<noteq> SPA_VIDEO_FORMAT_ENCODED \<longrightarrow>
      pwf_spa_lookup_pixel_format named = f)"
  using pixel_format_name_of_lookup [of name] pixel_format_lookup_of_name [of f named]
  by (simp add: pwf_spa_pixel_format_name_def)

theorem pixel_format_round_trip_witness:
  "pwf_spa_pixel_format_name (pwf_spa_lookup_pixel_format ''NV12'') = ''NV12'' \<and>
   pwf_spa_lookup_pixel_format ''YUYV'' = SPA_VIDEO_FORMAT_YUY2"
  using pixel_format_round_trip [of "''NV12''" SPA_VIDEO_FORMAT_YUY2 "''YUYV''"]
  by (simp add: pwf_spa_lookup_pixel_format_def pwf_spa_pixel_format_name_or_null_def pwf_pixel_formats_def)

section \<open>DMABUF planes\<close>

text \<open>The planes copied are the buffer's DMABUF data, in order; as many as fit are
  written, the rest of the array is untouched, and the count is of all of them.\<close>

theorem extracted_planes:
  assumes "length planes = planes_len"
  shows "pwf_dmabuf_extract_planes (Some buf) (Some planes) planes_len =
    (length (dmabuf_planes buf),
     Some (take planes_len (dmabuf_planes buf) @ drop (length (dmabuf_planes buf)) planes))"
  using extract_planes_loop_array [OF assms, of 0 "datas buf"]
    extract_planes_loop_count [of "datas buf" "Some planes" planes_len 0]
  by (simp add: pwf_dmabuf_extract_planes_def dmabuf_planes_def Let_def prod_eq_iff)

definition plane_data :: spa_data where
  "plane_data = \<lparr>d_type = SPA_DATA_DmaBuf, d_fd = 5, mapoffset = 0, maxsize = 4096, d_data = None, chunk = None\<rparr>"

theorem extracted_planes_witness:
  "fst (pwf_dmabuf_extract_planes
     (Some \<lparr>datas = [plane_data, plane_data], header_pts = None\<rparr>) (Some [plane_of_data plane_data]) 1) = 2"
  using extracted_planes [of "[plane_of_data plane_data]" 1 "\<lparr>datas = [plane_data, plane_data], header_pts = None\<rparr>"]
  by (simp add: dmabuf_planes_def plane_data_def)

section \<open>The rate limiter and the log\<close>



text \<open>A message reaches the callback set last, exactly when its level passes the
  threshold, with the file's last path component, at most 511 characters of its text and the
  caller's pointer.\<close>

theorem log_reaches_callback:
  "pwf_log_emit level file line formatted (pwf_log_set_callback (Some cb) u (pwf_log_set_level threshold g)) =
     (if level \<le> threshold
      then Some (To_callback cb level (pwf_log_basename file) line (take 511 formatted) u)
      else None)"
  by (simp add: pwf_log_emit_to_callback) (simp add: pwf_log_set_level_def)

end
