(* ===== verification/Pwf_Owner.thy ===== *)
theory Pwf_Owner
  imports Pwf_Client
begin

text \<open>
  What a stream and a filter do alike: they own a registry whose listener calls them back, they name
  the two ends of a link to the server as decimal strings, and they refuse a call made from inside
  their own callbacks.
\<close>

section \<open>The registry's callbacks\<close>

datatype registry_notice = No_notice | Port_added u32 | Node_removed u32

text \<open>The listener's work on the cache, and the owner's callback it ends in, if any.\<close>

definition registry_notify :: "registry_event \<Rightarrow> pwf_pw_registry \<Rightarrow> pwf_pw_registry \<times> registry_notice" where
  "registry_notify ev reg =
     (case ev of
        Global al i type props \<Rightarrow>
          (case pwf_pw_registry_on_global al i type props reg of
             (reg', Some nid) \<Rightarrow> (reg', Port_added nid) | (reg', None) \<Rightarrow> (reg', No_notice))
      | Global_remove i \<Rightarrow>
          (case pwf_pw_registry_on_global_remove i reg of
             (reg', Some nid) \<Rightarrow> (reg', Node_removed nid) | (reg', None) \<Rightarrow> (reg', No_notice)))"

lemma registry_notify_cache: "fst (registry_notify ev reg) = registry_dispatch ev reg"
  by (auto simp: registry_notify_def registry_dispatch_def split: registry_event.splits option.splits prod.splits)

lemma add_node_frame [simp]:
  "bound (pwf_pw_registry_add_node al i props reg) = bound reg"
  "node_removed_cb (pwf_pw_registry_add_node al i props reg) = node_removed_cb reg"
  "port_added_cb (pwf_pw_registry_add_node al i props reg) = port_added_cb reg"
  by (simp_all add: pwf_pw_registry_add_node_def split: option.splits)

lemma add_port_frame [simp]:
  "bound (fst (pwf_pw_registry_add_port al i props reg)) = bound reg"
  "node_removed_cb (fst (pwf_pw_registry_add_port al i props reg)) = node_removed_cb reg"
  "port_added_cb (fst (pwf_pw_registry_add_port al i props reg)) = port_added_cb reg"
  by (simp_all add: pwf_pw_registry_add_port_def Let_def split: option.splits)

lemma registry_dispatch_frame [simp]:
  "bound (registry_dispatch ev reg) = bound reg"
  "node_removed_cb (registry_dispatch ev reg) = node_removed_cb reg"
  "port_added_cb (registry_dispatch ev reg) = port_added_cb reg"
  by (auto simp: registry_dispatch_def pwf_pw_registry_on_global_def pwf_pw_registry_on_global_remove_def
      split: registry_event.splits option.splits prod.splits)

lemma registry_dispatch_ok: "registry_ok reg \<Longrightarrow> registry_ok (registry_dispatch ev reg)"
  by (cases ev) (simp_all add: registry_dispatch_def on_global_ok on_global_remove_ok)

section \<open>Links\<close>

datatype pw_link_state =
    PW_LINK_STATE_ERROR | PW_LINK_STATE_UNLINKED | PW_LINK_STATE_INIT | PW_LINK_STATE_NEGOTIATING
  | PW_LINK_STATE_ALLOCATING | PW_LINK_STATE_PAUSED | PW_LINK_STATE_ACTIVE

text \<open>The node id of a stream or filter the server has not seen yet.\<close>

definition SPA_ID_INVALID :: u32 where "SPA_ID_INVALID = 0xffffffff"

text \<open>The properties handed to the link factory, each id printed into a 16-byte buffer.\<close>

definition id_string :: "u32 \<Rightarrow> string" where
  "id_string i = c_snprintf 16 (c_decimal (unat i))"

definition link_props :: "u32 \<Rightarrow> u32 \<Rightarrow> u32 \<Rightarrow> u32 \<Rightarrow> (string \<times> string) list" where
  "link_props out_node out_port in_node in_port =
     [(''link.output.node'', id_string out_node), (''link.output.port'', id_string out_port),
      (''link.input.node'', id_string in_node), (''link.input.port'', id_string in_port)]"

text \<open>No id is cut by its buffer: what the server parses back is the id.\<close>

lemma c_decimal_length: "n < 10 ^ d \<Longrightarrow> 0 < d \<Longrightarrow> length (c_decimal n) \<le> d"
proof (induction n arbitrary: d rule: c_decimal.induct)
  case (1 n)
  show ?case
  proof (cases "n < 10")
    case True
    with 1 show ?thesis by (subst c_decimal.simps) simp
  next
    case False
    with 1 obtain e where d: "d = Suc e" "0 < e" by (cases d) (auto, metis gr0I power_0 mult_1_right)
    with 1 False have "n div 10 < 10 ^ e" by (simp add: div_less_iff_less_mult mult.commute)
    with "1.IH" [of e] False d show ?thesis by (subst c_decimal.simps) simp
  qed
qed

lemma id_string_full: "id_string i = c_decimal (unat i)"
proof -
  have "unat i < 10 ^ 10" using unat_u32_bound [of i] by simp
  then have "length (c_decimal (unat i)) \<le> 10" by (rule c_decimal_length) simp
  then show ?thesis by (simp add: id_string_def c_snprintf_def)
qed

lemma id_string_parse: "c_strtoul32 (id_string i) = i"
proof -
  have "digits_value 0 (c_decimal (unat i)) = unat i" by (rule digits_value_c_decimal)
  moreover have "unat i < 2 ^ 64" using unat_u32_bound [of i] by simp
  ultimately have "c_strtoull (c_decimal (unat i)) = of_nat (unat i)"
    by (simp add: c_strtoull_digits c_decimal_digits saturate64_def)
  then have "c_strtoul32 (id_string i) = ucast (of_nat (unat i) :: u64)"
    by (simp add: id_string_full c_strtoul32_def)
  also have "\<dots> = i"
    using unat_u32_bound [of i]
    by (simp add: word_unat_eq_iff unsigned_ucast_eq unsigned_of_nat take_bit_word_eq_self)
  finally show ?thesis .
qed

section \<open>Round trips keep what the callbacks keep\<close>

text \<open>
  An invariant of the owner's own fields: the callbacks keep it, and it does not look at the fields
  a round trip writes. The connection and registry functions then keep it too.
\<close>

locale client_inv = loop_client dispatch inv
  for dispatch :: "'e \<Rightarrow> 'a pwf_client_scheme \<Rightarrow> 'a pwf_client_scheme"
    and inv :: "'a pwf_client_scheme \<Rightarrow> bool" +
  assumes conn_inv: "inv c \<Longrightarrow> loop k = loop (conn c) \<Longrightarrow> core k = core (conn c) \<Longrightarrow> inv (c\<lparr>conn := k\<rparr>)"
    and emit_inv: "inv c \<Longrightarrow> inv (emit cs c)"
    and bound_inv: "inv c \<Longrightarrow> inv (c\<lparr>registry := (registry c)\<lparr>bound := b\<rparr>\<rparr>)"
begin

lemma sync_inv: "inv c \<Longrightarrow> inv (snd (pwf_pw_core_sync_locked dispatch env c))"
proof -
  let ?c1 = "c\<lparr>conn := (conn c)\<lparr>pending_seq := sync_seq env, sync_done := False, connect_result := 0\<rparr>\<rparr>"
  assume "inv c"
  then have "inv ?c1" by (rule conn_inv) simp_all
  then have "inv (snd (loop_wait (\<lambda>s. sync_done (conn s)) dispatch (sync_wakes env) (sync_late env) ?c1))"
    by (rule wait_inv)
  then show ?thesis
    by (auto simp: pwf_pw_core_sync_locked_def Let_def conn_inv split: prod.splits bool.splits)
qed

lemma sync_inv_pair: "inv c \<Longrightarrow> pwf_pw_core_sync_locked dispatch env c = (r, c') \<Longrightarrow> inv c'"
  using sync_inv [of c env] by simp

lemma bind_inv: "inv c \<Longrightarrow> pwf_pw_registry_bind dispatch got env c = (r, c') \<Longrightarrow> inv c'"
  using bound_inv [where c = "emit [Loop_lock] c" and b = got] emit_inv [of c "[Loop_lock]"]
  by (cases got)
     (auto simp: pwf_pw_registry_bind_def Let_def intro!: emit_inv elim: sync_inv_pair [rotated]
      split: if_splits prod.splits)

lemma registry_sync_inv: "inv c \<Longrightarrow> pwf_pw_registry_sync dispatch env c = (r, c') \<Longrightarrow> inv c'"
  using emit_inv [of c "[Loop_lock]"]
  by (auto simp: pwf_pw_registry_sync_def intro!: emit_inv elim: sync_inv_pair [rotated]
      split: if_splits prod.splits)

end

end
