(* ===== verification/Pwf_Stream_State.thy ===== *)
theory Pwf_Stream_State
  imports Pwf_Owner Pwf_Spa_Format Pwf_Rate_Limit Pwf_Dmabuf
begin

text \<open>
  \<^verbatim>\<open>src/pwf_stream_internal.h\<close> and the event callbacks of \<^verbatim>\<open>src/pwf_stream.c\<close> and
  \<^verbatim>\<open>src/pwf_stream_routing.c\<close>: a stream's state, and what the loop thread does to it. The process
  callbacks, which run on the data thread, are in \<open>Pwf_Stream_Process\<close>.

  \<open>stream_id\<close> is the stream's address; the callback fields say whether the pointers are set. The
  four pairs of rate-limit words are records.
\<close>

section \<open>The stream\<close>

datatype pwf_stream_state =
    PWF_STREAM_STATE_CREATED | PWF_STREAM_STATE_FORMAT_SET | PWF_STREAM_STATE_RUNNING
  | PWF_STREAM_STATE_STOPPED

datatype pwf_stream_direction = PWF_STREAM_DIRECTION_CAPTURE | PWF_STREAM_DIRECTION_PLAYBACK

record pwf_audio_format_state =
  au_sample_rate :: int
  au_channels :: int
  au_format :: spa_audio_format

record pwf_video_format_state =
  vi_width :: int
  vi_height :: int
  vi_format :: spa_video_format

text \<open>The union; \<open>Format_zero\<close> is what \<open>calloc\<close> left there.\<close>

datatype pwf_stream_format =
    Format_zero | Format_audio pwf_audio_format_state | Format_video pwf_video_format_state

record pwf_stream_link =
  link_proxy :: "nat option"
  seen_active :: bool
  lost :: bool

record pwf_stream_link_set =
  set_links :: "pwf_stream_link list"
  n_links :: nat
  target_node_id :: u32

record pwf_stream = pwf_client +
  stream_id :: nat
  stream_type :: pwf_data_type
  direction :: pwf_stream_direction
  state :: pwf_stream_state
  format_set :: bool
  stream_format :: pwf_stream_format
  bytes_per_frame :: u64
  overrun :: rate_limit
  unusable :: rate_limit
  drained :: bool
  use_dmabuf :: bool
  current_dmabuf_buf :: "spa_buffer option"
  dmabuf_retrieved :: bool
  dmabuf_unretrieved :: rate_limit
  data_cb :: bool
  playback_cb :: bool
  error_cb :: bool
  target :: "string option"
  role :: "string option"
  autoconnect :: bool
  links :: "pwf_stream_link_set option"
  pw_stream :: "nat option"

lemma emit_stream_frame [simp]:
  fixes s :: "'a pwf_stream_scheme"
  shows
  "stream_id (emit cs s) = stream_id s" "stream_type (emit cs s) = stream_type s"
  "direction (emit cs s) = direction s" "state (emit cs s) = state s"
  "format_set (emit cs s) = format_set s" "stream_format (emit cs s) = stream_format s"
  "bytes_per_frame (emit cs s) = bytes_per_frame s" "overrun (emit cs s) = overrun s"
  "unusable (emit cs s) = unusable s" "drained (emit cs s) = drained s"
  "use_dmabuf (emit cs s) = use_dmabuf s" "current_dmabuf_buf (emit cs s) = current_dmabuf_buf s"
  "dmabuf_retrieved (emit cs s) = dmabuf_retrieved s"
  "dmabuf_unretrieved (emit cs s) = dmabuf_unretrieved s"
  "data_cb (emit cs s) = data_cb s" "playback_cb (emit cs s) = playback_cb s"
  "error_cb (emit cs s) = error_cb s" "target (emit cs s) = target s" "role (emit cs s) = role s"
  "autoconnect (emit cs s) = autoconnect s" "links (emit cs s) = links s"
  "pw_stream (emit cs s) = pw_stream s"
  by (simp_all add: emit_def)

text \<open>Updates of the stream's own fields leave what the waits rely on alone.\<close>

lemma held_stream_update [simp]:
  fixes s :: "'a pwf_stream_scheme"
  shows
  "held (s\<lparr>state := st\<rparr>) = held s" "held (s\<lparr>drained := b\<rparr>) = held s"
  "held (s\<lparr>use_dmabuf := b\<rparr>) = held s" "held (s\<lparr>links := l\<rparr>) = held s"
  "held (s\<lparr>pw_stream := p\<rparr>) = held s" "held (s\<lparr>format_set := b\<rparr>) = held s"
  "held (s\<lparr>stream_format := f\<rparr>) = held s" "held (s\<lparr>bytes_per_frame := w\<rparr>) = held s"
  "held (s\<lparr>target := t\<rparr>) = held s" "held (s\<lparr>role := t\<rparr>) = held s"
  "held (s\<lparr>autoconnect := b\<rparr>) = held s" "held (s\<lparr>error_cb := b\<rparr>) = held s"
  by (simp_all add: held_def)

section \<open>Callbacks of the loop thread\<close>

datatype pw_stream_state =
    PW_STREAM_STATE_ERROR | PW_STREAM_STATE_UNCONNECTED | PW_STREAM_STATE_CONNECTING
  | PW_STREAM_STATE_PAUSED | PW_STREAM_STATE_STREAMING

text \<open>\<^verbatim>\<open>if (stream->error_cb) stream->error_cb(stream, e, stream->user_data);\<close>\<close>

definition call_error_cb :: "pwf_error \<Rightarrow> pwf_stream \<Rightarrow> pwf_stream" where
  "call_error_cb e s = (if error_cb s then emit [Error_callback e] s else s)"

definition pwf_stream_on_state_changed ::
    "pw_stream_state \<Rightarrow> pw_stream_state \<Rightarrow> pwf_stream \<Rightarrow> pwf_stream" where
  "pwf_stream_on_state_changed old new s =
     (let lost_source = (new = PW_STREAM_STATE_ERROR \<or> new = PW_STREAM_STATE_UNCONNECTED) \<and>
                        (old = PW_STREAM_STATE_STREAMING \<or> old = PW_STREAM_STATE_PAUSED);
          s1 = (if lost_source \<and> state s = PWF_STREAM_STATE_RUNNING
                then call_error_cb PWF_ERR_SOURCE_UNAVAILABLE
                       (emit [Log PWF_LOG_WARNING] (s\<lparr>state := PWF_STREAM_STATE_STOPPED\<rparr>))
                else s)
      in emit [Loop_signal] s1)"

definition pwf_stream_dmabuf_update_params :: "pwf_stream \<Rightarrow> pwf_stream" where
  "pwf_stream_dmabuf_update_params s =
     (if \<not> use_dmabuf s then s
      else emit [Stream_update_params (pw_stream s) [pwf_spa_build_dmabuf_buffers 0]] s)"

definition pwf_stream_dmabuf_log_unavailable :: "pwf_stream \<Rightarrow> pwf_stream" where
  "pwf_stream_dmabuf_log_unavailable s =
     (if \<not> use_dmabuf s then s else emit [Log PWF_LOG_WARNING] s)"

text \<open>\<open>has_param\<close> is \<open>param != NULL\<close>.\<close>

definition pwf_stream_on_param_changed :: "spa_param_type \<Rightarrow> bool \<Rightarrow> pwf_stream \<Rightarrow> pwf_stream" where
  "pwf_stream_on_param_changed i has_param s =
     (if i \<noteq> SPA_PARAM_Format \<or> \<not> use_dmabuf s then s
      else if has_param then pwf_stream_dmabuf_update_params s
      else
        let s1 = pwf_stream_dmabuf_log_unavailable s in
        if state s1 = PWF_STREAM_STATE_RUNNING
        then call_error_cb PWF_ERR_SOURCE_UNAVAILABLE (s1\<lparr>state := PWF_STREAM_STATE_STOPPED\<rparr>)
        else s1)"

definition pwf_stream_on_drained :: "pwf_stream \<Rightarrow> pwf_stream" where
  "pwf_stream_on_drained s = emit [Loop_signal] (s\<lparr>drained := True\<rparr>)"

text \<open>\<open>pw_proxy_destroy\<close> of every link that has a proxy.\<close>

definition destroy_proxies :: "pwf_stream_link list \<Rightarrow> pw_call list" where
  "destroy_proxies ls = map Proxy_destroy (List.map_filter link_proxy ls)"

definition pwf_stream_release_links :: "pwf_stream \<Rightarrow> pwf_stream" where
  "pwf_stream_release_links s =
     (case links s of
        None \<Rightarrow> s
      | Some ls \<Rightarrow>
          emit ([Loop_lock] @ destroy_proxies (take (n_links ls) (set_links ls)) @ [Loop_unlock])
            (s\<lparr>links := None\<rparr>))"

definition pwf_stream_on_port_added :: "u32 \<Rightarrow> pwf_stream \<Rightarrow> pwf_stream" where
  "pwf_stream_on_port_added nid s = emit [Loop_signal] s"

definition pwf_stream_on_node_removed :: "u32 \<Rightarrow> pwf_stream \<Rightarrow> pwf_stream" where
  "pwf_stream_on_node_removed i s =
     (case links s of
        None \<Rightarrow> s
      | Some ls \<Rightarrow>
          if target_node_id ls \<noteq> i then s
          else call_error_cb PWF_ERR_SOURCE_UNAVAILABLE
                 (pwf_stream_release_links (emit [Log PWF_LOG_WARNING] s)))"

text \<open>The info event of the \<open>i\<close>-th link of the set; \<open>state_changed\<close> is the bit of the change mask.\<close>

definition link_note_state :: "pw_link_state \<Rightarrow> pwf_stream_link \<Rightarrow> pwf_stream_link" where
  "link_note_state st l =
     (if st = PW_LINK_STATE_ACTIVE \<or> st = PW_LINK_STATE_PAUSED then l\<lparr>seen_active := True\<rparr>
      else if st = PW_LINK_STATE_ERROR then l\<lparr>lost := True\<rparr>
      else l)"

definition pwf_stream_link_on_info :: "nat \<Rightarrow> bool \<Rightarrow> pw_link_state \<Rightarrow> pwf_stream \<Rightarrow> pwf_stream" where
  "pwf_stream_link_on_info i state_changed st s =
     (case links s of
        None \<Rightarrow> s
      | Some ls \<Rightarrow>
          if i < length (set_links ls) \<and> link_proxy (set_links ls ! i) \<noteq> None \<and> state_changed
          then emit [Loop_signal]
                 (s\<lparr>links := Some (ls\<lparr>set_links :=
                      (set_links ls)[i := link_note_state st (set_links ls ! i)]\<rparr>)\<rparr>)
          else s)"

section \<open>The loop thread\<close>

text \<open>
  The events of a stream's loop. A stream listener exists while the stream is connected, a playback
  stream's has no \<open>param_changed\<close>; the registry's exists while it is bound; a link's while its proxy
  does.
\<close>

datatype stream_event =
    Ev_core core_event
  | Ev_registry registry_event
  | Ev_state_changed pw_stream_state pw_stream_state
  | Ev_param_changed spa_param_type bool
  | Ev_drained
  | Ev_link_info nat bool pw_link_state

definition stream_registry_event :: "registry_event \<Rightarrow> pwf_stream \<Rightarrow> pwf_stream" where
  "stream_registry_event ev s =
     (if \<not> bound (registry s) then s
      else
        case registry_notify ev (registry s) of
          (reg, notice) \<Rightarrow>
            (case notice of
               No_notice \<Rightarrow> s\<lparr>registry := reg\<rparr>
             | Port_added nid \<Rightarrow> pwf_stream_on_port_added nid (s\<lparr>registry := reg\<rparr>)
             | Node_removed i \<Rightarrow> pwf_stream_on_node_removed i (s\<lparr>registry := reg\<rparr>)))"

fun stream_dispatch :: "stream_event \<Rightarrow> pwf_stream \<Rightarrow> pwf_stream" where
  "stream_dispatch (Ev_core ev) s = s\<lparr>conn := core_dispatch ev (conn s)\<rparr>"
| "stream_dispatch (Ev_registry ev) s = stream_registry_event ev s"
| "stream_dispatch (Ev_state_changed old new) s =
     (if pw_stream s = None then s else pwf_stream_on_state_changed old new s)"
| "stream_dispatch (Ev_param_changed i has_param) s =
     (if pw_stream s = None \<or> direction s = PWF_STREAM_DIRECTION_PLAYBACK then s
      else pwf_stream_on_param_changed i has_param s)"
| "stream_dispatch Ev_drained s = (if pw_stream s = None then s else pwf_stream_on_drained s)"
| "stream_dispatch (Ev_link_info i state_changed st) s = pwf_stream_link_on_info i state_changed st s"

section \<open>What the callbacks keep\<close>

text \<open>The settings only the application's own calls change.\<close>

definition same_settings :: "pwf_stream \<Rightarrow> pwf_stream \<Rightarrow> bool" where
  "same_settings s0 s \<longleftrightarrow>
     stream_id s = stream_id s0 \<and> stream_type s = stream_type s0 \<and> direction s = direction s0 \<and>
     format_set s = format_set s0 \<and> stream_format s = stream_format s0 \<and>
     bytes_per_frame s = bytes_per_frame s0 \<and> data_cb s = data_cb s0 \<and>
     playback_cb s = playback_cb s0 \<and> error_cb s = error_cb s0 \<and> target s = target s0 \<and>
     role s = role s0 \<and> autoconnect s = autoconnect s0 \<and> pw_stream s = pw_stream s0 \<and>
     use_dmabuf s = use_dmabuf s0 \<and> faults s = faults s0"

text \<open>A callback stops a running stream and changes the state in no other way.\<close>

definition only_stops :: "pwf_stream \<Rightarrow> pwf_stream \<Rightarrow> bool" where
  "only_stops s0 s \<longleftrightarrow>
     state s = state s0 \<or>
     state s0 = PWF_STREAM_STATE_RUNNING \<and> state s = PWF_STREAM_STATE_STOPPED"

lemma same_settings_refl [simp]: "same_settings s s"
  by (simp add: same_settings_def)

lemma same_settings_trans: "same_settings a b \<Longrightarrow> same_settings b c \<Longrightarrow> same_settings a c"
  by (simp add: same_settings_def)

lemma only_stops_refl [simp]: "only_stops s s"
  by (simp add: only_stops_def)

lemma only_stops_trans: "only_stops a b \<Longrightarrow> only_stops b c \<Longrightarrow> only_stops a c"
  by (auto simp: only_stops_def)

lemmas stream_callback_defs = call_error_cb_def pwf_stream_on_state_changed_def
  pwf_stream_dmabuf_update_params_def pwf_stream_dmabuf_log_unavailable_def
  pwf_stream_on_param_changed_def pwf_stream_on_drained_def pwf_stream_on_port_added_def
  pwf_stream_link_on_info_def Let_def

lemma lock_depth_no_locks: "\<forall>c\<in>set cs. lock_delta c = 0 \<Longrightarrow> lock_depth cs = 0"
  by (induction cs) auto

lemma lock_depth_destroy_proxies [simp]: "lock_depth (destroy_proxies ls) = 0"
  by (rule lock_depth_no_locks) (auto simp: destroy_proxies_def)

lemma release_links_frame:
  "same_settings s (pwf_stream_release_links s)" "state (pwf_stream_release_links s) = state s"
  "links (pwf_stream_release_links s) = None" "conn (pwf_stream_release_links s) = conn s"
  "registry (pwf_stream_release_links s) = registry s" "held (pwf_stream_release_links s) = held s"
  "drained (pwf_stream_release_links s) = drained s"
  by (simp_all add: pwf_stream_release_links_def same_settings_def split: option.split)

lemma on_node_removed_frame:
  "same_settings s (pwf_stream_on_node_removed i s)" "state (pwf_stream_on_node_removed i s) = state s"
  "conn (pwf_stream_on_node_removed i s) = conn s" "registry (pwf_stream_on_node_removed i s) = registry s"
  "held (pwf_stream_on_node_removed i s) = held s"
  using release_links_frame [of "emit [Log PWF_LOG_WARNING] s"]
  by (auto simp: pwf_stream_on_node_removed_def call_error_cb_def same_settings_def split: option.split)

lemma stream_registry_event_frame:
  "same_settings s (stream_registry_event ev s)" "state (stream_registry_event ev s) = state s"
  "conn (stream_registry_event ev s) = conn s" "held (stream_registry_event ev s) = held s"
  "registry (stream_registry_event ev s) =
     (if bound (registry s) then registry_dispatch ev (registry s) else registry s)"
proof -
  obtain reg notice where n: "registry_notify ev (registry s) = (reg, notice)" by fastforce
  then have reg: "registry_dispatch ev (registry s) = reg" using registry_notify_cache [of ev "registry s"] by simp
  show "same_settings s (stream_registry_event ev s)" "state (stream_registry_event ev s) = state s"
    "conn (stream_registry_event ev s) = conn s" "held (stream_registry_event ev s) = held s"
    "registry (stream_registry_event ev s) =
       (if bound (registry s) then registry_dispatch ev (registry s) else registry s)"
    using on_node_removed_frame [where s = "s\<lparr>registry := reg\<rparr>"] n reg
    by (cases notice; auto simp: stream_registry_event_def pwf_stream_on_port_added_def same_settings_def)+
qed

lemma stream_dispatch_settings: "same_settings s (stream_dispatch e s)"
proof (cases e)
  case (Ev_registry ev)
  then show ?thesis by (simp add: stream_registry_event_frame)
qed (auto simp: stream_callback_defs same_settings_def split: option.splits)

lemma stream_dispatch_state: "only_stops s (stream_dispatch e s)"
proof (cases e)
  case (Ev_registry ev)
  then show ?thesis by (simp add: stream_registry_event_frame only_stops_def)
qed (auto simp: stream_callback_defs only_stops_def split: option.splits)

lemma stream_dispatch_client: "same_client s (stream_dispatch e s)"
proof (cases e)
  case (Ev_registry ev)
  then show ?thesis by (auto simp: stream_registry_event_frame same_client_def registry_dispatch_ok)
qed (auto simp: stream_callback_defs same_client_def split: option.splits)

lemma stream_dispatch_result:
  "connect_result (conn s) \<le> 0 \<Longrightarrow> connect_result (conn (stream_dispatch e s)) \<le> 0"
proof (cases e)
  case (Ev_core ev)
  assume "connect_result (conn s) \<le> 0"
  with Ev_core show ?thesis by (simp add: core_client.dispatch_inv)
next
  case (Ev_registry ev)
  assume "connect_result (conn s) \<le> 0"
  with Ev_registry show ?thesis by (simp add: stream_registry_event_frame)
qed (auto simp: stream_callback_defs split: option.splits)

interpretation stream_loop: client_loop stream_dispatch
  by unfold_locales (rule stream_dispatch_client stream_dispatch_result; assumption?)+

interpretation stream_settings: loop_client stream_dispatch "same_settings s0" for s0
  by unfold_locales (blast intro: stream_dispatch_settings same_settings_trans)

interpretation stream_stops: loop_client stream_dispatch "only_stops s0" for s0
  by unfold_locales (blast intro: stream_dispatch_state only_stops_trans)

end
