(* ===== verification/Pwf_Stream.thy ===== *)
theory Pwf_Stream
  imports Pwf_Stream_State
begin

text \<open>
  \<^verbatim>\<open>src/pwf_stream.c\<close>, and the two format setters of \<^verbatim>\<open>src/pwf_audio_format.c\<close> and
  \<^verbatim>\<open>src/pwf_video_format.c\<close>: creating a stream, its settings, connecting it, starting, stopping and
  destroying it. A handle is \<open>None\<close> for NULL. What the calls into PipeWire answer, and the events the
  loop thread dispatches while one of them waits, are arguments.
\<close>

section \<open>Calls from inside a callback\<close>

definition pwf_stream_refuse_in_callback :: "pwf_thread \<Rightarrow> bool \<Rightarrow> pwf_stream \<Rightarrow> bool \<times> pwf_stream" where
  "pwf_stream_refuse_in_callback th loop_thread_too s =
     (let refused = pwf_stream_processing th = Some (stream_id s) \<or>
                    (loop_thread_too \<and> loop (conn s) \<noteq> None \<and> on_loop th = loop (conn s))
      in (refused, if refused then emit [Log PWF_LOG_ERROR] s else s))"

section \<open>Creating a stream\<close>

definition stream_zero :: pwf_stream where
  "stream_zero =
     \<lparr>conn = conn_zero, registry = registry_zero, calls = [], faults = [],
      stream_id = 0, stream_type = PWF_DATA_AUDIO, direction = PWF_STREAM_DIRECTION_CAPTURE,
      state = PWF_STREAM_STATE_CREATED, format_set = False, stream_format = Format_zero,
      bytes_per_frame = 0, overrun = rate_limit_init, unusable = rate_limit_init, drained = False,
      use_dmabuf = False, current_dmabuf_buf = None, dmabuf_retrieved = False,
      dmabuf_unretrieved = rate_limit_init, data_cb = False, playback_cb = False, error_cb = False,
      target = None, role = None, autoconnect = False, links = None, pw_stream = None\<rparr>"

text \<open>\<open>pw_stream_destroy\<close>, during which PipeWire may still dispatch \<open>events\<close> to the listener.\<close>

definition destroy_pw_stream :: "stream_event list \<Rightarrow> pwf_stream \<Rightarrow> pwf_stream" where
  "destroy_pw_stream events s =
     (let s1 = fold stream_dispatch events (emit [Stream_destroy (pw_stream s)] s)
      in s1\<lparr>pw_stream := None\<rparr>)"

definition pwf_stream_teardown :: "stream_event list \<Rightarrow> pwf_stream \<Rightarrow> pwf_stream" where
  "pwf_stream_teardown events s =
     (let s1 = s\<lparr>use_dmabuf := False\<rparr>;
          s2 = (if loop (conn s1) \<noteq> None \<and> pw_stream s1 \<noteq> None
                then emit [Loop_unlock] (destroy_pw_stream events (emit [Loop_lock] s1))
                else if pw_stream s1 \<noteq> None then destroy_pw_stream events s1
                else s1)
      in case pwf_pw_core_teardown (conn s2) of
           (k, cs) \<Rightarrow> emit cs (s2\<lparr>conn := k\<rparr>))"

text \<open>
  \<open>mem\<close> is the address \<open>calloc\<close> answers. \<open>None\<close> is the NULL handle; what a failed connection tore
  down again is the second component.
\<close>

definition pwf_stream_alloc ::
    "connect_env \<Rightarrow> nat option \<Rightarrow> pwf_data_type \<Rightarrow> pwf_stream_direction \<Rightarrow> pw_global \<Rightarrow>
     pwf_stream option \<times> pwf_stream option \<times> pw_global" where
  "pwf_stream_alloc env mem ty dir g =
     (let g1 = pwf_pw_global_init g in
      case mem of
        None \<Rightarrow> (None, None, pwf_pw_global_deinit g1)
      | Some addr \<Rightarrow>
          let s = stream_zero\<lparr>stream_id := addr, stream_type := ty, direction := dir,
                              state := PWF_STREAM_STATE_CREATED, autoconnect := True\<rparr>
          in case pwf_pw_core_connect env (conn s) of
               (res, k, cs) \<Rightarrow>
                 let s1 = emit cs (s\<lparr>conn := k\<rparr>) in
                 if res < 0 then (None, Some (pwf_stream_teardown [] s1), pwf_pw_global_deinit g1)
                 else (Some s1, None, g1))"

definition pwf_stream_create ::
    "connect_env \<Rightarrow> nat option \<Rightarrow> pwf_data_type \<Rightarrow> bool \<Rightarrow> pw_global \<Rightarrow> pwf_stream option \<times> pw_global" where
  "pwf_stream_create env mem ty callback g =
     (if \<not> callback \<or> (ty \<noteq> PWF_DATA_AUDIO \<and> ty \<noteq> PWF_DATA_VIDEO) then (None, g)
      else case pwf_stream_alloc env mem ty PWF_STREAM_DIRECTION_CAPTURE g of
          (None, _, g1) \<Rightarrow> (None, g1)
        | (Some s, _, g1) \<Rightarrow> (Some (s\<lparr>data_cb := callback\<rparr>), g1))"

definition pwf_stream_create_playback ::
    "connect_env \<Rightarrow> nat option \<Rightarrow> bool \<Rightarrow> pw_global \<Rightarrow> pwf_stream option \<times> pw_global" where
  "pwf_stream_create_playback env mem callback g =
     (if \<not> callback then (None, g)
      else case pwf_stream_alloc env mem PWF_DATA_AUDIO PWF_STREAM_DIRECTION_PLAYBACK g of
          (None, _, g1) \<Rightarrow> (None, g1)
        | (Some s, _, g1) \<Rightarrow> (Some (s\<lparr>playback_cb := callback\<rparr>), g1))"

section \<open>Connecting\<close>

text \<open>
  What PipeWire answers: the events the destruction of the old stream dispatches, the new stream, the
  result of \<open>pw_stream_connect\<close>, and the events of destroying a stream that could not connect.
\<close>

record stream_connect_env =
  destroy_events :: "stream_event list"
  new_pw_stream :: "nat option"
  connect_res :: int
  failed_events :: "stream_event list"

definition stream_props :: "pwf_stream \<Rightarrow> (string \<times> string) list" where
  "stream_props s =
     [(''media.type'', if stream_type s = PWF_DATA_AUDIO then ''Audio'' else ''Video''),
      (''media.category'', if direction s = PWF_STREAM_DIRECTION_PLAYBACK then ''Playback'' else ''Capture'')] @
     (case target s of Some t \<Rightarrow> [(''target.object'', t)] | None \<Rightarrow> []) @
     (case role s of Some r \<Rightarrow> [(''media.role'', r)] | None \<Rightarrow> [])"

text \<open>\<open>Stream_connect p dir map auto params\<close>: \<open>map\<close> and \<open>auto\<close> are the two flags that vary.\<close>

definition pwf_stream_internal_connect ::
    "stream_connect_env \<Rightarrow> spa_pod list \<Rightarrow> bool \<Rightarrow> pwf_stream \<Rightarrow> pwf_error \<times> pwf_stream" where
  "pwf_stream_internal_connect env params dmabuf s =
     (let s1 = (if pw_stream s \<noteq> None
                then emit [Loop_unlock]
                       (destroy_pw_stream (destroy_events env) (emit [Loop_lock] (s\<lparr>use_dmabuf := False\<rparr>)))
                else s);
          playback = (direction s1 = PWF_STREAM_DIRECTION_PLAYBACK);
          s2 = emit [Loop_lock, Stream_new (stream_props s1)] s1;
          s3 = s2\<lparr>pw_stream := new_pw_stream env\<rparr>
      in if pw_stream s3 = None
         then (PWF_ERR_CONNECT_FAILED, emit [Loop_unlock, Log PWF_LOG_ERROR] s3)
         else
           let s4 = emit [Stream_connect (pw_stream s3)
                            (if playback then SPA_DIRECTION_OUTPUT else SPA_DIRECTION_INPUT)
                            (\<not> dmabuf) (autoconnect s3) params] s3
           in if connect_res env < 0
              then (PWF_ERR_CONNECT_FAILED,
                    emit [Loop_unlock, Log PWF_LOG_ERROR] (destroy_pw_stream (failed_events env) s4))
              else (PWF_OK,
                    emit [Stream_set_active (pw_stream s4) False, Loop_unlock]
                      (s4\<lparr>use_dmabuf := dmabuf\<rparr>)))"

definition audio_config_format :: "pwf_audio_config \<Rightarrow> spa_audio_format" where
  "audio_config_format cfg =
     pwf_spa_lookup_audio_format (case sample_format cfg of Some f \<Rightarrow> f | None \<Rightarrow> ''S16'')"

definition stream_set_audio_config ::
    "pwf_thread \<Rightarrow> stream_connect_env \<Rightarrow> pwf_audio_config option \<Rightarrow> pwf_stream \<Rightarrow> pwf_error \<times> pwf_stream" where
  "stream_set_audio_config th env config s =
     (case config of
        None \<Rightarrow> (PWF_ERR_INVALID_ARG, s)
      | Some cfg \<Rightarrow>
          if stream_type s \<noteq> PWF_DATA_AUDIO then (PWF_ERR_INVALID_ARG, s)
          else case pwf_stream_refuse_in_callback th True s of
              (True, s1) \<Rightarrow> (PWF_ERR_IN_CALLBACK, s1)
            | (False, s1) \<Rightarrow>
                if sample_rate cfg \<le> 0 \<or> channels cfg \<le> 0 then (PWF_ERR_INVALID_FORMAT, s1)
                else
                  let fmt = audio_config_format cfg in
                  if fmt = SPA_AUDIO_FORMAT_UNKNOWN then (PWF_ERR_INVALID_FORMAT, s1)
                  else case pwf_stream_internal_connect env
                              [pwf_spa_build_audio_format cfg fmt, pwf_spa_build_meta_header, pwf_spa_build_cpu_buffers]
                              False s1 of
                      (res, s2) \<Rightarrow>
                        if failed res then (res, s2)
                        else (PWF_OK, s2\<lparr>stream_format := Format_audio
                                 \<lparr>au_sample_rate = sample_rate cfg, au_channels = channels cfg, au_format = fmt\<rparr>,
                               bytes_per_frame := pwf_audio_bytes_per_frame fmt (channels cfg),
                               format_set := True, state := PWF_STREAM_STATE_FORMAT_SET\<rparr>))"

definition pwf_stream_set_audio_config where
  "pwf_stream_set_audio_config th env config =
     on_handle PWF_ERR_INVALID_ARG (stream_set_audio_config th env config)"

definition video_name_encoded :: "string \<Rightarrow> bool" where
  "video_name_encoded name \<longleftrightarrow> pwf_spa_pixel_format_is_mjpg name \<or> pwf_spa_pixel_format_is_h264 name"

definition video_config_format :: "string \<Rightarrow> spa_video_format" where
  "video_config_format name =
     (if video_name_encoded name then SPA_VIDEO_FORMAT_ENCODED else pwf_spa_lookup_pixel_format name)"

definition video_config_params ::
    "pwf_video_config \<Rightarrow> string \<Rightarrow> spa_video_format \<Rightarrow> bool \<Rightarrow> spa_pod list" where
  "video_config_params cfg name fmt dmabuf =
     [if pwf_spa_pixel_format_is_mjpg name then pwf_spa_build_video_format_mjpg cfg
      else if pwf_spa_pixel_format_is_h264 name then pwf_spa_build_video_format_h264 cfg
      else pwf_spa_build_video_format cfg fmt,
      pwf_spa_build_meta_header] @
     (if dmabuf then [] else [pwf_spa_build_cpu_buffers])"

text \<open>\<open>opts\<close> is the memory the DMABUF options ask for, \<open>None\<close> for NULL.\<close>

definition stream_set_video_config_ex ::
    "pwf_thread \<Rightarrow> stream_connect_env \<Rightarrow> pwf_video_config option \<Rightarrow> pwf_port_memory option \<Rightarrow>
     pwf_stream \<Rightarrow> pwf_error \<times> pwf_stream" where
  "stream_set_video_config_ex th env config opts s =
     (case config of
        None \<Rightarrow> (PWF_ERR_INVALID_ARG, s)
      | Some cfg \<Rightarrow>
          (case cfg_pixel_format cfg of
             None \<Rightarrow> (PWF_ERR_INVALID_ARG, s)
           | Some name \<Rightarrow>
               if stream_type s \<noteq> PWF_DATA_VIDEO then (PWF_ERR_INVALID_ARG, s)
               else case pwf_stream_refuse_in_callback th True s of
                   (True, s1) \<Rightarrow> (PWF_ERR_IN_CALLBACK, s1)
                 | (False, s1) \<Rightarrow>
                     if direction s1 \<noteq> PWF_STREAM_DIRECTION_CAPTURE then (PWF_ERR_INVALID_ARG, s1)
                     else if cfg_width cfg \<le> 0 \<or> cfg_height cfg \<le> 0 \<or> cfg_fps cfg < 0
                     then (PWF_ERR_INVALID_FORMAT, s1)
                     else
                       let dmabuf = (opts = Some PWF_PORT_MEMORY_DMABUF);
                           fmt = video_config_format name
                       in if video_name_encoded name \<and> dmabuf then (PWF_ERR_INVALID_ARG, s1)
                          else if fmt = SPA_VIDEO_FORMAT_UNKNOWN then (PWF_ERR_INVALID_FORMAT, s1)
                          else
                            let params = video_config_params cfg name fmt dmabuf
                            in case pwf_stream_internal_connect env params dmabuf s1 of
                                 (res, s2) \<Rightarrow>
                                   if failed res then (res, s2)
                                   else (PWF_OK, s2\<lparr>stream_format := Format_video
                                           \<lparr>vi_width = cfg_width cfg, vi_height = cfg_height cfg, vi_format = fmt\<rparr>,
                                         format_set := True, state := PWF_STREAM_STATE_FORMAT_SET\<rparr>)))"

definition pwf_stream_set_video_config_ex where
  "pwf_stream_set_video_config_ex th env config opts =
     on_handle PWF_ERR_INVALID_ARG (stream_set_video_config_ex th env config opts)"

definition pwf_stream_set_video_config where
  "pwf_stream_set_video_config th env config = pwf_stream_set_video_config_ex th env config None"

section \<open>Settings\<close>

text \<open>\<open>dup_ok\<close>: whether \<open>strdup\<close> finds memory. A C string is never longer than its terminator says.\<close>

definition pwf_stream_replace_string :: "bool \<Rightarrow> string option \<Rightarrow> string option \<Rightarrow> pwf_error \<times> string option" where
  "pwf_stream_replace_string dup_ok value slot =
     (case value of
        None \<Rightarrow> (PWF_OK, None)
      | Some v \<Rightarrow>
          if v = [] then (PWF_OK, None)
          else if dup_ok then (PWF_OK, Some v)
          else (PWF_ERR_NO_MEMORY, slot))"

definition pwf_stream_set_error_callback :: "bool \<Rightarrow> pwf_stream option \<Rightarrow> pwf_error \<times> pwf_stream option" where
  "pwf_stream_set_error_callback callback =
     on_handle PWF_ERR_INVALID_ARG (\<lambda>s. (PWF_OK, s\<lparr>error_cb := callback\<rparr>))"

definition stream_set_autoconnect :: "bool \<Rightarrow> pwf_stream \<Rightarrow> pwf_error \<times> pwf_stream" where
  "stream_set_autoconnect enable s =
     (if pw_stream s \<noteq> None then (PWF_ERR_INVALID_ARG, s)
      else if \<not> enable \<and> target s \<noteq> None then (PWF_ERR_INVALID_ARG, s)
      else (PWF_OK, s\<lparr>autoconnect := enable\<rparr>))"

definition pwf_stream_set_autoconnect where
  "pwf_stream_set_autoconnect enable = on_handle PWF_ERR_INVALID_ARG (stream_set_autoconnect enable)"

definition stream_set_target :: "bool \<Rightarrow> string option \<Rightarrow> pwf_stream \<Rightarrow> pwf_error \<times> pwf_stream" where
  "stream_set_target dup_ok t s =
     (if t \<noteq> None \<and> t \<noteq> Some [] \<and> \<not> autoconnect s then (PWF_ERR_INVALID_ARG, s)
      else case pwf_stream_replace_string dup_ok t (target s) of
          (res, slot) \<Rightarrow> (res, s\<lparr>target := slot\<rparr>))"

definition pwf_stream_set_target where
  "pwf_stream_set_target dup_ok t = on_handle PWF_ERR_INVALID_ARG (stream_set_target dup_ok t)"

definition stream_set_role :: "bool \<Rightarrow> string option \<Rightarrow> pwf_stream \<Rightarrow> pwf_error \<times> pwf_stream" where
  "stream_set_role dup_ok r s =
     (case pwf_stream_replace_string dup_ok r (role s) of (res, slot) \<Rightarrow> (res, s\<lparr>role := slot\<rparr>))"

definition pwf_stream_set_role where
  "pwf_stream_set_role dup_ok r = on_handle PWF_ERR_INVALID_ARG (stream_set_role dup_ok r)"

section \<open>Starting and stopping\<close>

definition stream_start :: "pwf_thread \<Rightarrow> pwf_stream \<Rightarrow> pwf_error \<times> pwf_stream" where
  "stream_start th s =
     (case pwf_stream_refuse_in_callback th False s of
        (True, s1) \<Rightarrow> (PWF_ERR_IN_CALLBACK, s1)
      | (False, s1) \<Rightarrow>
          if \<not> format_set s1 \<or> pw_stream s1 = None then (PWF_ERR_NOT_CONFIGURED, s1)
          else (PWF_OK, (emit [Loop_lock, Stream_set_active (pw_stream s1) True, Loop_unlock] s1)
                          \<lparr>state := PWF_STREAM_STATE_RUNNING\<rparr>))"

definition pwf_stream_start where
  "pwf_stream_start th = on_handle PWF_ERR_INVALID_ARG (stream_start th)"

text \<open>The wake-ups of a draining stop, and what is dispatched before its deadline passes.\<close>

definition stream_stop ::
    "pwf_thread \<Rightarrow> stream_event schedule \<Rightarrow> bool \<Rightarrow> pwf_stream \<Rightarrow> pwf_error \<times> pwf_stream" where
  "stream_stop th sched drain s =
     (case pwf_stream_refuse_in_callback th drain s of
        (True, s1) \<Rightarrow> (PWF_ERR_IN_CALLBACK, s1)
      | (False, s1) \<Rightarrow>
          if state s1 \<noteq> PWF_STREAM_STATE_RUNNING then (PWF_OK, s1)
          else
            let s2 = emit [Loop_lock] s1;
                s3 = (if drain
                      then
                        (case loop_wait drained stream_dispatch (fst sched) (snd sched)
                                (emit [Stream_flush (pw_stream s2)] (s2\<lparr>drained := False\<rparr>)) of
                           (True, t) \<Rightarrow> t
                         | (False, t) \<Rightarrow> emit [Log PWF_LOG_WARNING] t)
                      else s2)
            in (PWF_OK, (emit [Stream_set_active (pw_stream s3) False, Loop_unlock] s3)
                          \<lparr>state := PWF_STREAM_STATE_STOPPED\<rparr>))"

definition pwf_stream_stop where
  "pwf_stream_stop th sched drain = on_handle PWF_ERR_INVALID_ARG (stream_stop th sched drain)"

section \<open>Destroying\<close>

text \<open>
  The result says whether the stream was destroyed; \<open>events\<close> are those \<open>pw_stream_destroy\<close>
  dispatches. The freed stream is returned for what its calls show.
\<close>

definition stream_destroy ::
    "pwf_thread \<Rightarrow> stream_event list \<Rightarrow> pw_global \<Rightarrow> pwf_stream \<Rightarrow> bool \<times> pwf_stream \<times> pw_global" where
  "stream_destroy th events g s =
     (case pwf_stream_refuse_in_callback th True s of
        (True, s1) \<Rightarrow> (False, s1, g)
      | (False, s1) \<Rightarrow>
          let s2 = (if state s1 = PWF_STREAM_STATE_RUNNING then snd (stream_stop th ([], []) False s1) else s1);
              s3 = pwf_stream_release_links s2;
              s4 = (if loop (conn s3) \<noteq> None
                    then (case pwf_pw_registry_teardown (registry s3) of
                            (reg, cs) \<Rightarrow> emit ([Loop_lock] @ cs @ [Loop_unlock]) (s3\<lparr>registry := reg\<rparr>))
                    else s3);
              s5 = pwf_stream_teardown events s4
          in (True, s5\<lparr>target := None, role := None\<rparr>, pwf_pw_global_deinit g))"

definition pwf_stream_destroy ::
    "pwf_thread \<Rightarrow> stream_event list \<Rightarrow> pw_global \<Rightarrow> pwf_stream option \<Rightarrow> pwf_stream option \<times> pw_global" where
  "pwf_stream_destroy th events g h =
     (case h of
        None \<Rightarrow> (None, g)
      | Some s \<Rightarrow> (case stream_destroy th events g s of
            (True, _, g1) \<Rightarrow> (None, g1)
          | (False, s1, g1) \<Rightarrow> (Some s1, g1)))"

end
