(* ===== verification/Pwf_Stream_Facts.thy ===== *)
theory Pwf_Stream_Facts
  imports Pwf_Stream
begin

text \<open>
  What holds of a stream between its calls: the well-formedness invariant with its preservation by
  every call and every event, the balance of the loop lock, and how many errors can be reported.
\<close>

section \<open>Well-formedness\<close>

definition format_ok :: "pwf_stream \<Rightarrow> bool" where
  "format_ok s =
     (case stream_format s of
        Format_zero \<Rightarrow> \<not> format_set s
      | Format_audio a \<Rightarrow>
          format_set s \<and> stream_type s = PWF_DATA_AUDIO \<and> 0 < au_sample_rate a \<and> 0 < au_channels a \<and>
          au_format a \<noteq> SPA_AUDIO_FORMAT_UNKNOWN \<and>
          bytes_per_frame s = pwf_audio_bytes_per_frame (au_format a) (au_channels a)
      | Format_video v \<Rightarrow>
          format_set s \<and> stream_type s = PWF_DATA_VIDEO \<and> 0 < vi_width v \<and> 0 < vi_height v \<and>
          vi_format v \<noteq> SPA_VIDEO_FORMAT_UNKNOWN)"

definition stream_ok :: "pwf_stream \<Rightarrow> bool" where
  "stream_ok s \<longleftrightarrow>
     loop (conn s) \<noteq> None \<and> core (conn s) \<and> registry_ok (registry s) \<and>
     (\<not> autoconnect s \<longrightarrow> target s = None) \<and> target s \<noteq> Some [] \<and> role s \<noteq> Some [] \<and>
     (direction s = PWF_STREAM_DIRECTION_PLAYBACK \<longrightarrow> stream_type s = PWF_DATA_AUDIO \<and> playback_cb s) \<and>
     (direction s = PWF_STREAM_DIRECTION_CAPTURE \<longrightarrow> data_cb s) \<and>
     (format_set s \<longleftrightarrow> state s \<noteq> PWF_STREAM_STATE_CREATED) \<and>
     (use_dmabuf s \<longrightarrow> stream_type s = PWF_DATA_VIDEO \<and> pw_stream s \<noteq> None) \<and>
     format_ok s"

lemma format_ok_cong:
  "format_set t = format_set s \<Longrightarrow> stream_format t = stream_format s \<Longrightarrow> stream_type t = stream_type s \<Longrightarrow>
     bytes_per_frame t = bytes_per_frame s \<Longrightarrow> format_ok t = format_ok s"
  by (simp add: format_ok_def cong: pwf_stream_format.case_cong)

lemma stream_ok_frame:
  assumes "stream_ok s" and set: "same_settings s t" and "only_stops s t" and "same_client s t"
  shows "stream_ok t"
proof -
  have "format_ok t = format_ok s"
    by (rule format_ok_cong) (use set in \<open>simp_all add: same_settings_def\<close>)
  moreover have "state t = PWF_STREAM_STATE_CREATED \<longleftrightarrow> state s = PWF_STREAM_STATE_CREATED"
    using assms(3) by (auto simp: only_stops_def)
  moreover have "loop (conn t) = loop (conn s)" "core (conn t) = core (conn s)"
      "registry_ok (registry s) \<longrightarrow> registry_ok (registry t)"
    using assms(4) by (simp_all add: same_client_def)
  ultimately show ?thesis
    using assms(1) set unfolding stream_ok_def same_settings_def by simp
qed

interpretation stream_ok_loop: loop_client stream_dispatch stream_ok
  by unfold_locales
     (blast intro: stream_ok_frame stream_dispatch_settings stream_dispatch_state stream_dispatch_client)

lemma format_ok_update [simp]:
  "format_ok (emit cs s) = format_ok s" "format_ok (s\<lparr>drained := b\<rparr>) = format_ok s"
  "format_ok (s\<lparr>links := l\<rparr>) = format_ok s" "format_ok (s\<lparr>use_dmabuf := b\<rparr>) = format_ok s"
  "format_ok (s\<lparr>pw_stream := p\<rparr>) = format_ok s" "format_ok (s\<lparr>state := st\<rparr>) = format_ok s"
  "format_ok (s\<lparr>target := t\<rparr>) = format_ok s" "format_ok (s\<lparr>role := t\<rparr>) = format_ok s"
  "format_ok (s\<lparr>autoconnect := b\<rparr>) = format_ok s" "format_ok (s\<lparr>error_cb := b\<rparr>) = format_ok s"
  "format_ok (s\<lparr>registry := r\<rparr>) = format_ok s" "format_ok (s\<lparr>conn := k\<rparr>) = format_ok s"
  "format_ok (fault f s) = format_ok s"
  by (simp_all add: format_ok_def fault_def cong: pwf_stream_format.case_cong)

lemma stream_ok_update [simp]:
  "stream_ok (emit cs s) = stream_ok s" "stream_ok (s\<lparr>drained := b\<rparr>) = stream_ok s"
  "stream_ok (s\<lparr>links := l\<rparr>) = stream_ok s" "stream_ok (s\<lparr>error_cb := b\<rparr>) = stream_ok s"
  by (simp_all add: stream_ok_def)

lemma stream_ok_no_dmabuf: "stream_ok s \<Longrightarrow> stream_ok (s\<lparr>use_dmabuf := False\<rparr>)"
  by (simp add: stream_ok_def)

lemma stream_ok_pw_stream: "stream_ok s \<Longrightarrow> \<not> use_dmabuf s \<Longrightarrow> stream_ok (s\<lparr>pw_stream := p\<rparr>)"
  by (simp add: stream_ok_def)

lemma stops_client_update [simp]:
  "only_stops (s\<lparr>pw_stream := p\<rparr>) t = only_stops s t" "only_stops (s\<lparr>use_dmabuf := b\<rparr>) t = only_stops s t"
  "only_stops (emit cs s) t = only_stops s t" "only_stops s (emit cs t) = only_stops s t"
  "only_stops s (t\<lparr>pw_stream := p\<rparr>) = only_stops s t"
  "same_client (s\<lparr>pw_stream := p\<rparr>) t = same_client s t" "same_client (s\<lparr>use_dmabuf := b\<rparr>) t = same_client s t"
  "same_client s (t\<lparr>pw_stream := p\<rparr>) = same_client s t"
  by (simp_all add: only_stops_def same_client_def)

lemma refuse_frame:
  "pwf_stream_refuse_in_callback th b s = (r, s') \<Longrightarrow>
     s' = (if r then emit [Log PWF_LOG_ERROR] s else s)"
  by (auto simp: pwf_stream_refuse_in_callback_def Let_def)

section \<open>Connecting\<close>

lemma fold_dispatch_settings: "same_settings s (fold stream_dispatch evs s)"
  by (rule stream_settings.fold_inv) simp

lemma fold_dispatch_client: "same_client s (fold stream_dispatch evs s)"
  by (rule stream_loop.same.fold_inv) simp

lemma fold_dispatch_state: "only_stops s (fold stream_dispatch evs s)"
  by (rule stream_stops.fold_inv) simp

lemma destroy_pw_stream_frame:
  assumes "s' = destroy_pw_stream evs s"
  shows "pw_stream s' = None" "held s' = held s" "only_stops s s'"
    "same_client s s'" "same_settings (s\<lparr>pw_stream := None\<rparr>) s'"
proof -
  let ?s1 = "emit [Stream_destroy (pw_stream s)] s"
  define t where "t = fold stream_dispatch evs ?s1"
  have s': "s' = t\<lparr>pw_stream := None\<rparr>" using assms by (simp add: destroy_pw_stream_def t_def Let_def)
  have t: "same_client ?s1 t" "same_settings ?s1 t" "only_stops ?s1 t"
    unfolding t_def by (rule fold_dispatch_client fold_dispatch_settings fold_dispatch_state)+
  show "pw_stream s' = None" using s' by simp
  show "held s' = held s" "same_client s s'" using s' t(1) by (simp_all add: same_client_def)
  show "only_stops s s'" using s' t(3) by (simp add: only_stops_def)
  show "same_settings (s\<lparr>pw_stream := None\<rparr>) s'" using s' t(2) by (simp add: same_settings_def)
qed

lemma destroy_pw_stream_ok:
  assumes "stream_ok s" and "\<not> use_dmabuf s"
  shows "stream_ok (destroy_pw_stream evs s)"
proof (rule stream_ok_frame)
  show "stream_ok (s\<lparr>pw_stream := None\<rparr>)" using assms by (rule stream_ok_pw_stream)
qed (simp_all add: destroy_pw_stream_frame [OF refl])

text \<open>The stream before the new connection is made, and every way the connection can end.\<close>

definition disconnected :: "stream_connect_env \<Rightarrow> pwf_stream \<Rightarrow> pwf_stream" where
  "disconnected env s =
     (if pw_stream s \<noteq> None
      then emit [Loop_unlock]
             (destroy_pw_stream (destroy_events env) (emit [Loop_lock] (s\<lparr>use_dmabuf := False\<rparr>)))
      else s)"

lemma disconnected_frame:
  shows "pw_stream (disconnected env s) = None" "held (disconnected env s) = held s"
    "only_stops s (disconnected env s)" "same_client s (disconnected env s)"
    "same_settings (s\<lparr>pw_stream := None, use_dmabuf := use_dmabuf (disconnected env s)\<rparr>) (disconnected env s)"
proof -
  define d where "d = destroy_pw_stream (destroy_events env) (emit [Loop_lock] (s\<lparr>use_dmabuf := False\<rparr>))"
  note fr = destroy_pw_stream_frame [OF d_def]
  show "pw_stream (disconnected env s) = None" "held (disconnected env s) = held s"
    "only_stops s (disconnected env s)"
    using fr(1,2,3) by (simp_all add: disconnected_def d_def [symmetric])
  show "same_client s (disconnected env s)"
    using fr(2,4) by (auto simp: disconnected_def d_def [symmetric] same_client_def)
  show "same_settings (s\<lparr>pw_stream := None, use_dmabuf := use_dmabuf (disconnected env s)\<rparr>) (disconnected env s)"
    using fr(5) by (auto simp: disconnected_def d_def [symmetric] same_settings_def)
qed

lemma disconnected_ok:
  assumes "stream_ok s"
  shows "stream_ok (disconnected env s)" "\<not> use_dmabuf (disconnected env s)"
proof -
  let ?t = "emit [Loop_lock] (s\<lparr>use_dmabuf := False\<rparr>)"
  have t: "stream_ok ?t" "\<not> use_dmabuf ?t" using stream_ok_no_dmabuf [OF assms] by simp_all
  then show "stream_ok (disconnected env s)"
    using destroy_pw_stream_ok [OF t] assms by (simp add: disconnected_def)
  show "\<not> use_dmabuf (disconnected env s)"
    using destroy_pw_stream_frame(5) [OF refl, of ?t "destroy_events env"] t assms
    by (auto simp: disconnected_def same_settings_def stream_ok_def)
qed

lemma internal_connect_cases:
  obtains (no_stream) "pwf_stream_internal_connect env params dmabuf s =
      (PWF_ERR_CONNECT_FAILED, emit [Loop_lock, Stream_new (stream_props (disconnected env s)), Loop_unlock, Log PWF_LOG_ERROR]
         (disconnected env s))"
      "new_pw_stream env = None"
  | (refused) p where "new_pw_stream env = Some p" "connect_res env < 0"
      "pwf_stream_internal_connect env params dmabuf s =
         (PWF_ERR_CONNECT_FAILED, emit [Loop_unlock, Log PWF_LOG_ERROR]
            (destroy_pw_stream (failed_events env)
              (emit [Loop_lock, Stream_new (stream_props (disconnected env s)),
                     Stream_connect (Some p)
                       (if direction s = PWF_STREAM_DIRECTION_PLAYBACK then SPA_DIRECTION_OUTPUT else SPA_DIRECTION_INPUT)
                       (\<not> dmabuf) (autoconnect s) params]
                ((disconnected env s)\<lparr>pw_stream := Some p\<rparr>))))"
  | (connected) p where "new_pw_stream env = Some p" "0 \<le> connect_res env"
      "pwf_stream_internal_connect env params dmabuf s =
         (PWF_OK, emit [Loop_lock, Stream_new (stream_props (disconnected env s)),
                     Stream_connect (Some p)
                       (if direction s = PWF_STREAM_DIRECTION_PLAYBACK then SPA_DIRECTION_OUTPUT else SPA_DIRECTION_INPUT)
                       (\<not> dmabuf) (autoconnect s) params,
                     Stream_set_active (Some p) False, Loop_unlock]
                ((disconnected env s)\<lparr>pw_stream := Some p, use_dmabuf := dmabuf\<rparr>))"
proof -
  have fr: "direction (disconnected env s) = direction s" "autoconnect (disconnected env s) = autoconnect s"
      "pw_stream (disconnected env s) = None"
    using disconnected_frame(1,5) [where env = env and s = s] by (simp_all add: same_settings_def)
  have same: "(disconnected env s)\<lparr>pw_stream := None\<rparr> = disconnected env s"
    using fr(3) by (cases "disconnected env s") simp
  note unfold = pwf_stream_internal_connect_def [folded disconnected_def] Let_def fr emit_def
  show thesis
  proof (cases "new_pw_stream env")
    case None
    with that(1) same show thesis by (simp add: unfold)
  next
    case (Some p)
    show thesis
    proof (cases "connect_res env < 0")
      case True
      with Some that(2) show thesis by (simp add: unfold)
    next
      case False
      with Some that(3) show thesis by (simp add: unfold)
    qed
  qed
qed

lemma internal_connect_frame:
  assumes "pwf_stream_internal_connect env params dmabuf s = (res, t)"
  shows "held t = held s" "only_stops s t" "same_client s t"
    "res = PWF_OK \<and> pw_stream t \<noteq> None \<and> pw_stream t = new_pw_stream env \<and> use_dmabuf t = dmabuf \<or>
     res = PWF_ERR_CONNECT_FAILED \<and> pw_stream t = None"
    "same_settings (s\<lparr>pw_stream := pw_stream t, use_dmabuf := use_dmabuf t\<rparr>) t"
    "stream_ok s \<Longrightarrow> (dmabuf \<Longrightarrow> stream_type s = PWF_DATA_VIDEO) \<Longrightarrow> stream_ok t"
proof -
  let ?d = "disconnected env s"
  note d = disconnected_frame [where env = env and s = s]
  have type: "stream_type ?d = stream_type s" using d(5) by (simp add: same_settings_def)
  note [simp] = d(1,2,3)
  have "held t = held s \<and> only_stops s t \<and> same_client s t \<and>
    (res = PWF_OK \<and> pw_stream t \<noteq> None \<and> pw_stream t = new_pw_stream env \<and> use_dmabuf t = dmabuf \<or>
     res = PWF_ERR_CONNECT_FAILED \<and> pw_stream t = None) \<and>
    same_settings (s\<lparr>pw_stream := pw_stream t, use_dmabuf := use_dmabuf t\<rparr>) t \<and>
    (stream_ok s \<longrightarrow> (dmabuf \<longrightarrow> stream_type s = PWF_DATA_VIDEO) \<longrightarrow> stream_ok t)"
  proof (cases rule: internal_connect_cases [of env params dmabuf s])
    case no_stream
    then have "res = PWF_ERR_CONNECT_FAILED"
      "t = emit [Loop_lock, Stream_new (stream_props ?d), Loop_unlock, Log PWF_LOG_ERROR] ?d"
      using assms by simp_all
    then show ?thesis using d(4,5) disconnected_ok [of s env]
      by (auto simp: same_client_def same_settings_def)
  next
    case (refused p)
    define u where "u = emit [Loop_lock, Stream_new (stream_props ?d), Stream_connect (Some p)
        (if direction s = PWF_STREAM_DIRECTION_PLAYBACK then SPA_DIRECTION_OUTPUT else SPA_DIRECTION_INPUT)
        (\<not> dmabuf) (autoconnect s) params] (?d\<lparr>pw_stream := Some p\<rparr>)"
    define v where "v = destroy_pw_stream (failed_events env) u"
    note v = destroy_pw_stream_frame [OF v_def]
    have t: "res = PWF_ERR_CONNECT_FAILED" "t = emit [Loop_unlock, Log PWF_LOG_ERROR] v"
      using assms refused by (simp_all add: v_def u_def)
    have stops: "only_stops s t" using v(3) d(3) only_stops_trans [of s u v] t by (simp add: u_def)
    have client: "same_client s t" using v(4) d(2,4) t by (auto simp: u_def same_client_def)
    have ok: "stream_ok s \<Longrightarrow> stream_ok t"
      using disconnected_ok [of s env] stream_ok_pw_stream [of ?d "Some p"] destroy_pw_stream_ok [of u] t
      by (simp add: u_def v_def)
    have settings: "same_settings (s\<lparr>pw_stream := pw_stream t, use_dmabuf := use_dmabuf t\<rparr>) t"
      using v(5) d(5) t by (simp add: u_def same_settings_def)
    show ?thesis using stops client ok settings v(1,2) d(2) t by (simp add: u_def)
  next
    case (connected p)
    then have t: "res = PWF_OK" "t = emit [Loop_lock, Stream_new (stream_props ?d),
        Stream_connect (Some p)
          (if direction s = PWF_STREAM_DIRECTION_PLAYBACK then SPA_DIRECTION_OUTPUT else SPA_DIRECTION_INPUT)
          (\<not> dmabuf) (autoconnect s) params,
        Stream_set_active (Some p) False, Loop_unlock] (?d\<lparr>pw_stream := Some p, use_dmabuf := dmabuf\<rparr>)"
      using assms by simp_all
    have ok: "stream_ok (?d\<lparr>pw_stream := Some p, use_dmabuf := dmabuf\<rparr>)"
      if "stream_ok s" "dmabuf \<longrightarrow> stream_type s = PWF_DATA_VIDEO"
      using disconnected_ok(1) [OF that(1), of env] that(2) type by (simp add: stream_ok_def)
    have "only_stops s t" using d(3) t(2) by (simp add: only_stops_def)
    moreover have "same_client s t" using d(4) t(2) by (simp add: same_client_def)
    moreover have "same_settings (s\<lparr>pw_stream := pw_stream t, use_dmabuf := use_dmabuf t\<rparr>) t"
      using d(5) t(2) by (simp add: same_settings_def)
    moreover have "stream_ok s \<longrightarrow> (dmabuf \<longrightarrow> stream_type s = PWF_DATA_VIDEO) \<longrightarrow> stream_ok t"
      using ok t(2) by simp
    ultimately show ?thesis using t d(2) connected(1) by simp
  qed
  then show "held t = held s" "only_stops s t" "same_client s t"
    "res = PWF_OK \<and> pw_stream t \<noteq> None \<and> pw_stream t = new_pw_stream env \<and> use_dmabuf t = dmabuf \<or>
     res = PWF_ERR_CONNECT_FAILED \<and> pw_stream t = None"
    "same_settings (s\<lparr>pw_stream := pw_stream t, use_dmabuf := use_dmabuf t\<rparr>) t"
    "stream_ok s \<Longrightarrow> (dmabuf \<Longrightarrow> stream_type s = PWF_DATA_VIDEO) \<Longrightarrow> stream_ok t"
    by simp_all
qed

section \<open>Every call keeps the invariant and gives the lock back\<close>

text \<open>
  A call is well behaved when it returns with the loop lock held as deep as before, keeps the
  connection and the registry's bounds, and keeps \<open>stream_ok\<close>.
\<close>

definition well_behaved :: "pwf_stream \<Rightarrow> pwf_stream \<Rightarrow> bool" where
  "well_behaved s t \<longleftrightarrow>
     held t = held s \<and> loop (conn t) = loop (conn s) \<and> core (conn t) = core (conn s) \<and>
     (stream_ok s \<longrightarrow> stream_ok t)"

lemma well_behaved_refl [simp]: "well_behaved s s"
  by (simp add: well_behaved_def)

lemma well_behaved_trans: "well_behaved a b \<Longrightarrow> well_behaved b c \<Longrightarrow> well_behaved a c"
  by (simp add: well_behaved_def)

lemma well_behaved_emit: "lock_depth cs = 0 \<Longrightarrow> well_behaved s (emit cs t) = well_behaved s t"
  by (simp add: well_behaved_def)

lemma well_behaved_log [simp]: "well_behaved s (emit [Log n] t) = well_behaved s t"
  by (rule well_behaved_emit) simp

lemma well_behaved_refuse:
  "pwf_stream_refuse_in_callback th b s = (r, s') \<Longrightarrow> well_behaved s s'"
  by (auto dest: refuse_frame)

lemma stream_dispatch_well_behaved: "well_behaved s (stream_dispatch e s)"
  using stream_dispatch_client [of s e] stream_ok_loop.dispatch_inv [of s e]
  by (simp add: well_behaved_def same_client_def)

lemma stream_set_audio_config_well_behaved:
  "well_behaved s (snd (stream_set_audio_config th env config s))"
proof (cases config)
  case None
  then show ?thesis by (simp add: stream_set_audio_config_def)
next
  case (Some cfg)
  obtain r s1 where r: "pwf_stream_refuse_in_callback th True s = (r, s1)" by fastforce
  let ?fmt = "audio_config_format cfg"
  obtain res s2 where c: "pwf_stream_internal_connect env
      [pwf_spa_build_audio_format cfg ?fmt, pwf_spa_build_meta_header, pwf_spa_build_cpu_buffers] False s1 = (res, s2)"
    by fastforce
  note f = internal_connect_frame [OF c]
  have set: "same_settings (s1\<lparr>pw_stream := pw_stream s2, use_dmabuf := use_dmabuf s2\<rparr>) s2" by (rule f(5))
  have s12: "well_behaved s1 s2"
    using f(1,3,6) by (simp add: well_behaved_def same_client_def)
  define s3 where "s3 = s2\<lparr>stream_format := Format_audio
      \<lparr>au_sample_rate = sample_rate cfg, au_channels = channels cfg, au_format = ?fmt\<rparr>,
      bytes_per_frame := pwf_audio_bytes_per_frame ?fmt (channels cfg),
      format_set := True, state := PWF_STREAM_STATE_FORMAT_SET\<rparr>"
  have eq: "stream_set_audio_config th env config s =
     (if stream_type s \<noteq> PWF_DATA_AUDIO then (PWF_ERR_INVALID_ARG, s)
      else if r then (PWF_ERR_IN_CALLBACK, s1)
      else if sample_rate cfg \<le> 0 \<or> channels cfg \<le> 0 then (PWF_ERR_INVALID_FORMAT, s1)
      else if ?fmt = SPA_AUDIO_FORMAT_UNKNOWN then (PWF_ERR_INVALID_FORMAT, s1)
      else if failed res then (res, s2) else (PWF_OK, s3))"
    using Some r c by (cases r) (simp_all add: stream_set_audio_config_def Let_def s3_def)
  have "well_behaved s2 s3"
    if "stream_type s = PWF_DATA_AUDIO" "0 < sample_rate cfg" "0 < channels cfg" "?fmt \<noteq> SPA_AUDIO_FORMAT_UNKNOWN" "\<not> r"
  proof -
    have "stream_type s2 = PWF_DATA_AUDIO"
      using set that(1,5) refuse_frame [OF r] by (simp add: same_settings_def)
    with that show ?thesis
      by (auto simp: s3_def well_behaved_def held_def stream_ok_def format_ok_def)
  qed
  then have "well_behaved s s3"
    if "stream_type s = PWF_DATA_AUDIO" "0 < sample_rate cfg" "0 < channels cfg" "?fmt \<noteq> SPA_AUDIO_FORMAT_UNKNOWN" "\<not> r"
    using that s12 well_behaved_refuse [OF r] well_behaved_trans by blast
  moreover have "well_behaved s s2" "well_behaved s s1"
    using s12 well_behaved_refuse [OF r] well_behaved_trans by blast+
  ultimately show ?thesis unfolding eq by auto
qed

lemma stream_set_video_config_ex_well_behaved:
  "well_behaved s (snd (stream_set_video_config_ex th env config opts s))"
proof (cases "\<exists>cfg name. config = Some cfg \<and> cfg_pixel_format cfg = Some name")
  case False
  then show ?thesis by (auto simp: stream_set_video_config_ex_def split: option.split)
next
  case True
  then obtain cfg name where cfg: "config = Some cfg" "cfg_pixel_format cfg = Some name" by blast
  obtain r s1 where r: "pwf_stream_refuse_in_callback th True s = (r, s1)" by fastforce
  define dmabuf where "dmabuf \<longleftrightarrow> opts = Some PWF_PORT_MEMORY_DMABUF"
  define fmt where "fmt = video_config_format name"
  define params where "params = video_config_params cfg name fmt dmabuf"
  obtain res s2 where c: "pwf_stream_internal_connect env params dmabuf s1 = (res, s2)" by fastforce
  define s3 where "s3 = s2\<lparr>stream_format := Format_video
      \<lparr>vi_width = cfg_width cfg, vi_height = cfg_height cfg, vi_format = fmt\<rparr>,
      format_set := True, state := PWF_STREAM_STATE_FORMAT_SET\<rparr>"
  have eq: "stream_set_video_config_ex th env config opts s =
     (if stream_type s \<noteq> PWF_DATA_VIDEO then (PWF_ERR_INVALID_ARG, s)
      else if r then (PWF_ERR_IN_CALLBACK, s1)
      else if direction s1 \<noteq> PWF_STREAM_DIRECTION_CAPTURE then (PWF_ERR_INVALID_ARG, s1)
      else if cfg_width cfg \<le> 0 \<or> cfg_height cfg \<le> 0 \<or> cfg_fps cfg < 0 then (PWF_ERR_INVALID_FORMAT, s1)
      else if video_name_encoded name \<and> dmabuf then (PWF_ERR_INVALID_ARG, s1)
      else if fmt = SPA_VIDEO_FORMAT_UNKNOWN then (PWF_ERR_INVALID_FORMAT, s1)
      else if failed res then (res, s2) else (PWF_OK, s3))"
    using cfg r c
    by (cases r) (simp_all add: stream_set_video_config_ex_def Let_def dmabuf_def [symmetric]
        fmt_def [symmetric] params_def [symmetric] s3_def)
  note f = internal_connect_frame [OF c]
  have s1: "well_behaved s s1" by (rule well_behaved_refuse [OF r])
  show ?thesis
  proof (cases "stream_type s = PWF_DATA_VIDEO \<and> \<not> r")
    case False
    then show ?thesis using s1 unfolding eq by auto
  next
    case True
    then have s1s: "s1 = s" using refuse_frame [OF r] by simp
    have s2: "well_behaved s s2"
      using f(1,3,6) True s1s by (simp add: well_behaved_def same_client_def)
    have ty: "stream_type s2 = PWF_DATA_VIDEO" using f(5) True s1s by (simp add: same_settings_def)
    have "well_behaved s s3"
      if "0 < cfg_width cfg" "0 < cfg_height cfg" "fmt \<noteq> SPA_VIDEO_FORMAT_UNKNOWN"
      using that ty s2 by (auto simp: s3_def well_behaved_def held_def stream_ok_def format_ok_def)
    with s1 s2 show ?thesis unfolding eq by auto
  qed
qed

lemma replace_string_cases:
  "pwf_stream_replace_string ok v slot = (PWF_OK, if v = Some [] then None else v) \<or>
   pwf_stream_replace_string ok v slot = (PWF_ERR_NO_MEMORY, slot)"
  by (auto simp: pwf_stream_replace_string_def split: option.split)

lemma stream_set_autoconnect_well_behaved: "well_behaved s (snd (stream_set_autoconnect b s))"
  by (auto simp: stream_set_autoconnect_def well_behaved_def stream_ok_def)

lemma set_string_well_behaved:
  "(\<not> autoconnect s \<Longrightarrow> t = None) \<Longrightarrow> t \<noteq> Some [] \<Longrightarrow> well_behaved s (s\<lparr>target := t\<rparr>)"
  "t \<noteq> Some [] \<Longrightarrow> well_behaved s (s\<lparr>role := t\<rparr>)"
  by (simp_all add: well_behaved_def stream_ok_def)

lemma stream_set_target_well_behaved: "well_behaved s (snd (stream_set_target ok t s))"
proof (cases "t \<noteq> None \<and> t \<noteq> Some [] \<and> \<not> autoconnect s")
  case True
  then show ?thesis by (simp add: stream_set_target_def)
next
  case False
  have keep: "s\<lparr>target := target s\<rparr> = s" by simp
  from replace_string_cases [of ok t "target s"] show ?thesis
  proof
    assume r: "pwf_stream_replace_string ok t (target s) = (PWF_OK, if t = Some [] then None else t)"
    have "well_behaved s (s\<lparr>target := if t = Some [] then None else t\<rparr>)"
      by (rule set_string_well_behaved) (use False in auto)
    with False r show ?thesis by (simp only: stream_set_target_def) simp
  next
    assume "pwf_stream_replace_string ok t (target s) = (PWF_ERR_NO_MEMORY, target s)"
    with False keep show ?thesis by (simp only: stream_set_target_def) simp
  qed
qed

lemma stream_set_role_well_behaved: "well_behaved s (snd (stream_set_role ok t s))"
proof -
  have keep: "s\<lparr>role := role s\<rparr> = s" by simp
  from replace_string_cases [of ok t "role s"] show ?thesis
  proof
    assume r: "pwf_stream_replace_string ok t (role s) = (PWF_OK, if t = Some [] then None else t)"
    have "well_behaved s (s\<lparr>role := if t = Some [] then None else t\<rparr>)"
      by (rule set_string_well_behaved) auto
    with r show ?thesis by (simp only: stream_set_role_def) simp
  next
    assume "pwf_stream_replace_string ok t (role s) = (PWF_ERR_NO_MEMORY, role s)"
    with keep show ?thesis by (simp only: stream_set_role_def) simp
  qed
qed

lemma stream_start_well_behaved: "well_behaved s (snd (stream_start th s))"
  by (auto simp: stream_start_def pwf_stream_refuse_in_callback_def Let_def well_behaved_def stream_ok_def)

text \<open>The draining wait of a stop.\<close>

definition drain_wait :: "stream_event schedule \<Rightarrow> pwf_stream \<Rightarrow> bool \<times> pwf_stream" where
  "drain_wait sched s =
     loop_wait drained stream_dispatch (fst sched) (snd sched)
       (emit [Stream_flush (pw_stream s)] ((emit [Loop_lock] s)\<lparr>drained := False\<rparr>))"

lemma drain_wait_frame:
  assumes "drain_wait sched s = (b, t)"
  shows "held t = held s + 1" "only_stops s t" "same_settings s t"
    "loop (conn t) = loop (conn s)" "core (conn t) = core (conn s)" "stream_ok s \<Longrightarrow> stream_ok t"
proof -
  let ?u = "emit [Stream_flush (pw_stream s)] ((emit [Loop_lock] s)\<lparr>drained := False\<rparr>)"
  have w: "loop_wait drained stream_dispatch (fst sched) (snd sched) ?u = (b, t)"
    using assms by (simp add: drain_wait_def)
  have "same_client ?u t" by (rule stream_loop.same.wait_inv_pair [OF _ w]) simp
  then show "held t = held s + 1" "loop (conn t) = loop (conn s)" "core (conn t) = core (conn s)"
    by (simp_all add: same_client_def)
  have "only_stops ?u t" by (rule stream_stops.wait_inv_pair [OF _ w]) simp
  then show "only_stops s t" by (simp add: only_stops_def)
  have "same_settings ?u t" by (rule stream_settings.wait_inv_pair [OF _ w]) simp
  then show "same_settings s t" by (simp add: same_settings_def)
  show "stream_ok t" if "stream_ok s"
    by (rule stream_ok_loop.wait_inv_pair [OF _ w]) (use that in simp)
qed

lemma stream_stop_eq:
  "stream_stop th sched drain s =
     (case pwf_stream_refuse_in_callback th drain s of
        (True, s1) \<Rightarrow> (PWF_ERR_IN_CALLBACK, s1)
      | (False, s1) \<Rightarrow>
          if state s1 \<noteq> PWF_STREAM_STATE_RUNNING then (PWF_OK, s1)
          else
            let s3 = (if drain
                      then (case drain_wait sched s1 of
                              (True, t) \<Rightarrow> t | (False, t) \<Rightarrow> emit [Log PWF_LOG_WARNING] t)
                      else emit [Loop_lock] s1)
            in (PWF_OK, (emit [Stream_set_active (pw_stream s3) False, Loop_unlock] s3)
                          \<lparr>state := PWF_STREAM_STATE_STOPPED\<rparr>))"
  by (simp add: stream_stop_def drain_wait_def Let_def split: prod.split bool.split)

lemma stream_ok_stopped:
  "stream_ok u \<Longrightarrow> state u \<noteq> PWF_STREAM_STATE_CREATED \<Longrightarrow> stream_ok (u\<lparr>state := PWF_STREAM_STATE_STOPPED\<rparr>)"
  by (simp add: stream_ok_def)

lemma stop_end_well_behaved:
  assumes "held t = held s + 1" and "loop (conn t) = loop (conn s)" and "core (conn t) = core (conn s)"
    and "stream_ok s \<Longrightarrow> stream_ok t" and "state t \<noteq> PWF_STREAM_STATE_CREATED"
  shows "well_behaved s ((emit [Stream_set_active p False, Loop_unlock] t)\<lparr>state := PWF_STREAM_STATE_STOPPED\<rparr>)"
  using assms stream_ok_stopped [of "emit [Stream_set_active p False, Loop_unlock] t"]
  by (simp add: well_behaved_def)

lemma stream_stop_well_behaved: "well_behaved s (snd (stream_stop th sched drain s))"
proof -
  obtain r s1 where r: "pwf_stream_refuse_in_callback th drain s = (r, s1)" by fastforce
  obtain b t where d: "drain_wait sched s1 = (b, t)" by fastforce
  have s1: "well_behaved s s1" by (rule well_behaved_refuse [OF r])
  define t' where "t' = (if b then t else emit [Log PWF_LOG_WARNING] t)"
  define u where "u = (if drain then t' else emit [Loop_lock] s1)"
  have eq: "stream_stop th sched drain s =
    (if r then (PWF_ERR_IN_CALLBACK, s1)
     else if state s1 \<noteq> PWF_STREAM_STATE_RUNNING then (PWF_OK, s1)
     else (PWF_OK, (emit [Stream_set_active (pw_stream u) False, Loop_unlock] u)\<lparr>state := PWF_STREAM_STATE_STOPPED\<rparr>))"
    using r d by (cases r; cases b) (simp_all add: stream_stop_eq u_def t'_def Let_def)
  have u: "held u = held s1 + 1" "loop (conn u) = loop (conn s1)" "core (conn u) = core (conn s1)"
    "stream_ok s1 \<Longrightarrow> stream_ok u"
    using drain_wait_frame [OF d] by (simp_all add: u_def t'_def)
  have st: "state s1 = PWF_STREAM_STATE_RUNNING \<Longrightarrow> state u \<noteq> PWF_STREAM_STATE_CREATED"
    using drain_wait_frame(2) [OF d] by (auto simp: u_def t'_def only_stops_def)
  have "well_behaved s1 ((emit [Stream_set_active (pw_stream u) False, Loop_unlock] u)\<lparr>state := PWF_STREAM_STATE_STOPPED\<rparr>)"
    if "state s1 = PWF_STREAM_STATE_RUNNING"
    by (rule stop_end_well_behaved) (use u st that in simp_all)
  with s1 show ?thesis unfolding eq using well_behaved_trans by auto
qed

section \<open>How many errors a stream reports\<close>

text \<open>
  A lost source is reported through the error callback. Losing the source stops the stream and
  losing the linked device unlinks it, so a stream owes at most one report for each.
\<close>

definition errors_reported :: "'a pwf_client_scheme \<Rightarrow> nat" where
  "errors_reported s = length (filter (\<lambda>c. case c of Error_callback _ \<Rightarrow> True | _ \<Rightarrow> False) (calls s))"

definition errors_owed :: "pwf_stream \<Rightarrow> nat" where
  "errors_owed s =
     (if state s = PWF_STREAM_STATE_RUNNING then 1 else 0) + (if links s \<noteq> None then 1 else 0)"

lemma errors_reported_emit:
  "errors_reported (emit cs s) =
     errors_reported s + length (filter (\<lambda>c. case c of Error_callback _ \<Rightarrow> True | _ \<Rightarrow> False) cs)"
  by (simp add: errors_reported_def)

lemma errors_reported_update [simp]:
  "errors_reported (s\<lparr>state := st\<rparr>) = errors_reported s" "errors_reported (s\<lparr>drained := b\<rparr>) = errors_reported s"
  "errors_reported (s\<lparr>links := l\<rparr>) = errors_reported s" "errors_reported (s\<lparr>use_dmabuf := b\<rparr>) = errors_reported s"
  "errors_reported (s\<lparr>pw_stream := p\<rparr>) = errors_reported s" "errors_reported (s\<lparr>target := t\<rparr>) = errors_reported s"
  "errors_reported (s\<lparr>role := t\<rparr>) = errors_reported s" "errors_reported (s\<lparr>registry := r\<rparr>) = errors_reported s"
  "errors_reported (s\<lparr>conn := k\<rparr>) = errors_reported s"
  by (simp_all add: errors_reported_def)

lemma no_errors_in_destroys: "filter (\<lambda>c. case c of Error_callback _ \<Rightarrow> True | _ \<Rightarrow> False) (destroy_proxies ls) = []"
  by (auto simp: destroy_proxies_def filter_empty_conv)

lemma release_links_errors [simp]: "errors_reported (pwf_stream_release_links s) = errors_reported s"
  by (simp add: pwf_stream_release_links_def errors_reported_emit no_errors_in_destroys split: option.split)

lemma on_node_removed_errors:
  "errors_reported (pwf_stream_on_node_removed i s) + errors_owed (pwf_stream_on_node_removed i s)
     \<le> errors_reported s + errors_owed s"
  using release_links_frame(2,3) [of "emit [Log PWF_LOG_WARNING] s"]
  by (auto simp: pwf_stream_on_node_removed_def call_error_cb_def errors_reported_emit errors_owed_def split: option.split)

lemma stream_dispatch_errors:
  "errors_reported (stream_dispatch e s) + errors_owed (stream_dispatch e s) \<le> errors_reported s + errors_owed s"
proof (cases e)
  case (Ev_registry ev)
  obtain reg notice where n: "registry_notify ev (registry s) = (reg, notice)" by fastforce
  have owed: "errors_owed (s\<lparr>registry := reg\<rparr>) = errors_owed s" by (simp add: errors_owed_def)
  show ?thesis
  proof (cases notice)
    case (Node_removed i)
    then show ?thesis using Ev_registry n owed on_node_removed_errors [where s = "s\<lparr>registry := reg\<rparr>" and i = i]
      by (simp add: stream_registry_event_def)
  qed (use Ev_registry n in \<open>simp_all add: stream_registry_event_def pwf_stream_on_port_added_def
         errors_reported_emit errors_owed_def\<close>)
qed (auto simp: stream_callback_defs errors_reported_emit errors_owed_def split: option.split)

lemma fold_dispatch_errors:
  "errors_reported (fold stream_dispatch evs s) + errors_owed (fold stream_dispatch evs s)
     \<le> errors_reported s + errors_owed s"
proof (induction evs arbitrary: s)
  case (Cons e evs)
  show ?case using Cons.IH [of "stream_dispatch e s"] stream_dispatch_errors [of e s] by simp
qed simp

text \<open>A stream that is neither running nor linked reports nothing, so destroying one is silent.\<close>

lemma destroy_pw_stream_errors:
  assumes "state s \<noteq> PWF_STREAM_STATE_RUNNING" and "links s = None"
  shows "errors_reported (destroy_pw_stream evs s) = errors_reported s"
proof -
  let ?u = "emit [Stream_destroy (pw_stream s)] s"
  have owed: "errors_owed ?u = 0" using assms by (simp add: errors_owed_def)
  have mono: "errors_reported t \<le> errors_reported (stream_dispatch e t)" for e t
  proof (cases e)
    case (Ev_registry ev)
    then show ?thesis
      by (auto simp: stream_registry_event_def pwf_stream_on_port_added_def pwf_stream_on_node_removed_def
          call_error_cb_def errors_reported_emit split: registry_notice.split option.split prod.split)
  qed (auto simp: stream_callback_defs errors_reported_emit split: option.split)
  have "errors_reported t \<le> errors_reported (fold stream_dispatch evs t)" for t
    by (induction evs arbitrary: t) (auto intro: order_trans mono)
  then have "errors_reported ?u \<le> errors_reported (fold stream_dispatch evs ?u)" by blast
  moreover have "errors_reported ?u = errors_reported s" by (simp add: errors_reported_emit)
  ultimately show ?thesis using fold_dispatch_errors [of evs ?u] owed
    by (simp add: destroy_pw_stream_def Let_def)
qed

end
