(* ===== verification/Pwf_Stream_Process.thy ===== *)
theory Pwf_Stream_Process
  imports Pwf_Stream_Facts "HOL-Library.Signed_Division"
begin

text \<open>
  The process callbacks of a stream, which PipeWire runs on its data thread once per cycle:
  \<^verbatim>\<open>src/pwf_buffer.c\<close> (capture), \<^verbatim>\<open>src/pwf_stream_dmabuf.c\<close> (the descriptor accessor) and
  \<^verbatim>\<open>src/pwf_stream_playback.c\<close> (playback).

  The application's callback is a parameter: it gets the thread it runs on, the buffer and the
  stream, and may call back into the library. The buffer PipeWire dequeues, the clock readings and
  the graph's time are arguments.
\<close>

section \<open>Capture\<close>

record pwf_stream_buffer =
  sb_data :: "nat option"
  sb_size :: u64
  sb_pts :: int

type_synonym data_callback = "pwf_thread \<Rightarrow> pwf_stream_buffer \<Rightarrow> pwf_stream \<Rightarrow> pwf_stream"

text \<open>The thread during a stream's callback: \<open>pwf_stream_processing\<close> names the stream.\<close>

definition callback_thread :: "pwf_thread \<Rightarrow> pwf_stream \<Rightarrow> pwf_thread" where
  "callback_thread th s = th\<lparr>pwf_stream_processing := Some (stream_id s)\<rparr>"

definition pwf_stream_deliver_dmabuf ::
    "data_callback \<Rightarrow> pwf_thread \<Rightarrow> u64 \<Rightarrow> spa_buffer \<Rightarrow> int \<Rightarrow> pwf_stream \<Rightarrow> pwf_stream" where
  "pwf_stream_deliver_dmabuf app th now buf pts s =
     (let s1 = s\<lparr>current_dmabuf_buf := Some buf, dmabuf_retrieved := False\<rparr>;
          s2 = (if data_cb s1 then app th \<lparr>sb_data = None, sb_size = 0, sb_pts = pts\<rparr> s1 else s1);
          s3 = (if dmabuf_retrieved s2 then s2
                else case rate_report now (dmabuf_unretrieved s2) of
                    (Some _, r) \<Rightarrow> emit [Log PWF_LOG_WARNING] (s2\<lparr>dmabuf_unretrieved := r\<rparr>)
                  | (None, r) \<Rightarrow> s2\<lparr>dmabuf_unretrieved := r\<rparr>)
      in s3\<lparr>current_dmabuf_buf := None\<rparr>)"

definition buffer_pts :: "spa_buffer \<Rightarrow> int" where
  "buffer_pts buf = (case header_pts buf of Some t \<Rightarrow> t | None \<Rightarrow> -1)"

text \<open>\<open>dequeued\<close> is what \<open>pw_stream_dequeue_buffer\<close> answers. \<open>datas[0]\<close> of no data is out of bounds.\<close>

definition pwf_stream_on_process ::
    "data_callback \<Rightarrow> pwf_thread \<Rightarrow> u64 \<Rightarrow> pw_buffer option \<Rightarrow> pwf_stream \<Rightarrow> pwf_stream" where
  "pwf_stream_on_process app th now dequeued s =
     (case dequeued of
        None \<Rightarrow> s
      | Some b \<Rightarrow>
          let buf = buffer b;
              pts = buffer_pts buf;
              cth = callback_thread th s;
              s1 = (if use_dmabuf s then
                      (if pwf_dmabuf_buffer_present (Some buf)
                       then pwf_stream_deliver_dmabuf app cth now buf pts s else s)
                    else
                      (case datas buf of
                         [] \<Rightarrow> fault Out_of_bounds s
                       | d # _ \<Rightarrow>
                           (case (d_data d, chunk d) of
                              (Some p, Some c) \<Rightarrow>
                                if chunk_size c > 0 \<and> data_cb s
                                then app cth \<lparr>sb_data = Some p, sb_size = ucast (chunk_size c), sb_pts = pts\<rparr> s
                                else s
                            | _ \<Rightarrow> s)))
          in emit [Stream_queue_buffer (buf_id b)] s1)"

definition stream_get_dmabuf_planes ::
    "pwf_dmabuf_plane list option \<Rightarrow> nat \<Rightarrow> pwf_stream \<Rightarrow> (nat \<times> pwf_dmabuf_plane list option) \<times> pwf_stream" where
  "stream_get_dmabuf_planes planes planes_len s =
     (case current_dmabuf_buf s of
        None \<Rightarrow> ((0, planes), s)
      | Some buf \<Rightarrow> (pwf_dmabuf_extract_planes (Some buf) planes planes_len, s\<lparr>dmabuf_retrieved := True\<rparr>))"

definition pwf_stream_get_dmabuf_planes where
  "pwf_stream_get_dmabuf_planes planes planes_len =
     on_handle (0, planes) (stream_get_dmabuf_planes planes planes_len)"

section \<open>Playback\<close>

definition pwf_stream_playback_note_overrun :: "u64 \<Rightarrow> pwf_stream \<Rightarrow> bool \<times> pwf_stream" where
  "pwf_stream_playback_note_overrun now s =
     (case pwf_rate_limited now (overrun s) of (b, r) \<Rightarrow> (b, s\<lparr>overrun := r\<rparr>))"

definition audio_rate :: "pwf_stream \<Rightarrow> int" where
  "audio_rate s = (case stream_format s of Format_audio a \<Rightarrow> au_sample_rate a | _ \<Rightarrow> 0)"

definition pwf_stream_cycle_budget_ns :: "pwf_stream \<Rightarrow> u64 \<Rightarrow> u64" where
  "pwf_stream_cycle_budget_ns s available =
     (if bytes_per_frame s = 0 \<or> audio_rate s \<le> 0 then 0
      else
        let frames = available div bytes_per_frame s
        in frames * 1000000000 div word_of_int (audio_rate s))"

text \<open>
  The playback callback: it gets the region's bytes, the bytes available and the time, and leaves
  the region with the bytes it wrote and the size it reports.
\<close>

type_synonym playback_callback =
  "pwf_thread \<Rightarrow> byte list \<Rightarrow> u64 \<Rightarrow> int \<Rightarrow> pwf_stream \<Rightarrow> (byte list \<times> u64) \<times> pwf_stream"

text \<open>\<open>memset(data + from, 0, upto - from)\<close>\<close>

definition zero_fill :: "nat \<Rightarrow> nat \<Rightarrow> byte list \<Rightarrow> byte list" where
  "zero_fill a b xs = take a xs @ replicate (b - a) 0 @ drop b xs"

definition pwf_stream_playback_fill ::
    "playback_callback \<Rightarrow> pwf_thread \<Rightarrow> u64 \<Rightarrow> u64 \<Rightarrow> byte list \<Rightarrow> u64 \<Rightarrow> int \<Rightarrow> pwf_stream \<Rightarrow>
     (u64 \<times> byte list) \<times> pwf_stream" where
  "pwf_stream_playback_fill app th started finished region available pts s =
     (case app th region available pts s of
        ((region1, buf_size), s1) \<Rightarrow>
          let (size1, s2) = (if buf_size > available then (available, emit [Log PWF_LOG_WARNING] s1)
                             else (buf_size, s1));
              size2 = (if bytes_per_frame s2 > 0 then size1 - size1 mod bytes_per_frame s2 else size1);
              region2 = (if size2 < available then zero_fill (unat size2) (unat available) region1 else region1);
              budget = pwf_stream_cycle_budget_ns s2 available;
              s3 = (if budget > 0 \<and> finished - started > budget
                    then (case pwf_stream_playback_note_overrun finished s2 of
                            (True, t) \<Rightarrow> (emit [Log PWF_LOG_WARNING] t)
                                           \<lparr>overrun := (overrun t)\<lparr>suppressed := 0\<rparr>\<rparr>
                          | (False, t) \<Rightarrow> t)
                    else s2)
          in ((size2, region2), s3))"

text \<open>\<open>struct pw_time\<close>, the fields the code reads.\<close>

record pw_time =
  t_now :: int
  t_rate_num :: u32
  t_rate_denom :: u32
  t_delay :: int
  t_queued :: u64
  t_buffered :: u64

text \<open>
  \<open>None\<close> when \<open>pw_stream_get_time_n\<close> fails. The arithmetic is that of \<open>int64_t\<close>, whose overflow C
  leaves undefined; here it is exact.
\<close>

definition pwf_stream_playback_pts :: "pw_time option \<Rightarrow> int" where
  "pwf_stream_playback_pts answer =
     (case answer of
        None \<Rightarrow> -1
      | Some t \<Rightarrow>
          if t_rate_denom t = 0 then -1
          else
            let ahead = t_delay t + sint (t_queued t) + sint (t_buffered t)
            in t_now t + (ahead * uint (t_rate_num t) * 1000000000) sdiv uint (t_rate_denom t))"

text \<open>What goes out with the buffer: its chunk, its size in frames and its region's bytes.\<close>

record published =
  pub_chunk :: spa_chunk
  pub_frames :: u64
  pub_region :: "byte list"

definition playback_available :: "pwf_stream \<Rightarrow> u64 \<Rightarrow> u32 \<Rightarrow> u64" where
  "playback_available s wanted_frames region_size =
     (let available = ucast region_size in
      if wanted_frames > 0 \<and> bytes_per_frame s > 0
      then (let wanted = wanted_frames * bytes_per_frame s in if wanted < available then wanted else available)
      else available)"

definition pwf_stream_on_process_playback ::
    "playback_callback \<Rightarrow> pwf_thread \<Rightarrow> u64 \<Rightarrow> u64 \<Rightarrow> pw_time option \<Rightarrow> byte list \<Rightarrow> pw_buffer option \<Rightarrow>
     pwf_stream \<Rightarrow> published option \<times> pwf_stream" where
  "pwf_stream_on_process_playback app th started finished time region dequeued s =
     (case dequeued of
        None \<Rightarrow> (None, s)
      | Some b \<Rightarrow>
          (case datas (buffer b) of
             [] \<Rightarrow> (None, fault Out_of_bounds s)
           | d # _ \<Rightarrow>
               if d_data d = None \<or> maxsize d = 0 \<or> chunk d = None \<or> \<not> playback_cb s
               then
                 (let s1 = (case rate_report started (unusable s) of
                              (Some _, r) \<Rightarrow> emit [Log PWF_LOG_WARNING] (s\<lparr>unusable := r\<rparr>)
                            | (None, r) \<Rightarrow> s\<lparr>unusable := r\<rparr>)
                  in (None, emit [Stream_queue_buffer (buf_id b)] s1))
               else
                 (let available = playback_available s (requested b) (maxsize d)
                  in case pwf_stream_playback_fill app (callback_thread th s) started finished region available
                            (pwf_stream_playback_pts time) s of
                       ((_, region1), s1) \<Rightarrow>
                         (Some \<lparr>pub_chunk = \<lparr>chunk_offset = 0, chunk_size = ucast available,
                                            chunk_stride = sint (ucast (bytes_per_frame s1) :: u32)\<rparr>,
                                pub_frames = (if bytes_per_frame s1 > 0 then available div bytes_per_frame s1 else 0),
                                pub_region = region1\<rparr>,
                          emit [Stream_queue_buffer (buf_id b)] s1))))"

section \<open>Facts about capture\<close>

text \<open>The memory a callback sees and the one it no longer sees.\<close>

lemma deliver_dmabuf_clears [simp]:
  "current_dmabuf_buf (pwf_stream_deliver_dmabuf app th now buf pts s) = None"
  by (simp add: pwf_stream_deliver_dmabuf_def Let_def)

definition buffers_queued :: "'a pwf_client_scheme \<Rightarrow> nat list" where
  "buffers_queued s = List.map_filter (\<lambda>c. case c of Stream_queue_buffer b \<Rightarrow> Some b | _ \<Rightarrow> None) (calls s)"

lemma buffers_queued_emit:
  "buffers_queued (emit cs s) =
     buffers_queued s @ List.map_filter (\<lambda>c. case c of Stream_queue_buffer b \<Rightarrow> Some b | _ \<Rightarrow> None) cs"
  by (simp add: buffers_queued_def map_filter_def)

lemma buffers_queued_update [simp]:
  "buffers_queued (s\<lparr>current_dmabuf_buf := x\<rparr>) = buffers_queued s"
  "buffers_queued (s\<lparr>dmabuf_retrieved := y\<rparr>) = buffers_queued s"
  "buffers_queued (s\<lparr>dmabuf_unretrieved := r\<rparr>) = buffers_queued s"
  "buffers_queued (s\<lparr>unusable := r\<rparr>) = buffers_queued s"
  "buffers_queued (s\<lparr>overrun := r\<rparr>) = buffers_queued s"
  "buffers_queued (fault f s) = buffers_queued s"
  by (simp_all add: buffers_queued_def fault_def)

lemma deliver_dmabuf_queued:
  assumes "\<And>th b t. buffers_queued (app th b t) = buffers_queued t"
  shows "buffers_queued (pwf_stream_deliver_dmabuf app th now buf pts s) = buffers_queued s"
  using assms
  by (auto simp: pwf_stream_deliver_dmabuf_def Let_def buffers_queued_emit map_filter_def
      split: option.split prod.split)

section \<open>Facts about playback\<close>

lemma length_zero_fill: "b \<le> length xs \<Longrightarrow> a \<le> b \<Longrightarrow> length (zero_fill a b xs) = length xs"
  by (simp add: zero_fill_def)

lemma unat_floor: "unat ((w :: u64) - w mod k) = unat w - unat w mod unat k"
proof -
  have "w mod k \<le> w" by (simp add: word_le_nat_alt unat_mod)
  then show ?thesis by (simp add: unat_sub unat_mod)
qed

text \<open>How many of the bytes the callback reports are played: clamped to the cycle, whole frames.\<close>

definition playable :: "nat \<Rightarrow> nat \<Rightarrow> nat \<Rightarrow> nat" where
  "playable bpf available reported =
     (let n = min reported available in if bpf > 0 then n - n mod bpf else n)"

lemma playable_le: "playable bpf available reported \<le> min reported available"
  unfolding playable_def Let_def by (metis diff_le_self order_refl)

lemma playable_whole: "bpf dvd playable bpf available reported \<or> bpf = 0"
  by (simp add: playable_def Let_def minus_mod_eq_mult_div)

lemma playable_greatest:
  assumes "bpf dvd n" and "n \<le> min reported available"
  shows "n \<le> playable bpf available reported"
proof (cases "bpf = 0")
  case True
  then show ?thesis using assms by (simp add: playable_def)
next
  case False
  let ?m = "min reported available"
  from assms(1) obtain k where n: "n = bpf * k" by (elim dvdE)
  have "k = n div bpf" using n False by simp
  also have "\<dots> \<le> ?m div bpf" using assms(2) by (rule div_le_mono)
  finally have "bpf * k \<le> bpf * (?m div bpf)" by (rule mult_le_mono2)
  then show ?thesis using False n by (simp add: playable_def Let_def minus_mod_eq_mult_div)
qed

lemma playback_fill_spec:
  assumes "app th region available pts s = ((region1, reported), s1)"
    and "pwf_stream_playback_fill app th started finished region available pts s = ((played, region2), s2)"
  shows "unat played = playable (unat (bytes_per_frame s1)) (unat available) (unat reported)"
    and "unat available \<le> length region1 \<Longrightarrow> region2 = zero_fill (unat played) (unat available) region1"
    and "bytes_per_frame s2 = bytes_per_frame s1"
proof -
  define sz where "sz = (if reported > available then available else reported)"
  have sz: "unat sz = min (unat reported) (unat available)"
    by (auto simp: sz_def min_def word_less_nat_alt word_le_nat_alt)
  define t where "t = (if reported > available then emit [Log PWF_LOG_WARNING] s1 else s1)"
  have bpf: "bytes_per_frame t = bytes_per_frame s1" by (simp add: t_def)
  have zero: "bytes_per_frame s1 > 0 \<longleftrightarrow> unat (bytes_per_frame s1) > 0" by (simp add: word_less_nat_alt)
  have played: "played = (if bytes_per_frame s1 > 0 then sz - sz mod bytes_per_frame s1 else sz)"
    and region: "region2 = (if played < available then zero_fill (unat played) (unat available) region1 else region1)"
    using assms bpf
    by (auto simp: pwf_stream_playback_fill_def Let_def sz_def t_def split: if_splits)
  have sized: "unat played = playable (unat (bytes_per_frame s1)) (unat available) (unat reported)"
    using zero by (simp add: played playable_def Let_def unat_floor sz)
  then show "unat played = playable (unat (bytes_per_frame s1)) (unat available) (unat reported)" .
  have le: "unat played \<le> unat available"
    using playable_le [of "unat (bytes_per_frame s1)" "unat available" "unat reported"] sized by simp
  show "region2 = zero_fill (unat played) (unat available) region1" if "unat available \<le> length region1"
    using region le that by (auto simp: zero_fill_def word_less_nat_alt not_less)
  show "bytes_per_frame s2 = bytes_per_frame s1"
    using assms bpf
    by (auto simp: pwf_stream_playback_fill_def pwf_stream_playback_note_overrun_def Let_def t_def
        split: if_splits prod.splits bool.splits)
qed

text \<open>The cycle's length in nanoseconds does not overflow: a region is smaller than \<open>2 ^ 32\<close> bytes.\<close>

lemma cycle_budget_exact:
  assumes "0 < audio_rate s" and "audio_rate s < 2 ^ 31" and "bytes_per_frame s \<noteq> 0"
    and "unat available < 2 ^ 32"
  shows "unat (pwf_stream_cycle_budget_ns s available) =
    (unat available div unat (bytes_per_frame s)) * 1000000000 div nat (audio_rate s)"
proof -
  let ?f = "unat available div unat (bytes_per_frame s)"
  have f: "?f < 2 ^ 32" using assms(4) by (meson div_le_dividend le_less_trans)
  then have "?f * 1000000000 < 2 ^ 64" by simp
  moreover have "unat (available div bytes_per_frame s) = ?f" by (simp add: unat_div)
  ultimately have "unat (available div bytes_per_frame s * 1000000000) = ?f * 1000000000"
    by (simp add: unat_word_ariths)
  moreover have "unat (word_of_int (audio_rate s) :: u64) = nat (audio_rate s)"
    using assms(1,2) by (simp add: unat_eq_nat_uint uint_word_of_int)
  ultimately show ?thesis using assms(1,3) by (simp add: pwf_stream_cycle_budget_ns_def Let_def unat_div)
qed

lemma playback_available_le: "playback_available s wanted region_size \<le> ucast region_size"
  by (auto simp: playback_available_def Let_def)

lemma unat_ucast_u32: "unat (ucast (w :: u32) :: u64) = unat w"
  using unat_u32_bound [of w] by (simp add: unsigned_ucast_eq take_bit_nat_eq_self)

text \<open>What the device asked for, when the product does not leave \<open>size_t\<close>.\<close>

lemma playback_available_exact:
  assumes "0 < wanted" and "bytes_per_frame s > 0"
    and "unat wanted * unat (bytes_per_frame s) < 2 ^ 64"
  shows "unat (playback_available s wanted region_size) =
    min (unat wanted * unat (bytes_per_frame s)) (unat region_size)"
proof -
  have "unat (wanted * bytes_per_frame s) = unat wanted * unat (bytes_per_frame s)"
    using assms(3) by (simp add: unat_word_ariths)
  with assms(1,2) show ?thesis
    by (simp add: playback_available_def Let_def word_less_nat_alt unat_ucast_u32 min_def)
qed

end
