(* ===== verification/Pwf_Stream_Routing.thy ===== *)
theory Pwf_Stream_Routing
  imports Pwf_Stream_Facts Pwf_Video_Enum
begin

text \<open>
  \<^verbatim>\<open>src/pwf_stream_routing.c\<close>: listing the devices a stream can use, reading a camera's formats, and
  wiring a stream to a device by hand, one link per channel.

  The port listings hold pointers into the registry's array. While a link is being negotiated the
  loop thread may change that array, so each use of a pointer goes through \<open>port_at\<close>, which is
  undefined once the array was reallocated or the entry is gone. In the same way the link set
  itself may be freed by the callback that notices the device leaving. Where the code then reads
  freed memory, the model records the fault and gives no result (\<open>None\<close>).
\<close>

definition PWF_MAX_CHANNELS :: nat where "PWF_MAX_CHANNELS = 64"

text \<open>The number of pairs and the surplus.\<close>

definition pwf_stream_pair_ports :: "nat \<Rightarrow> nat \<Rightarrow> nat \<times> nat" where
  "pwf_stream_pair_ports n_stream n_target =
     (if n_stream = 0 \<or> n_target < n_stream then (0, 0) else (n_stream, n_target - n_stream))"

section \<open>Waiting for our own ports\<close>

definition pwf_stream_expected_ports :: "pwf_stream \<Rightarrow> nat" where
  "pwf_stream_expected_ports s =
     (case stream_format s of
        Format_audio a \<Rightarrow> if stream_type s = PWF_DATA_AUDIO \<and> au_channels a > 0 then nat (au_channels a) else 1
      | _ \<Rightarrow> 1)"

definition pwf_stream_own_direction :: "pwf_stream \<Rightarrow> spa_direction" where
  "pwf_stream_own_direction s =
     (if direction s = PWF_STREAM_DIRECTION_PLAYBACK then SPA_DIRECTION_OUTPUT else SPA_DIRECTION_INPUT)"

text \<open>While the code waits, the server may also assign the node id \<open>pw_stream_get_node_id\<close> reads.\<close>

datatype own_event = Own_node_id u32 | Own_event stream_event

fun own_dispatch :: "own_event \<Rightarrow> u32 \<times> pwf_stream \<Rightarrow> u32 \<times> pwf_stream" where
  "own_dispatch (Own_node_id i) (nid, s) = (i, s)"
| "own_dispatch (Own_event e) (nid, s) = (nid, stream_dispatch e s)"

definition own_ports_ready :: "nat \<Rightarrow> spa_direction \<Rightarrow> u32 \<times> pwf_stream \<Rightarrow> bool" where
  "own_ports_ready expected dir p =
     (case p of (nid, s) \<Rightarrow>
        nid \<noteq> SPA_ID_INVALID \<and> expected \<le> fst (pwf_pw_registry_list_ports (registry s) nid dir False 0))"

definition pwf_stream_await_own_ports ::
    "u32 \<Rightarrow> own_event schedule \<Rightarrow> nat \<Rightarrow> pwf_stream \<Rightarrow> (pwf_error \<times> u32) \<times> pwf_stream" where
  "pwf_stream_await_own_ports nid0 sched expected s =
     (let dir = pwf_stream_own_direction s in
      case loop_wait (own_ports_ready expected dir) own_dispatch (fst sched) (snd sched)
             (nid0, emit [Loop_lock] s) of
        (True, nid, s1) \<Rightarrow> ((PWF_OK, nid), emit [Loop_unlock] s1)
      | (False, nid, s1) \<Rightarrow> ((PWF_ERR_TIMEOUT, SPA_ID_INVALID), emit [Loop_unlock, Log PWF_LOG_ERROR] s1))"

section \<open>Targets\<close>

definition pwf_str_is_all_digits :: "string \<Rightarrow> bool" where
  "pwf_str_is_all_digits s \<longleftrightarrow> s \<noteq> [] \<and> list_all is_digit s"

definition pwf_stream_resolve_target :: "pwf_stream \<Rightarrow> string \<Rightarrow> u32" where
  "pwf_stream_resolve_target s t =
     (if pwf_str_is_all_digits t then pwf_pw_registry_find_node_by_serial (registry s) (c_strtoull t)
      else pwf_pw_registry_find_node_by_name (registry s) t)"

definition pwf_stream_target_media_class :: "pwf_stream \<Rightarrow> string" where
  "pwf_stream_target_media_class s =
     (if direction s = PWF_STREAM_DIRECTION_PLAYBACK then ''Audio/Sink''
      else if stream_type s = PWF_DATA_VIDEO then ''Video/Source'' else ''Audio/Source'')"

record pwf_target_info =
  ti_name :: string
  ti_description :: string
  ti_serial :: string

definition target_info_of :: "pwf_pw_node_entry \<Rightarrow> pwf_target_info" where
  "target_info_of e =
     \<lparr>ti_name = c_snprintf 256 (node_name e),
      ti_description = c_snprintf 256 (case description e of Some d \<Rightarrow> d | None \<Rightarrow> []),
      ti_serial = c_snprintf 32 (c_decimal (unat (serial e)))\<rparr>"

text \<open>The loop over the nodes: \<open>n\<close> counts the matches, the array takes those that fit.\<close>

fun target_list_loop ::
    "string \<Rightarrow> pwf_pw_node_entry list \<Rightarrow> nat \<Rightarrow> pwf_target_info list option \<Rightarrow> nat \<Rightarrow>
     nat \<times> pwf_target_info list option" where
  "target_list_loop cls [] out_len out n = (n, out)"
| "target_list_loop cls (e # es) out_len out n =
     (if media_class e \<noteq> Some cls then target_list_loop cls es out_len out n
      else target_list_loop cls es out_len
             (case out of
                Some xs \<Rightarrow> if n < out_len then Some (xs[n := target_info_of e]) else Some xs
              | None \<Rightarrow> None)
             (n + 1))"

definition pwf_stream_get_target_list ::
    "pwf_thread \<Rightarrow> bool \<Rightarrow> stream_event sync_env \<Rightarrow> pwf_target_info list option \<Rightarrow> nat \<Rightarrow> bool \<Rightarrow>
     pwf_stream option \<Rightarrow> (pwf_error \<times> nat \<times> pwf_target_info list option) \<times> pwf_stream option" where
  "pwf_stream_get_target_list th got env out out_len has_found h =
     (if \<not> has_found then ((PWF_ERR_INVALID_ARG, 0, out), h)
      else on_handle (PWF_ERR_INVALID_ARG, 0, out)
        (\<lambda>s. case pwf_stream_refuse_in_callback th True s of
           (True, s1) \<Rightarrow> ((PWF_ERR_IN_CALLBACK, 0, out), s1)
         | (False, s1) \<Rightarrow>
             (case pwf_pw_registry_bind stream_dispatch got env s1 of
                (res, s2) \<Rightarrow>
                  if res < 0 then ((pwf_pw_error_from_sync res, 0, out), s2)
                  else case target_list_loop (pwf_stream_target_media_class s2) (items (nodes (registry s2)))
                              out_len out 0 of
                      (n, out') \<Rightarrow> ((PWF_OK, n, out'), emit [Loop_lock, Loop_unlock] s2))) h)"

definition pwf_stream_get_target_video_formats ::
    "pwf_thread \<Rightarrow> bool \<Rightarrow> stream_event sync_env \<Rightarrow> stream_event sync_env \<Rightarrow> nat option \<Rightarrow>
     (spa_param_type \<times> enum_format_param option) list \<Rightarrow> string option \<Rightarrow>
     pwf_video_format_info list option \<Rightarrow> nat \<Rightarrow> bool \<Rightarrow> pwf_stream option \<Rightarrow>
     (pwf_error \<times> nat \<times> pwf_video_format_info list option) \<times> pwf_stream option" where
  "pwf_stream_get_target_video_formats th got env env2 node params t out out_len has_found h =
     (if \<not> has_found then ((PWF_ERR_INVALID_ARG, 0, out), h)
      else on_handle (PWF_ERR_INVALID_ARG, 0, out)
        (\<lambda>s. if stream_type s \<noteq> PWF_DATA_VIDEO then ((PWF_ERR_INVALID_ARG, 0, out), s)
             else case pwf_stream_refuse_in_callback th True s of
               (True, s1) \<Rightarrow> ((PWF_ERR_IN_CALLBACK, 0, out), s1)
             | (False, s1) \<Rightarrow>
                 (case (case t of Some n \<Rightarrow> Some n | None \<Rightarrow> target s1) of
                    None \<Rightarrow> ((PWF_ERR_INVALID_ARG, 0, out), s1)
                  | Some name \<Rightarrow>
                      (case pwf_pw_registry_bind stream_dispatch got env s1 of
                         (res, s2) \<Rightarrow>
                           if res < 0 then ((pwf_pw_error_from_sync res, 0, out), s2)
                           else
                             let nid = pwf_stream_resolve_target s2 name in
                             if nid = 0 then ((PWF_ERR_NOT_FOUND, 0, out), emit [Log PWF_LOG_WARNING] s2)
                             else pwf_pw_enum_video_formats stream_dispatch env2 node params nid out out_len
                                    has_found s2))) h)"

section \<open>Links\<close>

text \<open>What PipeWire answers for one link: the properties, the proxy, and the wait's schedule.\<close>

record link_env =
  link_props_ok :: bool
  made_proxy :: "nat option"
  link_sched :: "stream_event schedule"

definition set_link :: "nat \<Rightarrow> (pwf_stream_link \<Rightarrow> pwf_stream_link) \<Rightarrow> pwf_stream \<Rightarrow> pwf_stream" where
  "set_link i f s =
     (case links s of
        None \<Rightarrow> s
      | Some ls \<Rightarrow> s\<lparr>links := Some (ls\<lparr>set_links := (set_links ls)[i := f (set_links ls ! i)]\<rparr>)\<rparr>)"

text \<open>The wait ends when the link settles. It also ends when the set was freed under it.\<close>

definition link_settled :: "nat \<Rightarrow> pwf_stream \<Rightarrow> bool" where
  "link_settled i s =
     (case links s of
        None \<Rightarrow> True
      | Some ls \<Rightarrow> seen_active (set_links ls ! i) \<or> lost (set_links ls ! i))"

definition pwf_stream_link_one ::
    "link_env \<Rightarrow> nat \<Rightarrow> u32 \<Rightarrow> u32 \<Rightarrow> u32 \<Rightarrow> u32 \<Rightarrow> pwf_stream \<Rightarrow> pwf_error option \<times> pwf_stream" where
  "pwf_stream_link_one env i out_node out_port in_node in_port s =
     (if \<not> link_props_ok env then (Some PWF_ERR_NO_MEMORY, s)
      else
        let s1 = set_link i (\<lambda>l. l\<lparr>seen_active := False, lost := False\<rparr>) s;
            s2 = emit [Loop_lock, Link_create (link_props out_node out_port in_node in_port)] s1;
            s3 = set_link i (\<lambda>l. l\<lparr>link_proxy := made_proxy env\<rparr>) s2
        in if made_proxy env = None then (Some PWF_ERR_CONNECT_FAILED, emit [Loop_unlock] s3)
           else
             case loop_wait (link_settled i) stream_dispatch (fst (link_sched env)) (snd (link_sched env)) s3 of
               (settled, s4) \<Rightarrow>
                 (case links s4 of
                    None \<Rightarrow> (None, fault Use_after_free s4)
                  | Some ls \<Rightarrow>
                      (Some (if lost (set_links ls ! i) then PWF_ERR_INVALID_FORMAT
                             else if settled then PWF_OK else PWF_ERR_TIMEOUT),
                       emit [Loop_unlock] s4)))"

text \<open>
  \<open>*p\<close> for a pointer that was taken to entry \<open>e\<close> of the array \<open>g0\<close>: undefined once the array was
  reallocated or shrank below the slot, otherwise whatever the slot holds now.
\<close>

definition port_at :: "pwf_pw_port_entry growable \<Rightarrow> pwf_pw_port_entry growable \<Rightarrow> pwf_pw_port_entry \<Rightarrow> pwf_pw_port_entry option" where
  "port_at g0 g e =
     (if capacity g \<noteq> capacity g0 then None
      else case find_index (\<lambda>x. x = e) (items g0) of
          None \<Rightarrow> None
        | Some k \<Rightarrow> if k < length (items g) then Some (items g ! k) else None)"

text \<open>The loop over the pairs; \<open>i\<close> is its index and the list holds the pairs from there on.\<close>

fun link_pairs ::
    "(nat \<Rightarrow> link_env) \<Rightarrow> pwf_pw_port_entry growable \<Rightarrow> bool \<Rightarrow> u32 \<Rightarrow> u32 \<Rightarrow> nat \<Rightarrow>
     (pwf_pw_port_entry \<times> pwf_pw_port_entry) list \<Rightarrow> pwf_stream \<Rightarrow> pwf_error option \<times> pwf_stream" where
  "link_pairs env g0 we_output own_node target_node i [] s = (Some PWF_OK, s)"
| "link_pairs env g0 we_output own_node target_node i ((own, peer) # rest) s =
     (case (port_at g0 (ports (registry s)) own, port_at g0 (ports (registry s)) peer) of
        (Some o1, Some p1) \<Rightarrow>
          (case pwf_stream_link_one (env i) i
                  (if we_output then own_node else target_node)
                  (if we_output then port_id o1 else port_id p1)
                  (if we_output then target_node else own_node)
                  (if we_output then port_id p1 else port_id o1) s of
             (None, s1) \<Rightarrow> (None, s1)
           | (Some res, s1) \<Rightarrow>
               let s2 = (case links s1 of
                           None \<Rightarrow> s1 | Some ls \<Rightarrow> s1\<lparr>links := Some (ls\<lparr>n_links := i + 1\<rparr>)\<rparr>)
               in if failed res
                  then (Some res, emit [Log PWF_LOG_ERROR] (pwf_stream_release_links s2))
                  else if port_at g0 (ports (registry s2)) peer = None
                  then (None, fault Use_after_free s2)
                  else link_pairs env g0 we_output own_node target_node (i + 1) rest
                         (emit [Log PWF_LOG_INFO] s2))
      | _ \<Rightarrow> (None, fault Use_after_free s))"

text \<open>What the outside answers over a whole link request.\<close>

record stream_link_env =
  le_got_registry :: bool
  le_bind :: "stream_event sync_env"
  le_node_id :: u32
  le_own :: "own_event schedule"
  le_set_ok :: bool
  le_links_ok :: bool
  le_link :: "nat \<Rightarrow> link_env"

definition link_zero :: pwf_stream_link where
  "link_zero = \<lparr>link_proxy = None, seen_active = False, lost = False\<rparr>"

text \<open>Once the ports are listed: the pairing, the allocation and the loop.\<close>

definition link_ports ::
    "stream_link_env \<Rightarrow> u32 \<Rightarrow> u32 \<Rightarrow> pwf_stream \<Rightarrow> pwf_error option \<times> pwf_stream" where
  "link_ports env own_node target_node s =
     (let own_dir = pwf_stream_own_direction s;
          we_output = (own_dir = SPA_DIRECTION_OUTPUT);
          peer_dir = (if we_output then SPA_DIRECTION_INPUT else SPA_DIRECTION_OUTPUT);
          (n_own, own) = pwf_pw_registry_list_ports (registry s) own_node own_dir True PWF_MAX_CHANNELS;
          (n_peer, peer) = pwf_pw_registry_list_ports (registry s) target_node peer_dir True PWF_MAX_CHANNELS
      in if n_own > PWF_MAX_CHANNELS \<or> n_peer > PWF_MAX_CHANNELS then (Some PWF_ERR_INVALID_ARG, s)
         else
           let (pairs, surplus) = pwf_stream_pair_ports n_own n_peer in
           if pairs = 0 then (Some PWF_ERR_INVALID_ARG, emit [Log PWF_LOG_ERROR] s)
           else if \<not> le_set_ok env \<or> \<not> le_links_ok env then (Some PWF_ERR_NO_MEMORY, s)
           else
             let g0 = ports (registry s);
                 s1 = s\<lparr>links := Some \<lparr>set_links = replicate pairs link_zero, n_links = 0,
                                       target_node_id = target_node\<rparr>\<rparr>
             in case link_pairs (le_link env) g0 we_output own_node target_node 0
                       (take pairs (zip (the own) (the peer))) s1 of
                  (None, s2) \<Rightarrow> (None, s2)
                | (Some res, s2) \<Rightarrow>
                    if failed res then (Some res, s2)
                    else if surplus > 0
                    then (if port_at g0 (ports (registry s2)) (the peer ! pairs) = None
                          then (None, fault Use_after_free s2)
                          else (Some PWF_OK, emit [Log PWF_LOG_WARNING] s2))
                    else (Some PWF_OK, s2))"

definition stream_link ::
    "pwf_thread \<Rightarrow> stream_link_env \<Rightarrow> string option \<Rightarrow> pwf_stream \<Rightarrow> pwf_error option \<times> pwf_stream" where
  "stream_link th env t s =
     (if t = None \<or> t = Some [] then (Some PWF_ERR_INVALID_ARG, s)
      else case pwf_stream_refuse_in_callback th True s of
          (True, s1) \<Rightarrow> (Some PWF_ERR_IN_CALLBACK, s1)
        | (False, s1) \<Rightarrow>
            if autoconnect s1 then (Some PWF_ERR_INVALID_ARG, s1)
            else if links s1 \<noteq> None then (Some PWF_ERR_INVALID_ARG, s1)
            else if state s1 \<noteq> PWF_STREAM_STATE_RUNNING \<or> pw_stream s1 = None
            then (Some PWF_ERR_NOT_CONFIGURED, s1)
            else
              case pwf_pw_registry_bind stream_dispatch (le_got_registry env) (le_bind env) s1 of
                (res, s2) \<Rightarrow>
                  if res < 0 then (Some (pwf_pw_error_from_sync res), s2)
                  else
                    let s3 = s2\<lparr>registry := (registry s2)\<lparr>port_added_cb := True, node_removed_cb := True\<rparr>\<rparr> in
                    case pwf_stream_await_own_ports (le_node_id env) (le_own env) (pwf_stream_expected_ports s3) s3 of
                      ((res2, own_node), s4) \<Rightarrow>
                        if failed res2 then (Some res2, s4)
                        else
                          let target_node = pwf_stream_resolve_target s4 (the t) in
                          if target_node = 0 then (Some PWF_ERR_NOT_FOUND, emit [Log PWF_LOG_ERROR] s4)
                          else link_ports env own_node target_node s4)"

definition pwf_stream_link where
  "pwf_stream_link th env t = on_handle (Some PWF_ERR_INVALID_ARG) (stream_link th env t)"

definition stream_unlink :: "pwf_thread \<Rightarrow> pwf_stream \<Rightarrow> pwf_error \<times> pwf_stream" where
  "stream_unlink th s =
     (case pwf_stream_refuse_in_callback th False s of
        (True, s1) \<Rightarrow> (PWF_ERR_IN_CALLBACK, s1)
      | (False, s1) \<Rightarrow>
          if links s1 = None then (PWF_ERR_NOT_CONFIGURED, s1)
          else (PWF_OK, pwf_stream_release_links s1))"

definition pwf_stream_unlink where
  "pwf_stream_unlink th = on_handle PWF_ERR_INVALID_ARG (stream_unlink th)"

end
