(* ===== verification/Pwf_Stream_Routing_Facts.thy ===== *)
theory Pwf_Stream_Routing_Facts
  imports Pwf_Stream_Routing
begin

text \<open>
  What routing promises: the target list counts every device and fills what fits, a listed serial
  resolves to its node, waits end well behaved, and a link request is all or nothing.
\<close>

section \<open>The target list\<close>

definition targets :: "string \<Rightarrow> pwf_pw_node_entry list \<Rightarrow> pwf_target_info list" where
  "targets cls es = map target_info_of (filter (\<lambda>e. media_class e = Some cls) es)"

lemma target_list_count: "fst (target_list_loop cls es out_len out n) = n + length (targets cls es)"
  by (induction es arbitrary: out n) (auto simp: targets_def)

lemma target_list_out:
  assumes "length xs = out_len"
  shows "snd (target_list_loop cls es out_len (Some xs) n) =
    Some (take (length xs) (take n xs @ targets cls es) @ drop (n + length (targets cls es)) xs)"
  using assms
proof (induction es arbitrary: xs n)
  case Nil
  then show ?case by (simp add: targets_def min_def)
next
  case (Cons e es)
  show ?case
  proof (cases "media_class e = Some cls")
    case False
    then have "targets cls (e # es) = targets cls es" by (simp add: targets_def)
    with False Cons.IH [OF Cons.prems, of n] show ?thesis by simp
  next
    case True
    then have t: "targets cls (e # es) = target_info_of e # targets cls es" by (simp add: targets_def)
    show ?thesis
    proof (cases "n < out_len")
      case fits: True
      let ?xs = "xs[n := target_info_of e]"
      have "take (n + 1) ?xs = take n xs @ [target_info_of e]"
        using fits Cons.prems by (simp add: take_Suc_conv_app_nth)
      moreover have "out_len - n = Suc (out_len - Suc n)" using fits by simp
      ultimately show ?thesis using Cons.IH [of ?xs "n + 1"] Cons.prems True fits t by simp
    next
      case False
      with Cons.IH [of xs "n + 1"] Cons.prems True t show ?thesis by simp
    qed
  qed
qed

text \<open>A serial printed in the list is found again.\<close>

lemma serial_string: "c_snprintf 32 (c_decimal (unat (w :: u64))) = c_decimal (unat w)"
proof -
  have "unat w < 10 ^ 20" using unat_u64_bound [of w] by simp
  then have "length (c_decimal (unat w)) \<le> 20" by (rule c_decimal_length) simp
  then show ?thesis by (simp add: c_snprintf_def)
qed

lemma find_unique:
  assumes "e \<in> set es" and "P e" and "\<forall>x\<in>set es. P x \<longrightarrow> x = e"
  shows "find P es = Some e"
proof (cases "find P es")
  case None
  then show ?thesis using assms(1,2) by (simp add: find_None_iff)
next
  case (Some x)
  then have "P x" "x \<in> set es" by (auto simp: find_Some_iff)
  with Some assms(3) show ?thesis by blast
qed

lemma resolve_listed_serial:
  assumes "e \<in> set (items (nodes (registry s)))" and "serial e \<noteq> 0"
    and "\<forall>x\<in>set (items (nodes (registry s))). serial x = serial e \<longrightarrow> x = e"
  shows "pwf_stream_resolve_target s (ti_serial (target_info_of e)) = node_id e"
proof -
  have str: "ti_serial (target_info_of e) = c_decimal (unat (serial e))"
    by (simp add: target_info_of_def serial_string)
  have "find (\<lambda>x. serial x = serial e) (items (nodes (registry s))) = Some e"
    using assms by (intro find_unique) auto
  then show ?thesis
    using assms(2)
    by (simp add: pwf_stream_resolve_target_def pwf_str_is_all_digits_def str c_decimal_digits c_strtoull_c_decimal
        pwf_pw_registry_find_node_by_serial_def)
qed

section \<open>Waiting for our own ports\<close>

definition stream_keeps :: "pwf_stream \<Rightarrow> pwf_stream \<Rightarrow> bool" where
  "stream_keeps s t \<longleftrightarrow> same_client s t \<and> same_settings s t \<and> only_stops s t \<and> (stream_ok s \<longrightarrow> stream_ok t)"

lemma stream_keeps_refl [simp]: "stream_keeps s s"
  by (simp add: stream_keeps_def)

lemma stream_keeps_dispatch: "stream_keeps s t \<Longrightarrow> stream_keeps s (stream_dispatch e t)"
  using stream_loop.dispatch_keeps [of s t e] stream_settings.dispatch_inv [of s t e]
    stream_stops.dispatch_inv [of s t e] stream_ok_loop.dispatch_inv [of t e]
  by (auto simp: stream_keeps_def)

interpretation own_keeps: loop_client own_dispatch "\<lambda>p. stream_keeps s (snd p)" for s
proof
  fix p :: "u32 \<times> pwf_stream" and e
  assume "stream_keeps s (snd p)"
  then show "stream_keeps s (snd (own_dispatch e p))"
    by (cases p; cases e) (auto intro: stream_keeps_dispatch)
qed

lemma links_None_dispatch: "links s = None \<Longrightarrow> links (stream_dispatch e s) = None"
proof (cases e)
  case (Ev_registry ev)
  assume "links s = None"
  with Ev_registry show ?thesis
    by (auto simp: stream_registry_event_def pwf_stream_on_port_added_def pwf_stream_on_node_removed_def
        split: registry_notice.split prod.split)
qed (auto simp: stream_callback_defs)

interpretation own_unlinked: loop_client own_dispatch "\<lambda>p. links (snd p) = None"
proof
  fix p :: "u32 \<times> pwf_stream" and e
  assume "links (snd p) = None"
  then show "links (snd (own_dispatch e p)) = None"
    by (cases p; cases e) (auto intro: links_None_dispatch)
qed

lemma await_own_ports_spec:
  assumes "pwf_stream_await_own_ports nid0 sched expected s = ((res, nid), s')"
  shows "well_behaved s s'" "same_settings s s'" "only_stops s s'" "links s = None \<Longrightarrow> links s' = None"
    "res = PWF_OK \<Longrightarrow> nid \<noteq> SPA_ID_INVALID \<and>
       expected \<le> length (node_ports (registry s') nid (pwf_stream_own_direction s))"
    "res = PWF_OK \<or> res = PWF_ERR_TIMEOUT"
proof -
  let ?dir = "pwf_stream_own_direction s" and ?s0 = "emit [Loop_lock] s"
  obtain b nid1 s1 where w: "loop_wait (own_ports_ready expected ?dir) own_dispatch (fst sched) (snd sched) (nid0, ?s0) = (b, nid1, s1)"
    using prod_cases3 by blast
  have k: "stream_keeps ?s0 s1"
    using own_keeps.wait_inv_pair [OF _ w, of ?s0] by simp
  have un: "links s = None \<Longrightarrow> links s1 = None"
    using own_unlinked.wait_inv_pair [OF _ w] by simp
  have t: "(res, nid) = (if b then (PWF_OK, nid1) else (PWF_ERR_TIMEOUT, SPA_ID_INVALID))"
    "s' = (if b then emit [Loop_unlock] s1 else emit [Loop_unlock, Log PWF_LOG_ERROR] s1)"
    using assms w by (auto simp: pwf_stream_await_own_ports_def Let_def split: bool.splits)
  show "well_behaved s s'" "same_settings s s'" "only_stops s s'"
    using k t by (auto simp: stream_keeps_def well_behaved_def same_client_def same_settings_def only_stops_def)
  show "links s' = None" if "links s = None" using un that t by simp
  show "nid \<noteq> SPA_ID_INVALID \<and> expected \<le> length (node_ports (registry s') nid ?dir)" if "res = PWF_OK"
  proof -
    have "b" using t that by (auto split: if_splits)
    then have eq: "nid = nid1" "registry s' = registry s1" using t by simp_all
    have "own_ports_ready expected ?dir (nid1, s1)" by (rule loop_wait_ready) (use w \<open>b\<close> in simp)
    then show ?thesis unfolding eq own_ports_ready_def prod.case list_ports_count .
  qed
  show "res = PWF_OK \<or> res = PWF_ERR_TIMEOUT" using t by (auto split: if_splits)
qed

section \<open>What a wait can do to the links\<close>

definition links_evolve :: "pwf_stream_link_set option \<Rightarrow> pwf_stream_link_set option \<Rightarrow> bool" where
  "links_evolve l0 l \<longleftrightarrow>
     (case l of
        None \<Rightarrow> True
      | Some ls \<Rightarrow>
          (case l0 of
             None \<Rightarrow> False
           | Some ls0 \<Rightarrow>
               target_node_id ls = target_node_id ls0 \<and> n_links ls = n_links ls0 \<and>
               length (set_links ls) = length (set_links ls0) \<and>
               (\<forall>j<length (set_links ls).
                  link_proxy (set_links ls ! j) = link_proxy (set_links ls0 ! j) \<and>
                  (seen_active (set_links ls0 ! j) \<longrightarrow> seen_active (set_links ls ! j)))))"

lemma links_evolve_refl [simp]: "links_evolve l l"
  by (simp add: links_evolve_def split: option.split)

lemma links_evolve_Some:
  "links_evolve l0 (Some ls) \<longleftrightarrow>
     (\<exists>ls0. l0 = Some ls0 \<and> target_node_id ls = target_node_id ls0 \<and> n_links ls = n_links ls0 \<and>
        length (set_links ls) = length (set_links ls0) \<and>
        (\<forall>j<length (set_links ls).
           link_proxy (set_links ls ! j) = link_proxy (set_links ls0 ! j) \<and>
           (seen_active (set_links ls0 ! j) \<longrightarrow> seen_active (set_links ls ! j))))"
  by (cases l0) (simp_all add: links_evolve_def)

lemma links_evolve_trans:
  assumes "links_evolve a b" and "links_evolve b c"
  shows "links_evolve a c"
proof (cases c)
  case None
  then show ?thesis by (simp add: links_evolve_def)
next
  case (Some lc)
  then obtain lb where b: "b = Some lb" and bc: "links_evolve (Some lb) (Some lc)"
    using assms(2) by (auto simp: links_evolve_Some)
  then obtain la where a: "a = Some la" and ab: "links_evolve (Some la) (Some lb)"
    using assms(1) by (auto simp: links_evolve_Some)
  have "links_evolve (Some la) (Some lc)"
    using ab bc unfolding links_evolve_Some option.inject by (metis (no_types))
  then show ?thesis using a Some by simp
qed

lemma link_on_info_evolve: "links_evolve (links s) (links (pwf_stream_link_on_info i ch st s))"
  by (auto simp: pwf_stream_link_on_info_def links_evolve_def nth_list_update link_note_state_def split: option.split)

lemma dispatch_links_evolve: "links_evolve (links s) (links (stream_dispatch e s))"
proof (cases e)
  case (Ev_registry ev)
  obtain reg notice where n: "registry_notify ev (registry s) = (reg, notice)" by fastforce
  have removed: "links_evolve (links t) (links (pwf_stream_on_node_removed i t))" for i t
  proof (cases "links (pwf_stream_on_node_removed i t) = None")
    case True
    then show ?thesis by (simp add: links_evolve_def)
  next
    case False
    then have "links (pwf_stream_on_node_removed i t) = links t"
      by (auto simp: pwf_stream_on_node_removed_def call_error_cb_def release_links_frame(3) split: option.splits if_splits)
    then show ?thesis by simp
  qed
  have "links (s\<lparr>registry := reg\<rparr>) = links s" by simp
  note removed = removed [of "s\<lparr>registry := reg\<rparr>", unfolded this]
  show ?thesis using Ev_registry n removed
    by (cases notice) (auto simp: stream_registry_event_def pwf_stream_on_port_added_def)
next
  case (Ev_link_info i ch st)
  then show ?thesis by (simp add: link_on_info_evolve)
qed (auto simp: stream_callback_defs)

interpretation links_loop: loop_client stream_dispatch "\<lambda>t. links_evolve l0 (links t)" for l0
  by unfold_locales (blast intro: dispatch_links_evolve links_evolve_trans)

text \<open>Only the linked device's own removal frees the set.\<close>

lemma dispatch_links_kept:
  assumes "links s = Some ls" and "e \<noteq> Ev_registry (Global_remove (target_node_id ls))"
  shows "links (stream_dispatch e s) \<noteq> None"
proof (cases e)
  case (Ev_registry ev)
  have removed: "notice = Node_removed i \<Longrightarrow> ev = Global_remove i"
    if "registry_notify ev (registry s) = (reg, notice)" for reg notice i
    using that
    by (auto simp: registry_notify_def pwf_pw_registry_on_global_remove_def
        split: registry_event.splits option.splits prod.splits if_splits)
  obtain reg notice where n: "registry_notify ev (registry s) = (reg, notice)" by fastforce
  show ?thesis
  proof (cases notice)
    case (Node_removed i)
    then have "ev = Global_remove i" using removed [OF n] by simp
    with assms Ev_registry have "i \<noteq> target_node_id ls" by simp
    with assms n Node_removed Ev_registry show ?thesis
      by (auto simp: stream_registry_event_def pwf_stream_on_node_removed_def)
  qed (use assms n Ev_registry in \<open>simp_all add: stream_registry_event_def pwf_stream_on_port_added_def\<close>)
qed (use assms in \<open>auto simp: stream_callback_defs\<close>)

section \<open>One link\<close>

lemma stream_keeps_links [simp]:
  "stream_keeps (s\<lparr>links := l\<rparr>) t = stream_keeps s t" "stream_keeps s (t\<lparr>links := l\<rparr>) = stream_keeps s t"
  by (simp_all add: stream_keeps_def same_client_def same_settings_def only_stops_def)

lemma stream_keeps_around:
  assumes "stream_keeps (emit cs s) t" and "lock_depth cs + lock_depth ds = 0"
  shows "stream_keeps s (emit ds t)"
  using assms by (simp add: stream_keeps_def same_client_def same_settings_def only_stops_def)

lemma stream_keeps_trans: "stream_keeps a b \<Longrightarrow> stream_keeps b c \<Longrightarrow> stream_keeps a c"
  by (auto simp: stream_keeps_def intro: same_client_trans same_settings_trans only_stops_trans)

lemma stream_keeps_emit: "lock_depth cs = 0 \<Longrightarrow> stream_keeps s (emit cs s)"
  by (simp add: stream_keeps_def same_client_def same_settings_def only_stops_def)

lemma stream_keeps_release: "stream_keeps s (pwf_stream_release_links s)"
  using release_links_frame [of s]
  by (simp add: stream_keeps_def same_client_def only_stops_def stream_ok_frame)

lemma stream_keeps_well_behaved: "stream_keeps s t \<Longrightarrow> well_behaved s t"
  by (simp add: stream_keeps_def well_behaved_def same_client_def)

interpretation keeps_loop: loop_client stream_dispatch "stream_keeps s" for s
  by unfold_locales (rule stream_keeps_dispatch)

lemma set_link_emit: "set_link i f (emit cs s) = emit cs (set_link i f s)"
  by (simp add: set_link_def emit_def split: option.split)

lemma set_link_compose:
  assumes "links s = Some ls" and "i < length (set_links ls)"
  shows "set_link i f (set_link i g s) = set_link i (f \<circ> g) s"
  using assms by (simp add: set_link_def)

text \<open>A link that comes back with a result leaves every other link as the callbacks did.\<close>

lemma link_one_spec:
  assumes l: "links s = Some ls" and i: "i < length (set_links ls)"
    and run: "pwf_stream_link_one env i a b c d s = (Some res, s')"
  shows "stream_keeps s s'"
    and "\<exists>ls'. links s' = Some ls' \<and> target_node_id ls' = target_node_id ls \<and> n_links ls' = n_links ls \<and>
          length (set_links ls') = length (set_links ls) \<and>
          (\<forall>j<length (set_links ls). j \<noteq> i \<longrightarrow>
             link_proxy (set_links ls' ! j) = link_proxy (set_links ls ! j) \<and>
             (seen_active (set_links ls ! j) \<longrightarrow> seen_active (set_links ls' ! j))) \<and>
          (res = PWF_OK \<longrightarrow> link_proxy (set_links ls' ! i) \<noteq> None \<and> seen_active (set_links ls' ! i))"
proof -
  define l3 where "l3 = ls\<lparr>set_links := (set_links ls)[i := (set_links ls ! i)
      \<lparr>seen_active := False, lost := False, link_proxy := made_proxy env\<rparr>]\<rparr>"
  define s3 where "s3 = emit [Loop_lock, Link_create (link_props a b c d)] (s\<lparr>links := Some l3\<rparr>)"
  have s3: "set_link i (\<lambda>l. l\<lparr>link_proxy := made_proxy env\<rparr>)
      (emit [Loop_lock, Link_create (link_props a b c d)] (set_link i (\<lambda>l. l\<lparr>seen_active := False, lost := False\<rparr>) s)) = s3"
    using l i by (simp add: s3_def l3_def set_link_def emit_def)
  have l3: "set_links l3 ! j = (if j = i then (set_links ls ! i)
      \<lparr>seen_active := False, lost := False, link_proxy := made_proxy env\<rparr> else set_links ls ! j)"
    if "j < length (set_links ls)" for j
    using that by (simp add: l3_def)
  have keeps3: "stream_keeps (emit [Loop_lock, Link_create (link_props a b c d)] s) s3"
  proof -
    have "s3 = (emit [Loop_lock, Link_create (link_props a b c d)] s)\<lparr>links := Some l3\<rparr>"
      by (simp add: s3_def emit_def)
    then show ?thesis by simp
  qed
  consider "\<not> link_props_ok env" | "link_props_ok env" "made_proxy env = None"
    | p where "link_props_ok env" "made_proxy env = Some p" by (cases "made_proxy env") auto
  then have "stream_keeps s s' \<and> (\<exists>ls'. links s' = Some ls' \<and> target_node_id ls' = target_node_id ls \<and> n_links ls' = n_links ls \<and>
          length (set_links ls') = length (set_links ls) \<and>
          (\<forall>j<length (set_links ls). j \<noteq> i \<longrightarrow>
             link_proxy (set_links ls' ! j) = link_proxy (set_links ls ! j) \<and>
             (seen_active (set_links ls ! j) \<longrightarrow> seen_active (set_links ls' ! j))) \<and>
          (res = PWF_OK \<longrightarrow> link_proxy (set_links ls' ! i) \<noteq> None \<and> seen_active (set_links ls' ! i)))"
  proof cases
    case 1
    with run l show ?thesis by (simp add: pwf_stream_link_one_def)
  next
    case 2
    with run have r: "res = PWF_ERR_CONNECT_FAILED" "s' = emit [Loop_unlock] s3"
      using s3 by (simp_all add: pwf_stream_link_one_def Let_def)
    have "stream_keeps s s'" using stream_keeps_around [OF keeps3] r by simp
    moreover have "links s' = Some l3" using r by (simp add: s3_def)
    ultimately show ?thesis using r l3 by (auto simp: l3_def)
  next
    case (3 p)
    obtain settled s4 where w: "loop_wait (link_settled i) stream_dispatch (fst (link_sched env)) (snd (link_sched env)) s3 = (settled, s4)"
      by fastforce
    then obtain l4 where l4: "links s4 = Some l4"
      and r: "res = (if lost (set_links l4 ! i) then PWF_ERR_INVALID_FORMAT else if settled then PWF_OK else PWF_ERR_TIMEOUT)"
        "s' = emit [Loop_unlock] s4"
      using run 3 s3 by (auto simp: pwf_stream_link_one_def Let_def split: option.splits)
    have "stream_keeps s3 s4" by (rule keeps_loop.wait_inv_pair [OF _ w]) simp
    with keeps3 have "stream_keeps (emit [Loop_lock, Link_create (link_props a b c d)] s) s4"
      by (rule stream_keeps_trans)
    then have k: "stream_keeps s s'" using r by (auto intro: stream_keeps_around)
    have "links_evolve (links s3) (links s4)" by (rule links_loop.wait_inv_pair [OF _ w]) simp
    then have ev: "links_evolve (Some l3) (Some l4)" using l4 by (simp add: s3_def)
    have settled: "settled \<Longrightarrow> seen_active (set_links l4 ! i) \<or> lost (set_links l4 ! i)"
      using loop_wait_ready [of "link_settled i" stream_dispatch _ _ s3 s4] w l4 by (auto simp: link_settled_def)
    show ?thesis
      using ev l3 l4 r k settled 3(2) i
      by (auto simp: links_evolve_Some l3_def split: if_splits)
  qed
  then show "stream_keeps s s'"
    and "\<exists>ls'. links s' = Some ls' \<and> target_node_id ls' = target_node_id ls \<and> n_links ls' = n_links ls \<and>
          length (set_links ls') = length (set_links ls) \<and>
          (\<forall>j<length (set_links ls). j \<noteq> i \<longrightarrow>
             link_proxy (set_links ls' ! j) = link_proxy (set_links ls ! j) \<and>
             (seen_active (set_links ls ! j) \<longrightarrow> seen_active (set_links ls' ! j))) \<and>
          (res = PWF_OK \<longrightarrow> link_proxy (set_links ls' ! i) \<noteq> None \<and> seen_active (set_links ls' ! i))"
    by blast+
qed

section \<open>A link request is all or nothing\<close>

text \<open>The first \<open>k\<close> links are up, the others have not been made.\<close>

definition linked_upto :: "nat \<Rightarrow> pwf_stream_link_set \<Rightarrow> bool" where
  "linked_upto k ls \<longleftrightarrow>
     n_links ls = k \<and> k \<le> length (set_links ls) \<and>
     (\<forall>j<k. link_proxy (set_links ls ! j) \<noteq> None \<and> seen_active (set_links ls ! j)) \<and>
     (\<forall>j. k \<le> j \<and> j < length (set_links ls) \<longrightarrow> link_proxy (set_links ls ! j) = None)"

text \<open>No proxy beyond the ones \<open>n_links\<close> counts.\<close>

definition links_tight :: "pwf_stream \<Rightarrow> bool" where
  "links_tight s \<longleftrightarrow>
     (case links s of
        None \<Rightarrow> True
      | Some ls \<Rightarrow> \<forall>j. n_links ls \<le> j \<and> j < length (set_links ls) \<longrightarrow> link_proxy (set_links ls ! j) = None)"

definition proxies_of :: "pwf_stream \<Rightarrow> nat list" where
  "proxies_of s = (case links s of None \<Rightarrow> [] | Some ls \<Rightarrow> List.map_filter link_proxy (set_links ls))"

lemma map_filter_append: "List.map_filter f (xs @ ys) = List.map_filter f xs @ List.map_filter f ys"
  by (simp add: map_filter_def)

lemma map_filter_none: "\<forall>x\<in>set xs. f x = None \<Longrightarrow> List.map_filter f xs = []"
  by (auto simp: map_filter_def filter_empty_conv)

lemma release_links_tight:
  assumes "links s = Some ls" and "links_tight s"
  shows "calls (pwf_stream_release_links s) = calls s @ [Loop_lock] @ map Proxy_destroy (proxies_of s) @ [Loop_unlock]"
proof -
  have "\<forall>l\<in>set (drop (n_links ls) (set_links ls)). link_proxy l = None"
    using assms by (auto simp: links_tight_def in_set_conv_nth)
  then have "List.map_filter link_proxy (drop (n_links ls) (set_links ls)) = []" by (rule map_filter_none)
  then have "List.map_filter link_proxy (take (n_links ls) (set_links ls)) = List.map_filter link_proxy (set_links ls)"
    using map_filter_append [of link_proxy "take (n_links ls) (set_links ls)" "drop (n_links ls) (set_links ls)"] by simp
  then show ?thesis using assms(1) by (simp add: pwf_stream_release_links_def destroy_proxies_def proxies_of_def)
qed

lemma link_pairs_spec:
  assumes "links s = Some ls" and "linked_upto i ls" and "length (set_links ls) = i + length pairs"
    and "link_pairs env g0 we own tgt i pairs s = (Some res, s')"
  shows "stream_keeps s s' \<and>
    (res = PWF_OK \<longrightarrow> (\<exists>ls'. links s' = Some ls' \<and> target_node_id ls' = target_node_id ls \<and>
       length (set_links ls') = length (set_links ls) \<and> linked_upto (length (set_links ls)) ls')) \<and>
    (failed res \<longrightarrow> links s' = None \<and>
       (\<exists>s2. links s2 \<noteq> None \<and> links_tight s2 \<and> s' = emit [Log PWF_LOG_ERROR] (pwf_stream_release_links s2)))"
  using assms
proof (induction pairs arbitrary: i s ls)
  case Nil
  then show ?case by simp
next
  case (Cons pr pairs)
  obtain o0 p0 where pr: "pr = (o0, p0)" by fastforce
  from Cons.prems(4) obtain o1 p1 where ports: "port_at g0 (ports (registry s)) o0 = Some o1"
      "port_at g0 (ports (registry s)) p0 = Some p1"
    by (cases "port_at g0 (ports (registry s)) o0"; cases "port_at g0 (ports (registry s)) p0") (auto simp: pr)
  let ?one = "pwf_stream_link_one (env i) i
      (if we then own else tgt) (if we then port_id o1 else port_id p1)
      (if we then tgt else own) (if we then port_id p1 else port_id o1) s"
  obtain ro s1 where ro: "?one = (ro, s1)" by fastforce
  with Cons.prems(4) ports obtain r where "ro = Some r" by (cases ro) (simp_all add: pr)
  with ro have one: "?one = (Some r, s1)" by simp
  have i: "i < length (set_links ls)" using Cons.prems(3) by simp
  note spec = link_one_spec [OF Cons.prems(1) i one]
  from spec(2) obtain l1 where l1: "links s1 = Some l1" "target_node_id l1 = target_node_id ls"
      "length (set_links l1) = length (set_links ls)"
      "\<forall>j<length (set_links ls). j \<noteq> i \<longrightarrow>
         link_proxy (set_links l1 ! j) = link_proxy (set_links ls ! j) \<and>
         (seen_active (set_links ls ! j) \<longrightarrow> seen_active (set_links l1 ! j))"
      "r = PWF_OK \<longrightarrow> link_proxy (set_links l1 ! i) \<noteq> None \<and> seen_active (set_links l1 ! i)"
    by blast
  define s2 where "s2 = s1\<lparr>links := Some (l1\<lparr>n_links := i + 1\<rparr>)\<rparr>"
  have keeps: "stream_keeps s s2" using spec(1) by (simp add: s2_def)
  have tight: "links_tight s2" "links s2 \<noteq> None"
    using l1 Cons.prems(2) by (auto simp: s2_def links_tight_def linked_upto_def)
  have run: "(if failed r then (Some r, emit [Log PWF_LOG_ERROR] (pwf_stream_release_links s2))
      else if port_at g0 (ports (registry s2)) p0 = None then (None, fault Use_after_free s2)
      else link_pairs env g0 we own tgt (i + 1) pairs (emit [Log PWF_LOG_INFO] s2)) = (Some res, s')"
    using Cons.prems(4)
    by (simp only: pr link_pairs.simps ports one l1(1) s2_def Let_def option.case prod.case)
  show ?case
  proof (cases "failed r")
    case True
    with run have r: "res = r" "s' = emit [Log PWF_LOG_ERROR] (pwf_stream_release_links s2)" by simp_all
    have "stream_keeps (pwf_stream_release_links s2) s'" unfolding r by (rule stream_keeps_emit) simp
    with stream_keeps_release have "stream_keeps s2 s'" by (rule stream_keeps_trans)
    with keeps have "stream_keeps s s'" by (rule stream_keeps_trans)
    then show ?thesis using r True tight release_links_frame(3) [of s2] by auto
  next
    case False
    then have rec: "link_pairs env g0 we own tgt (i + 1) pairs (emit [Log PWF_LOG_INFO] s2) = (Some res, s')"
      using run by (auto split: if_splits)
    have upto: "linked_upto (i + 1) (l1\<lparr>n_links := i + 1\<rparr>)"
      using Cons.prems(2) l1 i False by (auto simp: linked_upto_def less_Suc_eq)
    have "stream_keeps s2 (emit [Log PWF_LOG_INFO] s2)" by (rule stream_keeps_emit) simp
    with keeps have "stream_keeps s (emit [Log PWF_LOG_INFO] s2)" by (rule stream_keeps_trans)
    with Cons.IH [OF _ upto _ rec] l1(2,3) Cons.prems(3) stream_keeps_trans
    show ?thesis by (auto simp: s2_def)
  qed
qed

text \<open>Settings, state and well-formedness survive the round trips to the server.\<close>

definition stream_inv :: "pwf_stream \<Rightarrow> pwf_stream \<Rightarrow> bool" where
  "stream_inv s t \<longleftrightarrow> same_settings s t \<and> only_stops s t \<and> (stream_ok s \<longrightarrow> stream_ok t)"

lemma stream_inv_refl [simp]: "stream_inv s s"
  by (simp add: stream_inv_def)

lemma registry_ok_bound [simp]: "registry_ok (reg\<lparr>bound := b\<rparr>) = registry_ok reg"
  by (simp add: registry_ok_def)

lemma stream_ok_conn:
  "loop k = loop (conn c) \<Longrightarrow> core k = core (conn c) \<Longrightarrow> stream_ok (c\<lparr>conn := k\<rparr>) = stream_ok c"
  "stream_ok (c\<lparr>registry := (registry c)\<lparr>bound := b\<rparr>\<rparr>) = stream_ok c"
  by (simp_all add: stream_ok_def)

interpretation stream_client: client_inv stream_dispatch "stream_inv s" for s
proof
  fix c e
  assume "stream_inv s c"
  then show "stream_inv s (stream_dispatch e c)"
    using stream_settings.dispatch_inv [of s c e] stream_stops.dispatch_inv [of s c e] stream_ok_loop.dispatch_inv [of c e]
    by (auto simp: stream_inv_def)
next
  fix c and k :: pwf_pw_core_conn
  assume "stream_inv s c" and "loop k = loop (conn c)" and "core k = core (conn c)"
  then show "stream_inv s (c\<lparr>conn := k\<rparr>)"
    by (simp add: stream_inv_def same_settings_def only_stops_def stream_ok_conn)
next
  fix c cs
  assume "stream_inv s c"
  then show "stream_inv s (emit cs c)" by (simp add: stream_inv_def same_settings_def only_stops_def)
next
  fix c b
  assume "stream_inv s c"
  then show "stream_inv s (c\<lparr>registry := (registry c)\<lparr>bound := b\<rparr>\<rparr>)"
    by (simp add: stream_inv_def same_settings_def only_stops_def stream_ok_conn)
qed

interpretation unlinked_client: client_inv stream_dispatch "\<lambda>c. links c = None"
  by unfold_locales (simp_all add: links_None_dispatch)

lemma stream_bind:
  assumes "pwf_pw_registry_bind stream_dispatch got env s = (res, s')"
  shows "well_behaved s s'" "same_settings s s'" "only_stops s s'" "res \<le> 0" "0 \<le> res \<Longrightarrow> bound (registry s')"
    "links s = None \<Longrightarrow> links s' = None"
proof -
  have "stream_inv s s'" using stream_client.bind_inv [OF _ assms] by simp
  then show "well_behaved s s'" "same_settings s s'" "only_stops s s'"
    using stream_loop.bind_spec [OF assms] by (auto simp: stream_inv_def well_behaved_def)
  show "res \<le> 0" "0 \<le> res \<Longrightarrow> bound (registry s')" using stream_loop.bind_spec [OF assms] by simp_all
  show "links s = None \<Longrightarrow> links s' = None" by (rule unlinked_client.bind_inv [OF _ assms])
qed

lemma link_ports_spec:
  assumes un: "links s = None" and run: "link_ports env own_node target_node s = (Some res, s')"
  shows "stream_keeps s s'"
    and "res = PWF_OK \<Longrightarrow> \<exists>ls. links s' = Some ls \<and> target_node_id ls = target_node \<and>
       length (set_links ls) = length (node_ports (registry s) own_node (pwf_stream_own_direction s)) \<and>
       linked_upto (length (set_links ls)) ls"
    and "failed res \<Longrightarrow> links s' = None"
proof -
  let ?own = "pwf_stream_own_direction s"
  define we where "we \<longleftrightarrow> ?own = SPA_DIRECTION_OUTPUT"
  define peer_dir where "peer_dir = (if we then SPA_DIRECTION_INPUT else SPA_DIRECTION_OUTPUT)"
  define n_own where "n_own = length (node_ports (registry s) own_node ?own)"
  define n_peer where "n_peer = length (node_ports (registry s) target_node peer_dir)"
  define own where "own = sort_key ordinal (take PWF_MAX_CHANNELS (node_ports (registry s) own_node ?own))"
  define peer where "peer = sort_key ordinal (take PWF_MAX_CHANNELS (node_ports (registry s) target_node peer_dir))"
  define pairs where "pairs = fst (pwf_stream_pair_ports n_own n_peer)"
  define surplus where "surplus = snd (pwf_stream_pair_ports n_own n_peer)"
  have lists: "pwf_pw_registry_list_ports (registry s) own_node ?own True PWF_MAX_CHANNELS = (n_own, Some own)"
    "pwf_pw_registry_list_ports (registry s) target_node peer_dir True PWF_MAX_CHANNELS = (n_peer, Some peer)"
    by (simp_all add: list_ports_eq n_own_def own_def n_peer_def peer_def)
  have pair: "pwf_stream_pair_ports n_own n_peer = (pairs, surplus)" by (simp add: pairs_def surplus_def)
  define ls0 where "ls0 = \<lparr>set_links = replicate pairs link_zero, n_links = 0, target_node_id = target_node\<rparr>"
  define s1 where "s1 = s\<lparr>links := Some ls0\<rparr>"
  have eq: "link_ports env own_node target_node s =
    (if n_own > PWF_MAX_CHANNELS \<or> n_peer > PWF_MAX_CHANNELS then (Some PWF_ERR_INVALID_ARG, s)
     else if pairs = 0 then (Some PWF_ERR_INVALID_ARG, emit [Log PWF_LOG_ERROR] s)
     else if \<not> le_set_ok env \<or> \<not> le_links_ok env then (Some PWF_ERR_NO_MEMORY, s)
     else (case link_pairs (le_link env) (ports (registry s)) we own_node target_node 0
                       (take pairs (zip own peer)) s1 of
                  (None, s2) \<Rightarrow> (None, s2)
                | (Some res, s2) \<Rightarrow>
                    if failed res then (Some res, s2)
                    else if surplus > 0
                    then (if port_at (ports (registry s)) (ports (registry s2)) (peer ! pairs) = None
                          then (None, fault Use_after_free s2)
                          else (Some PWF_OK, emit [Log PWF_LOG_WARNING] s2))
                    else (Some PWF_OK, s2)))"
    by (simp only: link_ports_def Let_def we_def [symmetric] peer_dir_def [symmetric] lists pair prod.case
        option.sel s1_def ls0_def)
  have "stream_keeps s s' \<and> (failed res \<longrightarrow> links s' = None) \<and>
    (res = PWF_OK \<longrightarrow> (\<exists>ls. links s' = Some ls \<and> target_node_id ls = target_node \<and>
       length (set_links ls) = n_own \<and> linked_upto (length (set_links ls)) ls))"
  proof (cases "n_own > PWF_MAX_CHANNELS \<or> n_peer > PWF_MAX_CHANNELS \<or> pairs = 0 \<or> \<not> le_set_ok env \<or> \<not> le_links_ok env")
    case True
    then have "failed res \<and> (s' = s \<or> s' = emit [Log PWF_LOG_ERROR] s)"
      using run unfolding eq by (auto split: if_splits)
    then show ?thesis using un stream_keeps_emit [of "[Log PWF_LOG_ERROR]" s] by auto
  next
    case False
    then have pairs: "pairs = n_own" "pairs \<le> n_peer" "n_own \<le> PWF_MAX_CHANNELS" "n_peer \<le> PWF_MAX_CHANNELS"
      using pair by (auto simp: pwf_stream_pair_ports_def split: if_splits)
    let ?zip = "take pairs (zip own peer)"
    have zip: "length ?zip = pairs" using pairs by (simp add: own_def peer_def n_own_def n_peer_def min_def)
    obtain r s2 where loop: "link_pairs (le_link env) (ports (registry s)) we own_node target_node 0 ?zip s1 = (Some r, s2)"
      and s': "s' = s2 \<or> s' = emit [Log PWF_LOG_WARNING] s2" "failed res \<Longrightarrow> s' = s2" "r = res"
      using run False unfolding eq by (auto split: prod.splits option.splits if_splits)
    have "linked_upto 0 ls0" by (simp add: linked_upto_def ls0_def link_zero_def)
    moreover have "links s1 = Some ls0" "length (set_links ls0) = 0 + length ?zip"
      using zip by (simp_all add: s1_def ls0_def)
    ultimately have spec: "stream_keeps s1 s2"
      "r = PWF_OK \<Longrightarrow> \<exists>ls'. links s2 = Some ls' \<and> target_node_id ls' = target_node_id ls0 \<and>
         length (set_links ls') = length (set_links ls0) \<and> linked_upto (length (set_links ls0)) ls'"
      "failed r \<Longrightarrow> links s2 = None"
      using link_pairs_spec [OF _ _ _ loop] by blast+
    have "stream_keeps s s2" using spec(1) by (simp add: s1_def)
    then have "stream_keeps s s'" using s'(1) stream_keeps_trans stream_keeps_emit [of "[Log PWF_LOG_WARNING]" s2] by auto
    moreover have "failed res \<longrightarrow> links s' = None" using spec(3) s'(2,3) by simp
    moreover have "(res = PWF_OK \<longrightarrow> (\<exists>ls. links s' = Some ls \<and> target_node_id ls = target_node \<and>
       length (set_links ls) = n_own \<and> linked_upto (length (set_links ls)) ls))"
      using spec(2) s'(1,3) pairs(1) by (auto simp: ls0_def)
    ultimately show ?thesis by blast
  qed
  then show "stream_keeps s s'" "failed res \<Longrightarrow> links s' = None"
    "res = PWF_OK \<Longrightarrow> \<exists>ls. links s' = Some ls \<and> target_node_id ls = target_node \<and>
       length (set_links ls) = length (node_ports (registry s) own_node (pwf_stream_own_direction s)) \<and>
       linked_upto (length (set_links ls)) ls"
    by (simp_all add: n_own_def)
qed

text \<open>The whole request: refused, failed with nothing left behind, or every channel linked.\<close>

lemma stream_link_spec:
  assumes run: "stream_link th env t s = (Some res, s')"
  shows "well_behaved s s'"
    and "links s = None \<Longrightarrow> failed res \<Longrightarrow> links s' = None"
    and "res = PWF_OK \<Longrightarrow> \<not> autoconnect s \<and> state s = PWF_STREAM_STATE_RUNNING \<and> links s = None \<and>
       (\<exists>ls. links s' = Some ls \<and> pwf_stream_expected_ports s \<le> length (set_links ls) \<and>
          linked_upto (length (set_links ls)) ls)"
proof -
  obtain r s1 where r: "pwf_stream_refuse_in_callback th True s = (r, s1)" by fastforce
  obtain rb s2 where b: "pwf_pw_registry_bind stream_dispatch (le_got_registry env) (le_bind env) s1 = (rb, s2)"
    by fastforce
  define s3 where "s3 = s2\<lparr>registry := (registry s2)\<lparr>port_added_cb := True, node_removed_cb := True\<rparr>\<rparr>"
  obtain ra own_node s4 where a: "pwf_stream_await_own_ports (le_node_id env) (le_own env) (pwf_stream_expected_ports s3) s3 = ((ra, own_node), s4)"
    by (metis prod.exhaust)
  define tn where "tn = pwf_stream_resolve_target s4 (the t)"
  have eq: "stream_link th env t s =
    (if t = None \<or> t = Some [] then (Some PWF_ERR_INVALID_ARG, s)
     else if r then (Some PWF_ERR_IN_CALLBACK, s1)
     else if autoconnect s1 \<or> links s1 \<noteq> None then (Some PWF_ERR_INVALID_ARG, s1)
     else if state s1 \<noteq> PWF_STREAM_STATE_RUNNING \<or> pw_stream s1 = None then (Some PWF_ERR_NOT_CONFIGURED, s1)
     else if rb < 0 then (Some (pwf_pw_error_from_sync rb), s2)
     else if failed ra then (Some ra, s4)
     else if tn = 0 then (Some PWF_ERR_NOT_FOUND, emit [Log PWF_LOG_ERROR] s4)
     else link_ports env own_node tn s4)"
    using r b a by (cases r) (simp_all add: stream_link_def Let_def s3_def tn_def)
  have s1: "well_behaved s s1" "links s1 = links s" "autoconnect s1 = autoconnect s" "state s1 = state s"
    "stream_format s1 = stream_format s" "stream_type s1 = stream_type s" "\<not> r \<Longrightarrow> s1 = s"
    using well_behaved_refuse [OF r] refuse_frame [OF r] by auto
  note bind = stream_bind [OF b]
  have s3: "well_behaved s1 s3" "links s1 = None \<Longrightarrow> links s3 = None" "same_settings s1 s3"
    using bind by (simp_all add: s3_def well_behaved_def stream_ok_def registry_ok_def same_settings_def)
  note await = await_own_ports_spec [OF a]
  have s4: "well_behaved s s4" using s1(1) s3(1) await(1) well_behaved_trans by blast
  have un4: "links s1 = None \<Longrightarrow> links s4 = None" using s3(2) await(4) by blast
  have dir: "pwf_stream_own_direction s4 = pwf_stream_own_direction s3"
    using await(2) by (simp add: pwf_stream_own_direction_def same_settings_def)
  have exp: "pwf_stream_expected_ports s3 = pwf_stream_expected_ports s"
    using s3(3) s1(5,6) by (simp add: pwf_stream_expected_ports_def same_settings_def cong: pwf_stream_format.case_cong)
  have "well_behaved s s' \<and> (links s = None \<longrightarrow> failed res \<longrightarrow> links s' = None) \<and>
     (res = PWF_OK \<longrightarrow> \<not> autoconnect s \<and> state s = PWF_STREAM_STATE_RUNNING \<and> links s = None \<and>
       (\<exists>ls. links s' = Some ls \<and> pwf_stream_expected_ports s \<le> length (set_links ls) \<and>
          linked_upto (length (set_links ls)) ls))"
  proof (cases "(t = None \<or> t = Some [] \<or> r \<or> autoconnect s1 \<or> links s1 \<noteq> None \<or>
      state s1 \<noteq> PWF_STREAM_STATE_RUNNING \<or> pw_stream s1 = None \<or> rb < 0 \<or> failed ra \<or> tn = 0)")
    case True
    have "well_behaved s s2" using s1(1) bind(1) well_behaved_trans by blast
    moreover have "failed (pwf_pw_error_from_sync rb)" by (simp add: pwf_pw_error_from_sync_def)
    ultimately show ?thesis
      using run True s1 s4 un4 bind(6) unfolding eq by (auto split: if_splits)
  next
    case False
    then have lp: "link_ports env own_node tn s4 = (Some res, s')" and un: "links s4 = None"
      using run un4 unfolding eq by auto
    note spec = link_ports_spec [OF un lp]
    have "well_behaved s s'" using s4 stream_keeps_well_behaved [OF spec(1)] well_behaved_trans by blast
    moreover have "pwf_stream_expected_ports s \<le> length (node_ports (registry s4) own_node (pwf_stream_own_direction s4))"
      using await(5) False dir exp by simp
    ultimately show ?thesis using spec(2,3) False s1 by fastforce
  qed
  then show "well_behaved s s'"
    and "links s = None \<Longrightarrow> failed res \<Longrightarrow> links s' = None"
    and "res = PWF_OK \<Longrightarrow> \<not> autoconnect s \<and> state s = PWF_STREAM_STATE_RUNNING \<and> links s = None \<and>
       (\<exists>ls. links s' = Some ls \<and> pwf_stream_expected_ports s \<le> length (set_links ls) \<and>
          linked_upto (length (set_links ls)) ls)"
    by blast+
qed

section \<open>The other calls\<close>

lemma stream_unlink_spec:
  assumes "stream_unlink th s = (res, s')"
  shows "well_behaved s s'"
    and "res = PWF_OK \<Longrightarrow> links s \<noteq> None \<and> links s' = None"
proof -
  obtain r s1 where r: "pwf_stream_refuse_in_callback th False s = (r, s1)" by fastforce
  note s1 = well_behaved_refuse [OF r] refuse_frame [OF r]
  have rel: "well_behaved s1 (pwf_stream_release_links s1)"
    using stream_keeps_release by (rule stream_keeps_well_behaved)
  show "well_behaved s s'"
    using assms r s1(1) rel well_behaved_trans [OF s1(1) rel]
    by (cases r) (auto simp: stream_unlink_def split: if_splits)
  show "res = PWF_OK \<Longrightarrow> links s \<noteq> None \<and> links s' = None"
    using assms r s1(2) release_links_frame(3)
    by (cases r) (auto simp: stream_unlink_def split: if_splits)
qed

lemma get_target_list_spec:
  assumes "pwf_stream_get_target_list th got env out out_len True (Some s) = ((res, n, out'), Some s')"
  shows "well_behaved s s'"
    and "res = PWF_OK \<Longrightarrow> bound (registry s') \<and>
      n = length (targets (pwf_stream_target_media_class s) (items (nodes (registry s')))) \<and>
      (out = None \<longrightarrow> out' = None) \<and>
      (\<forall>xs. out = Some xs \<longrightarrow> length xs = out_len \<longrightarrow>
         out' = Some (take out_len (targets (pwf_stream_target_media_class s) (items (nodes (registry s')))) @ drop n xs))"
    and "res \<noteq> PWF_OK \<Longrightarrow> n = 0 \<and> out' = out"
proof -
  obtain r s1 where r: "pwf_stream_refuse_in_callback th True s = (r, s1)" by fastforce
  obtain rb s2 where b: "pwf_pw_registry_bind stream_dispatch got env s1 = (rb, s2)" by fastforce
  let ?cls = "pwf_stream_target_media_class s2"
  obtain m o' where l: "target_list_loop ?cls (items (nodes (registry s2))) out_len out 0 = (m, o')" by fastforce
  note s1 = well_behaved_refuse [OF r] refuse_frame [OF r]
  note bind = stream_bind [OF b]
  have eq: "((res, n, out'), s') =
    (if r then ((PWF_ERR_IN_CALLBACK, 0, out), s1)
     else if rb < 0 then ((pwf_pw_error_from_sync rb, 0, out), s2)
     else ((PWF_OK, m, o'), emit [Loop_lock, Loop_unlock] s2))"
    using assms r b l by (cases r) (auto simp: pwf_stream_get_target_list_def)
  have wb: "well_behaved s s2" using s1(1) bind(1) well_behaved_trans by blast
  then show "well_behaved s s'" using eq s1(1) well_behaved_emit [of "[Loop_lock, Loop_unlock]" s s2] by (auto split: if_splits)
  have failed: "failed (pwf_pw_error_from_sync rb)" by (simp add: pwf_pw_error_from_sync_def)
  show "res \<noteq> PWF_OK \<Longrightarrow> n = 0 \<and> out' = out" using eq by (auto split: if_splits)
  assume "res = PWF_OK"
  with eq failed have ok: "\<not> r" "0 \<le> rb" "n = m" "out' = o'" "registry s' = registry s2" by (auto split: if_splits)
  have cls: "?cls = pwf_stream_target_media_class s"
    using bind(2) s1(2) ok(1) by (simp add: pwf_stream_target_media_class_def same_settings_def)
  have n: "m = length (targets ?cls (items (nodes (registry s2))))"
    using target_list_count [of ?cls "items (nodes (registry s2))" out_len out 0] l by simp
  have null: "snd (target_list_loop cls es k None j) = None" for cls es k j
    by (induction cls es k "None :: pwf_target_info list option" j rule: target_list_loop.induct) auto
  show "bound (registry s') \<and>
      n = length (targets (pwf_stream_target_media_class s) (items (nodes (registry s')))) \<and>
      (out = None \<longrightarrow> out' = None) \<and>
      (\<forall>xs. out = Some xs \<longrightarrow> length xs = out_len \<longrightarrow>
         out' = Some (take out_len (targets (pwf_stream_target_media_class s) (items (nodes (registry s')))) @ drop n xs))"
  proof (intro conjI allI impI)
    have o': "o' = snd (target_list_loop ?cls (items (nodes (registry s2))) out_len out 0)" using l by simp
    show "bound (registry s')" using ok bind(5) by simp
    show "n = length (targets (pwf_stream_target_media_class s) (items (nodes (registry s'))))"
      using ok n cls by simp
    show "out' = None" if "out = None" using that ok(4) o' null by simp
    show "out' = Some (take out_len (targets (pwf_stream_target_media_class s) (items (nodes (registry s')))) @ drop n xs)"
      if "out = Some xs" "length xs = out_len" for xs
      using that ok o' n cls target_list_out [OF that(2), of ?cls "items (nodes (registry s2))" 0] by simp
  qed
qed

end
