(* ===== verification/Pwf_Stream_Run.thy ===== *)
theory Pwf_Stream_Run
  imports Pwf_Stream_Process Pwf_Stream_Routing_Facts
begin

text \<open>
  Streams over time: the application's calls and the loop thread's events in any order, from
  creation on. A call whose model has no result, because the code reads freed memory there, ends the
  run.
\<close>

datatype stream_op =
    Do_event stream_event
  | Do_set_audio pwf_thread stream_connect_env "pwf_audio_config option"
  | Do_set_video pwf_thread stream_connect_env "pwf_video_config option" "pwf_port_memory option"
  | Do_autoconnect bool
  | Do_target bool "string option"
  | Do_role bool "string option"
  | Do_error_callback bool
  | Do_start pwf_thread
  | Do_stop pwf_thread "stream_event schedule" bool
  | Do_link pwf_thread stream_link_env "string option"
  | Do_unlink pwf_thread
  | Do_capture pwf_thread u64 "pw_buffer option" "(pwf_dmabuf_plane list option \<times> nat) list"
  | Do_playback pwf_thread u64 u64 "pw_time option" "byte list" "pw_buffer option" "byte list \<times> u64"

text \<open>
  The callbacks of a run: a capture callback asks for the planes any number of times, a playback
  callback leaves a region and a size. What else they may call is refused there.
\<close>

definition planes_app :: "(pwf_dmabuf_plane list option \<times> nat) list \<Rightarrow> data_callback" where
  "planes_app ps th buf s = fold (\<lambda>(planes, n) t. snd (stream_get_dmabuf_planes planes n t)) ps s"

definition write_app :: "byte list \<times> u64 \<Rightarrow> playback_callback" where
  "write_app w th region available pts s = (w, s)"

text \<open>The result of a call, \<open>PWF_OK\<close> for an event, and the stream after it.\<close>

fun stream_call :: "stream_op \<Rightarrow> pwf_stream \<Rightarrow> pwf_error option \<times> pwf_stream" where
  "stream_call (Do_event e) s = (Some PWF_OK, stream_dispatch e s)"
| "stream_call (Do_set_audio th env cfg) s = map_prod Some id (stream_set_audio_config th env cfg s)"
| "stream_call (Do_set_video th env cfg opts) s = map_prod Some id (stream_set_video_config_ex th env cfg opts s)"
| "stream_call (Do_autoconnect b) s = map_prod Some id (stream_set_autoconnect b s)"
| "stream_call (Do_target ok t) s = map_prod Some id (stream_set_target ok t s)"
| "stream_call (Do_role ok r) s = map_prod Some id (stream_set_role ok r s)"
| "stream_call (Do_error_callback b) s = (Some PWF_OK, s\<lparr>error_cb := b\<rparr>)"
| "stream_call (Do_start th) s = map_prod Some id (stream_start th s)"
| "stream_call (Do_stop th sched drain) s = map_prod Some id (stream_stop th sched drain s)"
| "stream_call (Do_link th env t) s = stream_link th env t s"
| "stream_call (Do_unlink th) s = map_prod Some id (stream_unlink th s)"
| "stream_call (Do_capture th now b ps) s =
     (Some PWF_OK,
      if pw_stream s = None \<or> direction s = PWF_STREAM_DIRECTION_PLAYBACK then s
      else pwf_stream_on_process (planes_app ps) th now b s)"
| "stream_call (Do_playback th started finished time region b w) s =
     (Some PWF_OK,
      if pw_stream s = None \<or> direction s = PWF_STREAM_DIRECTION_CAPTURE then s
      else snd (pwf_stream_on_process_playback (write_app w) th started finished time region b s))"

inductive stream_runs :: "pwf_stream \<Rightarrow> stream_op list \<Rightarrow> pwf_stream \<Rightarrow> bool" where
  run_nil: "stream_runs s [] s"
| run_cons: "stream_call op s = (Some res, t) \<Longrightarrow> stream_runs t ops u \<Longrightarrow> stream_runs s (op # ops) u"

inductive_simps stream_runs_simps [simp]:
  "stream_runs s [] u"
  "stream_runs s (op # ops) u"

text \<open>What the data thread changes is of no concern to a stream's settings and state.\<close>

lemma well_behaved_cycle [simp]:
  "well_behaved s (t\<lparr>current_dmabuf_buf := x\<rparr>) = well_behaved s t" "well_behaved s (t\<lparr>dmabuf_retrieved := y\<rparr>) = well_behaved s t"
  "well_behaved s (t\<lparr>dmabuf_unretrieved := r\<rparr>) = well_behaved s t" "well_behaved s (t\<lparr>unusable := r\<rparr>) = well_behaved s t"
  "well_behaved s (t\<lparr>overrun := r\<rparr>) = well_behaved s t" "well_behaved s (fault x' t) = well_behaved s t"
  by (simp_all add: well_behaved_def held_def stream_ok_def format_ok_def fault_def cong: pwf_stream_format.case_cong)

lemma planes_app_well_behaved: "well_behaved s t \<Longrightarrow> well_behaved s (planes_app ps th buf t)"
proof (induction ps arbitrary: t)
  case (Cons p ps)
  have "well_behaved s (snd (stream_get_dmabuf_planes (fst p) (snd p) t))"
    using Cons.prems by (simp add: stream_get_dmabuf_planes_def split: option.split)
  then show ?case using Cons.IH by (simp add: planes_app_def case_prod_beta)
qed (simp add: planes_app_def)

lemma deliver_well_behaved: "well_behaved s t \<Longrightarrow> well_behaved s (pwf_stream_deliver_dmabuf (planes_app ps) th now buf pts t)"
  by (auto simp: pwf_stream_deliver_dmabuf_def Let_def planes_app_well_behaved well_behaved_emit split: option.split prod.split)

lemma capture_well_behaved: "well_behaved s (pwf_stream_on_process (planes_app ps) th now b s)"
  by (auto simp: pwf_stream_on_process_def Let_def deliver_well_behaved planes_app_well_behaved well_behaved_emit
      split: option.split list.split)

lemma fill_well_behaved:
  "well_behaved s (snd (pwf_stream_playback_fill (write_app w) th started finished region available pts s))"
  by (cases w)
     (auto simp: pwf_stream_playback_fill_def write_app_def pwf_stream_playback_note_overrun_def Let_def well_behaved_emit
      split: prod.split bool.split)

lemma playback_well_behaved:
  "well_behaved s (snd (pwf_stream_on_process_playback (write_app w) th started finished time region b s))"
proof -
  have fill: "well_behaved s s1" if "pwf_stream_playback_fill (write_app w) t a d r n p s = (x, s1)" for t a d r n p x s1
    using fill_well_behaved [of s w t a d r n p] that by simp
  show ?thesis
    by (auto simp: pwf_stream_on_process_playback_def Let_def well_behaved_emit
        split: option.split list.split prod.split dest: fill)
qed

lemma stream_op_well_behaved:
  assumes "stream_call op s = (Some res, t)"
  shows "well_behaved s t"
proof (cases op)
  case (Do_event e)
  then show ?thesis using assms stream_dispatch_well_behaved by auto
next
  case (Do_set_audio th env cfg)
  then show ?thesis using assms stream_set_audio_config_well_behaved [of s th env cfg] by (auto simp: map_prod_def split: prod.splits)
next
  case (Do_set_video th env cfg opts)
  then show ?thesis using assms stream_set_video_config_ex_well_behaved [of s th env cfg opts]
    by (auto simp: map_prod_def split: prod.splits)
next
  case (Do_autoconnect b)
  then show ?thesis using assms stream_set_autoconnect_well_behaved [of s b] by (auto simp: map_prod_def split: prod.splits)
next
  case (Do_target ok x)
  then show ?thesis using assms stream_set_target_well_behaved [of s ok x] by (auto simp: map_prod_def split: prod.splits)
next
  case (Do_role ok x)
  then show ?thesis using assms stream_set_role_well_behaved [of s ok x] by (auto simp: map_prod_def split: prod.splits)
next
  case (Do_error_callback b)
  then show ?thesis using assms by (auto simp: well_behaved_def)
next
  case (Do_start th)
  then show ?thesis using assms stream_start_well_behaved [of s th] by (auto simp: map_prod_def split: prod.splits)
next
  case (Do_stop th sched drain)
  then show ?thesis using assms stream_stop_well_behaved [of s th sched drain] by (auto simp: map_prod_def split: prod.splits)
next
  case (Do_link th env x)
  then show ?thesis using assms stream_link_spec(1) by auto
next
  case (Do_unlink th)
  then show ?thesis using assms stream_unlink_spec(1) by (auto simp: map_prod_def split: prod.splits)
next
  case (Do_capture th now b ps)
  then show ?thesis using assms capture_well_behaved by auto
next
  case (Do_playback th started finished time region b w)
  then show ?thesis using assms playback_well_behaved [of s w th started finished time region b] by (auto split: if_splits)
qed

lemma stream_runs_well_behaved: "stream_runs s ops t \<Longrightarrow> well_behaved s t"
  by (induction rule: stream_runs.induct) (auto intro: well_behaved_trans stream_op_well_behaved)

text \<open>A stream as creation hands it out.\<close>

lemma stream_alloc_ok:
  assumes "pwf_stream_alloc env m ty dir g = (Some s, f, g')"
    and "dir = PWF_STREAM_DIRECTION_PLAYBACK \<Longrightarrow> ty = PWF_DATA_AUDIO"
  shows "held s = 0" "state s = PWF_STREAM_STATE_CREATED" "links s = None" "autoconnect s"
    "dir = PWF_STREAM_DIRECTION_CAPTURE \<Longrightarrow> stream_ok (s\<lparr>data_cb := True\<rparr>)"
    "dir = PWF_STREAM_DIRECTION_PLAYBACK \<Longrightarrow> stream_ok (s\<lparr>playback_cb := True\<rparr>)"
proof -
  obtain addr where m: "m = Some addr" using assms(1) by (cases m) (auto simp: pwf_stream_alloc_def Let_def)
  define s0 where "s0 = stream_zero\<lparr>stream_id := addr, stream_type := ty, direction := dir,
      state := PWF_STREAM_STATE_CREATED, autoconnect := True\<rparr>"
  obtain res k cs where c: "pwf_pw_core_connect env (conn s0) = (res, k, cs)" by (metis prod_cases3)
  have res: "0 \<le> res" and s: "s = emit cs (s0\<lparr>conn := k\<rparr>)"
    using assms(1) m c by (auto simp: pwf_stream_alloc_def Let_def s0_def split: if_splits)
  note k = connect_kept [OF c]
  show "held s = 0" using k(1) by (simp add: s s0_def stream_zero_def held_def)
  show "state s = PWF_STREAM_STATE_CREATED" "links s = None" "autoconnect s"
    by (simp_all add: s s0_def stream_zero_def)
  have reg: "registry_ok registry_zero" by (simp add: registry_ok_def registry_zero_def)
  show "stream_ok (s\<lparr>data_cb := True\<rparr>)" if "dir = PWF_STREAM_DIRECTION_CAPTURE"
    using k(2) [OF res] that reg by (simp add: stream_ok_def format_ok_def s s0_def stream_zero_def)
  show "stream_ok (s\<lparr>playback_cb := True\<rparr>)" if "dir = PWF_STREAM_DIRECTION_PLAYBACK"
    using k(2) [OF res] that reg assms(2) by (simp add: stream_ok_def format_ok_def s s0_def stream_zero_def)
qed

lemma created_ok:
  assumes "pwf_stream_create env m ty cb g = (Some s, g')"
  shows "stream_ok s \<and> held s = 0"
proof -
  obtain s1 f g1 where a: "pwf_stream_alloc env m ty PWF_STREAM_DIRECTION_CAPTURE g = (Some s1, f, g1)"
    and s: "s = s1\<lparr>data_cb := True\<rparr>"
    using assms by (auto simp: pwf_stream_create_def split: if_splits prod.splits option.splits)
  show ?thesis using stream_alloc_ok [OF a] by (simp add: s held_def)
qed

lemma created_playback_ok:
  assumes "pwf_stream_create_playback env m cb g = (Some s, g')"
  shows "stream_ok s \<and> held s = 0"
proof -
  obtain s1 f g1 where a: "pwf_stream_alloc env m PWF_DATA_AUDIO PWF_STREAM_DIRECTION_PLAYBACK g = (Some s1, f, g1)"
    and s: "s = s1\<lparr>playback_cb := True\<rparr>"
    using assms by (auto simp: pwf_stream_create_playback_def split: if_splits prod.splits option.splits)
  show ?thesis using stream_alloc_ok [OF a] by (simp add: s held_def)
qed

end
