(* ===== verification/Pwf_Stream_Properties.thy ===== *)
theory Pwf_Stream_Properties
  imports Pwf_Stream_Run
begin

text \<open>
  What streams promise: their invariant over time, what a call from inside a callback does, every
  outcome of configuring, silence of stopping and destroying, the playback arithmetic, where capture
  buffers go, and routing.
\<close>

section \<open>Concrete streams\<close>

definition ready_conn :: pwf_pw_core_conn where
  "ready_conn = conn_zero\<lparr>loop := Some 1, pw_context := True, core := True\<rparr>"

text \<open>A playback stream of two 16-bit channels at 48 kHz, running.\<close>

definition playing :: pwf_stream where
  "playing = stream_zero\<lparr>conn := ready_conn, stream_id := 9, direction := PWF_STREAM_DIRECTION_PLAYBACK,
     state := PWF_STREAM_STATE_RUNNING, format_set := True,
     stream_format := Format_audio \<lparr>au_sample_rate = 48000, au_channels = 2, au_format = SPA_AUDIO_FORMAT_S16\<rparr>,
     bytes_per_frame := 4, playback_cb := True, error_cb := True, autoconnect := True, pw_stream := Some 5\<rparr>"

definition quick_env :: connect_env where
  "quick_env = \<lparr>env_loop = Some 1, env_loop_start = 0, env_context = True, env_core = True, env_seq = 7,
     env_wakes = [[Core_done 0 7]], env_late = []\<rparr>"

definition good_connect :: stream_connect_env where
  "good_connect = \<lparr>destroy_events = [], new_pw_stream = Some 5, connect_res = 0, failed_events = []\<rparr>"

definition in_callback :: pwf_thread where
  "in_callback = app_thread\<lparr>pwf_stream_processing := Some 9\<rparr>"

section \<open>Over time\<close>



text \<open>From inside the stream's own callback, starting, stopping, configuring, linking,
  unlinking and destroying it are refused: the only effect is a logged error.\<close>

theorem refused_in_callback:
  assumes "pwf_stream_processing th = Some (stream_id s)"
  shows "stream_start th s = (PWF_ERR_IN_CALLBACK, emit [Log PWF_LOG_ERROR] s) \<and>
    stream_stop th sched drain s = (PWF_ERR_IN_CALLBACK, emit [Log PWF_LOG_ERROR] s) \<and>
    (stream_type s = PWF_DATA_AUDIO \<longrightarrow>
       stream_set_audio_config th env (Some cfg) s = (PWF_ERR_IN_CALLBACK, emit [Log PWF_LOG_ERROR] s)) \<and>
    stream_link th lenv (Some (c # cs)) s = (Some PWF_ERR_IN_CALLBACK, emit [Log PWF_LOG_ERROR] s) \<and>
    stream_unlink th s = (PWF_ERR_IN_CALLBACK, emit [Log PWF_LOG_ERROR] s) \<and>
    stream_destroy th evs g s = (False, emit [Log PWF_LOG_ERROR] s, g)"
  using assms
  by (simp add: stream_start_def stream_stop_def stream_set_audio_config_def stream_link_def stream_unlink_def
      stream_destroy_def pwf_stream_refuse_in_callback_def Let_def)

theorem refused_in_callback_witness:
  "stream_start in_callback playing = (PWF_ERR_IN_CALLBACK, emit [Log PWF_LOG_ERROR] playing)"
  using refused_in_callback [of in_callback playing] by (simp add: in_callback_def playing_def)

section \<open>Configuring\<close>

lemma internal_connect_ok_settings:
  assumes "pwf_stream_internal_connect env params dmabuf s = (res, t)"
  shows "stream_format t = stream_format s" "format_set t = format_set s" "target t = target s"
    "bytes_per_frame t = bytes_per_frame s"
  using internal_connect_frame(5) [OF assms] by (simp_all add: same_settings_def)

text \<open>C36: error. Every outcome of configuring an audio stream: success leaves the new format, frame
  size and state and a connected stream; a failed connection leaves no stream connected, the old
  format and a state that at most went from running to stopped; any other error changes nothing but
  the log.\<close>

theorem audio_config_outcome:
  assumes run: "stream_set_audio_config th env (Some cfg) s = (res, t)"
  shows "(res = PWF_OK \<and> state t = PWF_STREAM_STATE_FORMAT_SET \<and> pw_stream t = new_pw_stream env \<and>
            pw_stream t \<noteq> None \<and> format_set t \<and>
            stream_format t = Format_audio \<lparr>au_sample_rate = sample_rate cfg, au_channels = channels cfg,
                                            au_format = audio_config_format cfg\<rparr> \<and>
            bytes_per_frame t = pwf_audio_bytes_per_frame (audio_config_format cfg) (channels cfg)) \<or>
         (res = PWF_ERR_CONNECT_FAILED \<and> pw_stream t = None \<and> only_stops s t \<and>
            stream_format t = stream_format s \<and> format_set t = format_set s) \<or>
         (res \<in> {PWF_ERR_INVALID_ARG, PWF_ERR_IN_CALLBACK, PWF_ERR_INVALID_FORMAT} \<and>
            (t = s \<or> t = emit [Log PWF_LOG_ERROR] s))"
proof -
  obtain r s1 where r: "pwf_stream_refuse_in_callback th True s = (r, s1)" by fastforce
  note s1 = refuse_frame [OF r]
  let ?fmt = "audio_config_format cfg"
  obtain rc t1 where c: "pwf_stream_internal_connect env
      [pwf_spa_build_audio_format cfg ?fmt, pwf_spa_build_meta_header, pwf_spa_build_cpu_buffers] False s1 = (rc, t1)"
    by fastforce
  note fr = internal_connect_frame(2,4) [OF c] internal_connect_ok_settings [OF c]
  have eq: "stream_set_audio_config th env (Some cfg) s =
    (if stream_type s \<noteq> PWF_DATA_AUDIO then (PWF_ERR_INVALID_ARG, s)
     else if r then (PWF_ERR_IN_CALLBACK, s1)
     else if sample_rate cfg \<le> 0 \<or> channels cfg \<le> 0 \<or> ?fmt = SPA_AUDIO_FORMAT_UNKNOWN then (PWF_ERR_INVALID_FORMAT, s1)
     else if failed rc then (rc, t1)
     else (PWF_OK, t1\<lparr>stream_format := Format_audio \<lparr>au_sample_rate = sample_rate cfg, au_channels = channels cfg,
              au_format = ?fmt\<rparr>, bytes_per_frame := pwf_audio_bytes_per_frame ?fmt (channels cfg),
              format_set := True, state := PWF_STREAM_STATE_FORMAT_SET\<rparr>))"
    using r c by (simp add: stream_set_audio_config_def Let_def)
  show ?thesis
    using run unfolding eq using fr s1 by (auto split: if_splits)
qed

definition fresh :: pwf_stream where
  "fresh = stream_zero\<lparr>conn := ready_conn, stream_id := 9, data_cb := True, autoconnect := True\<rparr>"

definition stereo :: pwf_audio_config where
  "stereo = \<lparr>sample_rate = 48000, channels = 2, sample_format = Some ''S16''\<rparr>"

theorem audio_config_outcome_witness:
  "bytes_per_frame (snd (stream_set_audio_config app_thread good_connect (Some stereo) fresh)) = 4"
proof -
  obtain res t where run: "stream_set_audio_config app_thread good_connect (Some stereo) fresh = (res, t)" by fastforce
  have fmt: "audio_config_format stereo = SPA_AUDIO_FORMAT_S16"
    by (simp add: audio_config_format_def stereo_def pwf_spa_lookup_audio_format_def pwf_audio_sample_formats_def)
  have "res = PWF_OK"
    using run fmt by (simp add: stream_set_audio_config_def pwf_stream_refuse_in_callback_def fresh_def stream_zero_def
        app_thread_def ready_conn_def conn_zero_def Let_def stereo_def good_connect_def pwf_stream_internal_connect_def)
  then have "bytes_per_frame t = pwf_audio_bytes_per_frame (audio_config_format stereo) (channels stereo)"
    using audio_config_outcome [OF run] by simp
  then show ?thesis using run fmt by (simp add: stereo_def pwf_audio_bytes_per_frame_def)
qed

section \<open>Lost sources, stopping and destroying\<close>

text \<open>C34: safety. However many events follow a loss, the error callback is called at most once for the
  stream that was running and once for the device it was linked to.\<close>

theorem loss_reported_once:
  "errors_reported (fold stream_dispatch evs s) \<le>
     errors_reported s + (if state s = PWF_STREAM_STATE_RUNNING then 1 else 0) + (if links s \<noteq> None then 1 else 0)"
  using fold_dispatch_errors [of evs s] by (simp add: errors_owed_def)

lemma teardown_silent:
  assumes "state s \<noteq> PWF_STREAM_STATE_RUNNING" and "links s = None"
  shows "errors_reported (pwf_stream_teardown evs s) = errors_reported s"
proof -
  let ?d = "\<lambda>t. destroy_pw_stream evs t"
  have quiet: "filter (\<lambda>c. case c of Error_callback _ \<Rightarrow> True | _ \<Rightarrow> False) (snd (pwf_pw_core_teardown k)) = []" for k
    by (simp add: pwf_pw_core_teardown_def Let_def)
  have "errors_reported (?d (emit [Loop_lock] (s\<lparr>use_dmabuf := False\<rparr>))) = errors_reported s"
    "errors_reported (?d (s\<lparr>use_dmabuf := False\<rparr>)) = errors_reported s"
    using assms by (simp_all add: destroy_pw_stream_errors errors_reported_emit)
  moreover have "errors_reported (emit cs (u\<lparr>conn := k'\<rparr>)) = errors_reported u"
    if "pwf_pw_core_teardown k = (k', cs)" for k k' cs and u :: pwf_stream
    using quiet [of k] that by (simp add: errors_reported_emit)
  ultimately show ?thesis
    by (auto simp: pwf_stream_teardown_def Let_def errors_reported_emit split: prod.split)
qed

lemma stop_now:
  assumes "\<not> fst (pwf_stream_refuse_in_callback th False s)"
  shows "state (snd (stream_stop th sched False s)) \<noteq> PWF_STREAM_STATE_RUNNING"
    and "errors_reported (snd (stream_stop th sched False s)) = errors_reported s"
  using assms
  by (auto simp: stream_stop_def pwf_stream_refuse_in_callback_def Let_def errors_reported_emit)

text \<open>Stopping at once and destroying a stream never call the error callback, although the
  calls they make into PipeWire may still dispatch events to the stream's listener.\<close>

theorem stop_and_destroy_silent:
  assumes "pwf_stream_processing th \<noteq> Some (stream_id s)" and "on_loop th = None"
  shows "errors_reported (snd (stream_stop th sched False s)) = errors_reported s \<and>
    errors_reported (fst (snd (stream_destroy th evs g s))) = errors_reported s \<and> fst (stream_destroy th evs g s)"
proof -
  have go: "pwf_stream_refuse_in_callback th b s = (False, s)" for b
    using assms by (cases "loop (conn s)") (auto simp: pwf_stream_refuse_in_callback_def Let_def)
  define s2 where "s2 = (if state s = PWF_STREAM_STATE_RUNNING then snd (stream_stop th ([], []) False s) else s)"
  define s3 where "s3 = pwf_stream_release_links s2"
  have s2: "state s2 \<noteq> PWF_STREAM_STATE_RUNNING" "errors_reported s2 = errors_reported s"
    using stop_now [of th s "([], [])"] go [of False] by (auto simp: s2_def)
  have s3: "state s3 \<noteq> PWF_STREAM_STATE_RUNNING" "links s3 = None" "errors_reported s3 = errors_reported s"
    using s2 release_links_frame [of s2] by (simp_all add: s3_def)
  define s4 where "s4 = (if loop (conn s3) \<noteq> None
      then emit ([Loop_lock] @ snd (pwf_pw_registry_teardown (registry s3)) @ [Loop_unlock])
             (s3\<lparr>registry := fst (pwf_pw_registry_teardown (registry s3))\<rparr>) else s3)"
  have s4: "state s4 \<noteq> PWF_STREAM_STATE_RUNNING" "links s4 = None" "errors_reported s4 = errors_reported s"
    using s3 by (auto simp: s4_def errors_reported_emit pwf_pw_registry_teardown_def)
  have "stream_destroy th evs g s = (True, (pwf_stream_teardown evs s4)\<lparr>target := None, role := None\<rparr>, pwf_pw_global_deinit g)"
    using go [of True] by (simp add: stream_destroy_def Let_def s2_def s3_def s4_def case_prod_beta)
  then show ?thesis using teardown_silent [OF s4(1,2)] s4(3) stop_now(2) [of th s sched] go [of False] by simp
qed

theorem stop_and_destroy_silent_witness:
  "fst (stream_destroy app_thread [Ev_state_changed PW_STREAM_STATE_STREAMING PW_STREAM_STATE_UNCONNECTED] pw_global_start playing)"
  using stop_and_destroy_silent [of app_thread playing "([], [])"
      "[Ev_state_changed PW_STREAM_STATE_STREAMING PW_STREAM_STATE_UNCONNECTED]" pw_global_start]
  by (simp add: app_thread_def)

section \<open>A whole life\<close>

text \<open>How many of a stream's links go through a proxy.\<close>

definition linked_through :: "nat \<Rightarrow> pwf_stream \<Rightarrow> nat" where
  "linked_through q s =
     (case links s of None \<Rightarrow> 0
      | Some ls \<Rightarrow> count_list (List.map_filter link_proxy (take (n_links ls) (set_links ls))) q)"

lemma count_proxy_destroys: "count_list (map Proxy_destroy ps) (Proxy_destroy q) = count_list ps q"
  by (induction ps) simp_all

lemma destroyed_stream_update [simp]:
  "destroyed q (s\<lparr>state := st\<rparr>) = destroyed q s" "destroyed q (s\<lparr>drained := b\<rparr>) = destroyed q s"
  "destroyed q (s\<lparr>links := l\<rparr>) = destroyed q s" "destroyed q (s\<lparr>use_dmabuf := b\<rparr>) = destroyed q s"
  "destroyed q (s\<lparr>pw_stream := p\<rparr>) = destroyed q s" "destroyed q (s\<lparr>target := t\<rparr>) = destroyed q s"
  "destroyed q (s\<lparr>role := t\<rparr>) = destroyed q s"
  by (simp_all add: destroyed_def)

lemma release_links_destroys:
  "destroyed q (pwf_stream_release_links s) = destroyed q s + linked_through q s"
  by (simp add: pwf_stream_release_links_def linked_through_def destroyed_emit destroy_proxies_def count_proxy_destroys
      split: option.split)

text \<open>Without links, the loop thread destroys no proxy and makes no link.\<close>

lemma dispatch_unlinked:
  assumes "links s = None"
  shows "links (stream_dispatch e s) = None \<and> destroyed q (stream_dispatch e s) = destroyed q s"
proof (cases e)
  case (Ev_registry ev)
  with assms show ?thesis
    by (auto simp: stream_registry_event_def pwf_stream_on_port_added_def pwf_stream_on_node_removed_def destroyed_emit
        split: registry_notice.split prod.split)
qed (use assms in \<open>auto simp: stream_callback_defs destroyed_emit split: option.split\<close>)

lemma fold_unlinked:
  assumes "links s = None"
  shows "links (fold stream_dispatch evs s) = None \<and> destroyed q (fold stream_dispatch evs s) = destroyed q s"
  using assms by (induction evs arbitrary: s) (auto simp: dispatch_unlinked)

lemma teardown_unlinked:
  assumes "links s = None" and "loop (conn s) \<noteq> None"
  shows "links (pwf_stream_teardown evs s) = None" "destroyed q (pwf_stream_teardown evs s) = destroyed q s"
    "held (pwf_stream_teardown evs s) = held s" "pw_stream (pwf_stream_teardown evs s) = None"
    "loop (conn (pwf_stream_teardown evs s)) = None" "\<not> core (conn (pwf_stream_teardown evs s))"
    "\<not> pw_context (conn (pwf_stream_teardown evs s))"
proof -
  let ?u = "s\<lparr>use_dmabuf := False\<rparr>"
  let ?e = "emit [Stream_destroy (pw_stream s)] (emit [Loop_lock] ?u)"
  define v where "v = (if pw_stream s \<noteq> None then emit [Loop_unlock] (destroy_pw_stream evs (emit [Loop_lock] ?u)) else ?u)"
  have "same_client ?e (fold stream_dispatch evs ?e)" by (rule stream_loop.same.fold_inv) simp
  then have v: "links v = None" "destroyed q v = destroyed q s" "held v = held s" "pw_stream v = None"
    using fold_unlinked [of ?e evs q] assms(1)
    by (auto simp: v_def destroy_pw_stream_def same_client_def destroyed_emit Let_def)
  obtain k cs where t: "pwf_pw_core_teardown (conn v) = (k, cs)" by fastforce
  have cs: "lock_depth cs = 0" "count_list cs (Proxy_destroy q) = 0"
    using t by (auto simp: pwf_pw_core_teardown_def Let_def)
  have eq: "pwf_stream_teardown evs s = emit cs (v\<lparr>conn := k\<rparr>)"
    using assms(2) t by (auto simp: pwf_stream_teardown_def v_def Let_def)
  show "links (pwf_stream_teardown evs s) = None" "destroyed q (pwf_stream_teardown evs s) = destroyed q s"
    "held (pwf_stream_teardown evs s) = held s" "pw_stream (pwf_stream_teardown evs s) = None"
    "loop (conn (pwf_stream_teardown evs s)) = None" "\<not> core (conn (pwf_stream_teardown evs s))"
    "\<not> pw_context (conn (pwf_stream_teardown evs s))"
    using teardown_clears [OF t] cs v by (simp_all add: eq destroyed_emit)
qed

text \<open>Stopping at once, or not at all when the stream is not running.\<close>

lemma stopped_unlinks:
  assumes "\<not> fst (pwf_stream_refuse_in_callback th False s)"
  defines "t \<equiv> (if state s = PWF_STREAM_STATE_RUNNING then snd (stream_stop th ([], []) False s) else s)"
  shows "links t = links s" "destroyed q t = destroyed q s" "held t = held s" "conn t = conn s"
  using assms by (auto simp: stream_stop_def pwf_stream_refuse_in_callback_def Let_def destroyed_emit)



section \<open>Playback\<close>


definition three_frames_and_a_half :: playback_callback where
  "three_frames_and_a_half th region available pts s = ((replicate 16 7, 14), s)"


text \<open>The cycle's budget in nanoseconds is the exact quotient: the product of frames and
  nanoseconds does not leave 64 bits for any region PipeWire can hand out.\<close>

theorem cycle_budget_no_overflow:
  assumes "stream_format s = Format_audio a" and "0 < au_sample_rate a" and "au_sample_rate a < 2 ^ 31"
    and "bytes_per_frame s \<noteq> 0"
  shows "unat (pwf_stream_cycle_budget_ns s (playback_available s wanted region_size)) =
    (unat (playback_available s wanted region_size) div unat (bytes_per_frame s)) * 1000000000 div nat (au_sample_rate a)"
proof -
  have "playback_available s wanted region_size \<le> ucast region_size" by (rule playback_available_le)
  then have "unat (playback_available s wanted region_size) \<le> unat region_size"
    by (simp add: word_le_nat_alt unat_ucast_u32)
  then have "unat (playback_available s wanted region_size) < 2 ^ 32" using unat_u32_bound [of region_size] by simp
  moreover have "audio_rate s = au_sample_rate a" using assms(1) by (simp add: audio_rate_def)
  ultimately show ?thesis using cycle_budget_exact [of s "playback_available s wanted region_size"] assms(2-4) by simp
qed

theorem cycle_budget_no_overflow_witness:
  "unat (pwf_stream_cycle_budget_ns playing (playback_available playing 256 65536)) = 5333333"
proof -
  have "unat (playback_available playing 256 65536) = 1024"
    by (simp add: playback_available_def playing_def)
  then show ?thesis
    using cycle_budget_no_overflow [of playing "\<lparr>au_sample_rate = 48000, au_channels = 2, au_format = SPA_AUDIO_FORMAT_S16\<rparr>" 256 65536]
    by (simp add: playing_def)
qed

text \<open>A playback cycle never offers more than the region holds, and offers exactly what
  the device asked for where that fits and its size in bytes fits \<open>size_t\<close>.\<close>

theorem playback_offer:
  assumes "0 < wanted" and "bytes_per_frame s > 0" and "unat wanted * unat (bytes_per_frame s) < 2 ^ 64"
  shows "unat (playback_available s wanted region_size) = min (unat wanted * unat (bytes_per_frame s)) (unat region_size)"
  using assms by (rule playback_available_exact)

theorem playback_offer_witness: "unat (playback_available playing 256 65536) = 1024"
  using playback_offer [of 256 playing 65536] by (simp add: playing_def word_less_nat_alt)

section \<open>Capture\<close>

text \<open>A capture cycle returns the buffer it dequeued, exactly once, whatever the buffer
  holds and whether or not there is a callback for it.\<close>

theorem capture_returns_buffer:
  assumes "\<And>th b t. buffers_queued (app th b t) = buffers_queued t"
  shows "buffers_queued (pwf_stream_on_process app th now (Some b) s) = buffers_queued s @ [buf_id b]"
proof -
  have one: "buffers_queued (emit [Stream_queue_buffer i] t) = buffers_queued t @ [i]" for i and t :: pwf_stream
    by (simp add: buffers_queued_emit map_filter_simps)
  show ?thesis using assms deliver_dmabuf_queued [of app, OF assms]
    by (auto simp: pwf_stream_on_process_def Let_def one split: list.split option.split)
qed

definition silent_app :: data_callback where
  "silent_app th b s = s"

theorem capture_returns_buffer_witness:
  "buffers_queued (pwf_stream_on_process silent_app app_thread 5
      (Some \<lparr>buf_id = 3, buffer = \<lparr>datas = [], header_pts = None\<rparr>, requested = 0, b_size = 0\<rparr>) fresh) = [3]"
  using capture_returns_buffer [of silent_app app_thread 5 "\<lparr>buf_id = 3, buffer = \<lparr>datas = [], header_pts = None\<rparr>, requested = 0, b_size = 0\<rparr>" fresh]
  by (simp add: silent_app_def fresh_def stream_zero_def buffers_queued_def map_filter_simps)

text \<open>C37: safety. The callback of a DMABUF stream runs only where the accessor answers the planes of
  the frame being delivered (two callbacks that agree there make the same cycle), and once the
  cycle is over the accessor answers none.\<close>

theorem dmabuf_only_in_callback:
  assumes "use_dmabuf s" and "length planes = planes_len"
    and agree: "\<And>th' sb t. fst (stream_get_dmabuf_planes (Some planes) planes_len t) =
        (length (dmabuf_planes (buffer b)),
         Some (take planes_len (dmabuf_planes (buffer b)) @ drop (length (dmabuf_planes (buffer b))) planes)) \<Longrightarrow>
      app th' sb t = app' th' sb t"
    and "pwf_dmabuf_buffer_present (Some (buffer b))"
  shows "pwf_stream_on_process app th now (Some b) s = pwf_stream_on_process app' th now (Some b) s \<and>
    fst (stream_get_dmabuf_planes (Some planes) planes_len (pwf_stream_on_process app th now (Some b) s)) = (0, Some planes)"
proof -
  have inside: "app th' sb (t\<lparr>current_dmabuf_buf := Some (buffer b), dmabuf_retrieved := False\<rparr>) =
      app' th' sb (t\<lparr>current_dmabuf_buf := Some (buffer b), dmabuf_retrieved := False\<rparr>)" for th' sb t
    using extract_planes_loop_array [OF assms(2), of 0 "datas (buffer b)"]
      extract_planes_loop_count [of "datas (buffer b)" "Some planes" planes_len 0]
    by (intro agree) (simp add: stream_get_dmabuf_planes_def pwf_dmabuf_extract_planes_def dmabuf_planes_def Let_def prod_eq_iff)
  have "pwf_stream_deliver_dmabuf app th' now (buffer b) pts s = pwf_stream_deliver_dmabuf app' th' now (buffer b) pts s" for th' pts
    unfolding pwf_stream_deliver_dmabuf_def Let_def inside ..
  then show ?thesis using assms(1,4)
    by (simp add: pwf_stream_on_process_def stream_get_dmabuf_planes_def Let_def)
qed

definition one_plane :: spa_data where
  "one_plane = \<lparr>d_type = SPA_DATA_DmaBuf, d_fd = 5, mapoffset = 0, maxsize = 4096, d_data = None, chunk = None\<rparr>"

theorem dmabuf_only_in_callback_witness:
  "fst (stream_get_dmabuf_planes (Some []) 0 (pwf_stream_on_process silent_app app_thread 5
      (Some \<lparr>buf_id = 3, buffer = \<lparr>datas = [one_plane], header_pts = None\<rparr>, requested = 0, b_size = 0\<rparr>)
      (fresh\<lparr>use_dmabuf := True\<rparr>))) = (0, Some [])"
  using dmabuf_only_in_callback [of "fresh\<lparr>use_dmabuf := True\<rparr>" "[]" 0
      "\<lparr>buf_id = 3, buffer = \<lparr>datas = [one_plane], header_pts = None\<rparr>, requested = 0, b_size = 0\<rparr>" silent_app silent_app app_thread 5]
  by (simp add: pwf_dmabuf_buffer_present_def one_plane_def)

section \<open>Routing\<close>

text \<open>Listing the devices of a stream's kind answers how many there are, fills the
  array from the front with as many as fit and leaves its rest alone; on any error the count is zero
  and the array untouched.\<close>

theorem target_list_contents:
  assumes "pwf_stream_get_target_list th got env (Some out) out_len True (Some s) = ((res, n, out'), Some s')"
    and "length out = out_len"
  shows "(res = PWF_OK \<longrightarrow>
      n = length (targets (pwf_stream_target_media_class s) (items (nodes (registry s')))) \<and>
      out' = Some (take out_len (targets (pwf_stream_target_media_class s) (items (nodes (registry s')))) @ drop n out)) \<and>
    (res \<noteq> PWF_OK \<longrightarrow> n = 0 \<and> out' = Some out)"
  using get_target_list_spec(2,3) [OF assms(1)] assms(2) by blast

definition with_mic :: pwf_stream where
  "with_mic = fresh\<lparr>registry := registry_zero\<lparr>bound := True,
     nodes := \<lparr>items = [\<lparr>node_id = 30, node_name = ''mic'', serial = 77, media_class = Some ''Audio/Source'', description = None\<rparr>],
               capacity = 16\<rparr>\<rparr>\<rparr>"

definition no_sync :: "stream_event sync_env" where
  "no_sync = \<lparr>sync_seq = 0, sync_wakes = [], sync_late = []\<rparr>"

theorem target_list_contents_witness:
  "\<exists>n out' s'. pwf_stream_get_target_list app_thread True no_sync (Some []) 0 True (Some with_mic) = ((PWF_OK, n, out'), Some s') \<and> n = 1"
proof -
  have ok: "fst (fst (pwf_stream_get_target_list app_thread True no_sync (Some []) 0 True (Some with_mic))) = PWF_OK"
    and reg: "registry (the (snd (pwf_stream_get_target_list app_thread True no_sync (Some []) 0 True (Some with_mic)))) = registry with_mic"
    and some: "snd (pwf_stream_get_target_list app_thread True no_sync (Some []) 0 True (Some with_mic)) \<noteq> None"
    by (simp_all add: pwf_stream_get_target_list_def pwf_stream_refuse_in_callback_def pwf_pw_registry_bind_def
        with_mic_def fresh_def stream_zero_def ready_conn_def app_thread_def Let_def pwf_stream_target_media_class_def)
  obtain res n out' h where run: "pwf_stream_get_target_list app_thread True no_sync (Some []) 0 True (Some with_mic) = ((res, n, out'), h)"
    by (metis prod_cases3 prod.exhaust)
  then obtain s' where h: "h = Some s'" using some by (cases h) auto
  have "registry s' = registry with_mic" "res = PWF_OK" using ok reg run h by simp_all
  then have "n = length (targets ''Audio/Source'' (items (nodes (registry with_mic))))"
    using target_list_contents [OF run [unfolded h]]
    by (simp add: pwf_stream_target_media_class_def with_mic_def fresh_def stream_zero_def)
  then have "n = 1" by (simp add: targets_def with_mic_def)
  then show ?thesis using run h \<open>res = PWF_OK\<close> by blast
qed

text \<open>C30: round trip. The serial a device is listed with, used as a target, finds that device, as long
  as serials are unique and not zero.\<close>

theorem listed_serial_resolves:
  assumes "e \<in> set (items (nodes (registry s)))" and "serial e \<noteq> 0"
    and "\<forall>x\<in>set (items (nodes (registry s))). serial x = serial e \<longrightarrow> x = e"
  shows "pwf_stream_resolve_target s (ti_serial (target_info_of e)) = node_id e"
  using assms by (rule resolve_listed_serial)

theorem listed_serial_resolves_witness:
  "\<exists>e\<in>set (items (nodes (registry with_mic))). pwf_stream_resolve_target with_mic (ti_serial (target_info_of e)) = 30"
  using listed_serial_resolves [of "hd (items (nodes (registry with_mic)))" with_mic]
  by (simp add: with_mic_def)


text \<open>A running mono capture stream wired by hand, its own port and a microphone's.\<close>

definition wired :: pwf_stream where
  "wired = with_mic\<lparr>state := PWF_STREAM_STATE_RUNNING, format_set := True, autoconnect := False, pw_stream := Some 5,
     stream_format := Format_audio \<lparr>au_sample_rate = 48000, au_channels = 1, au_format = SPA_AUDIO_FORMAT_S16\<rparr>,
     registry := (registry with_mic)\<lparr>ports := \<lparr>items =
       [\<lparr>port_id = 31, port_node_id = 30, port_name = ''capture'', port_direction = SPA_DIRECTION_OUTPUT, ordinal = 0\<rparr>,
        \<lparr>port_id = 41, port_node_id = 40, port_name = ''in'', port_direction = SPA_DIRECTION_INPUT, ordinal = 0\<rparr>],
       capacity = 32\<rparr>\<rparr>\<rparr>"

definition active_link :: stream_link_env where
  "active_link = \<lparr>le_got_registry = True, le_bind = no_sync, le_node_id = 40, le_own = ([], []),
     le_set_ok = True, le_links_ok = True,
     le_link = (\<lambda>i. \<lparr>link_props_ok = True, made_proxy = Some 8,
                     link_sched = ([[Ev_link_info i True PW_LINK_STATE_ACTIVE]], [])\<rparr>)\<rparr>"

definition leaving_device :: stream_link_env where
  "leaving_device = active_link\<lparr>le_link := (\<lambda>i. \<lparr>link_props_ok = True, made_proxy = Some 8,
     link_sched = ([[Ev_registry (Global_remove 30)]], [])\<rparr>)\<rparr>"

lemmas wired_defs = wired_def with_mic_def fresh_def stream_zero_def ready_conn_def conn_zero_def registry_zero_def
  active_link_def leaving_device_def app_thread_def no_sync_def

lemma wired_resolve: "pwf_str_is_all_digits ''mic'' = False"
  by (simp add: pwf_str_is_all_digits_def is_digit_def)

lemmas link_code = stream_link_def pwf_stream_refuse_in_callback_def pwf_pw_registry_bind_def
  pwf_stream_await_own_ports_def own_ports_ready_def pwf_stream_own_direction_def
  pwf_pw_registry_list_ports_def pwf_stream_resolve_target_def pwf_pw_registry_find_node_by_name_def
  link_ports_def pwf_stream_pair_ports_def port_at_def pwf_stream_link_one_def set_link_def link_settled_def
  pwf_stream_link_on_info_def link_note_state_def link_zero_def pwf_stream_expected_ports_def SPA_ID_INVALID_def
  PWF_MAX_CHANNELS_def Let_def

lemma wired_links: "fst (stream_link app_thread active_link (Some ''mic'') wired) = Some PWF_OK"
  by (simp add: link_code wired_resolve wired_defs)


text \<open>Undoing the links takes the loop lock, destroys every proxy of the stream once, in
  order, gives the lock back and forgets the set; without links it is refused and changes nothing.\<close>

theorem unlink_destroys_every_proxy:
  assumes "pwf_stream_processing th \<noteq> Some (stream_id s)" and "links_tight s"
  shows "(links s \<noteq> None \<longrightarrow> fst (stream_unlink th s) = PWF_OK \<and> links (snd (stream_unlink th s)) = None \<and>
      calls (snd (stream_unlink th s)) = calls s @ [Loop_lock] @ map Proxy_destroy (proxies_of s) @ [Loop_unlock]) \<and>
    (links s = None \<longrightarrow> stream_unlink th s = (PWF_ERR_NOT_CONFIGURED, s))"
  using assms release_links_tight [of s] release_links_frame(3) [of s]
  by (auto simp: stream_unlink_def pwf_stream_refuse_in_callback_def Let_def)

definition linked_twice :: pwf_stream where
  "linked_twice = fresh\<lparr>links := Some \<lparr>set_links = [\<lparr>link_proxy = Some 8, seen_active = True, lost = False\<rparr>,
     \<lparr>link_proxy = Some 9, seen_active = True, lost = False\<rparr>], n_links = 2, target_node_id = 30\<rparr>\<rparr>"

theorem unlink_destroys_every_proxy_witness:
  "calls (snd (stream_unlink app_thread linked_twice)) = [Loop_lock, Proxy_destroy 8, Proxy_destroy 9, Loop_unlock]"
  using unlink_destroys_every_proxy [of app_thread linked_twice]
  by (simp add: app_thread_def linked_twice_def links_tight_def proxies_of_def fresh_def stream_zero_def map_filter_simps)

text \<open>The ids written into a link's properties are never cut by their buffers: reading
  one back gives the id.\<close>

theorem link_ids_round_trip:
  "map (\<lambda>(k, v). c_strtoul32 v) (link_props out_node out_port in_node in_port) = [out_node, out_port, in_node, in_port]"
  by (simp add: link_props_def id_string_parse)


end
