(* ===== verification/Pwf_Filter_State.thy ===== *)
theory Pwf_Filter_State
  imports Pwf_Owner Pwf_Spa_Format Pwf_Dmabuf
begin

text \<open>
  \<^verbatim>\<open>src/pwf_filter_internal.h\<close> and the callbacks the loop thread runs on a filter: format changes
  and lost sources (\<^verbatim>\<open>src/pwf_filter.c\<close>, \<^verbatim>\<open>src/pwf_filter_dmabuf.c\<close>) and link states
  (\<^verbatim>\<open>src/pwf_filter_port_link.c\<close>).

  A port is named by its index in the filter's array. Byte counts in memory are \<open>nat\<close>. The blocks a
  port allocates for pushed data are in the filter's \<open>heap\<close> (the model's), so that two pointers to
  one block would be seen; an event owns its copy of the data, which is kept with it.
\<close>

section \<open>The filter\<close>

datatype pwf_filter_state =
    PWF_FILTER_STATE_CREATED | PWF_FILTER_STATE_RUNNING | PWF_FILTER_STATE_STOPPED

datatype pwf_filter_port_direction = PWF_FILTER_PORT_INPUT | PWF_FILTER_PORT_OUTPUT

record pwf_filter_audio_port_state =
  pa_sample_rate :: int
  pa_channels :: int
  pa_format :: spa_audio_format

record pwf_filter_video_port_state =
  pv_width :: int
  pv_height :: int
  pv_format :: spa_video_format

datatype port_config =
    Config_zero | Config_audio pwf_filter_audio_port_state | Config_video pwf_filter_video_port_state

datatype pwf_event_kind = PWF_EVENT_MIDI | PWF_EVENT_OSC | PWF_EVENT_PROPERTY | PWF_EVENT_UNKNOWN

text \<open>\<open>event_data\<close> is \<open>None\<close> for a NULL pointer; \<open>event_size\<close> is what the caller says.\<close>

record pwf_event =
  event_offset :: u32
  event_kind :: pwf_event_kind
  event_key :: "string option"
  event_data :: "byte list option"
  event_size :: nat

record pwf_filter_pending_event =
  pe_offset :: u32
  pe_kind :: pwf_event_kind
  pe_key :: "string option"
  pe_data :: "byte list option"
  pe_size :: nat

text \<open>A pointer handed to the callback: into the heap, or to memory PipeWire mapped.\<close>

datatype data_ptr = Heap nat | Mapped nat

record pwf_filter_port =
  port_dir :: pwf_filter_port_direction
  port_media :: pwf_data_type
  port_config :: port_config
  pushed_data :: "nat option"
  pushed_size :: nat
  pushed_capacity :: nat
  pushed_pts :: int
  pushed_pending :: bool
  delivered_data :: "nat option"
  delivered_capacity :: nat
  incoming_events :: "pwf_event growable"
  pending_events :: "pwf_filter_pending_event growable"
  event_output_capacity :: nat
  delivering_events :: "pwf_filter_pending_event growable"
  port_use_dmabuf :: bool
  port_dmabuf_buf :: "spa_buffer option"
  hold_enabled :: bool
  has_held :: bool
  held_buf :: "nat option"
  held_dmabuf_buf :: "spa_buffer option"
  held_data :: "data_ptr option"
  held_size :: nat
  held_pts :: int
  update_seq :: u64
  pw_port_name :: string
  own_global_id :: u32
  port_link_proxy :: "nat option"
  link_state_seen_active :: bool
  link_lost :: bool
  loss_reported :: bool
  link_wait :: "(bool \<times> pwf_error) option"

record pwf_filter = pwf_client +
  filter_id :: nat
  filter_name :: "string option"
  filter_state :: pwf_filter_state
  filter_ports :: "pwf_filter_port growable"
  process_cb :: bool
  filter_error_cb :: bool
  pw_filter :: "nat option"
  filter_drained :: bool
  period_hint_ns :: u32
  heap :: "nat \<rightharpoonup> byte list"

lemma emit_filter_frame [simp]:
  fixes f :: "'a pwf_filter_scheme"
  shows
  "filter_id (emit cs f) = filter_id f" "filter_name (emit cs f) = filter_name f"
  "filter_state (emit cs f) = filter_state f" "filter_ports (emit cs f) = filter_ports f"
  "process_cb (emit cs f) = process_cb f" "filter_error_cb (emit cs f) = filter_error_cb f"
  "pw_filter (emit cs f) = pw_filter f" "filter_drained (emit cs f) = filter_drained f"
  "period_hint_ns (emit cs f) = period_hint_ns f" "heap (emit cs f) = heap f"
  by (simp_all add: emit_def)

lemma held_filter_update [simp]:
  fixes f :: "'a pwf_filter_scheme"
  shows
  "held (f\<lparr>filter_state := st\<rparr>) = held f" "held (f\<lparr>filter_ports := ps\<rparr>) = held f"
  "held (f\<lparr>pw_filter := p\<rparr>) = held f" "held (f\<lparr>filter_drained := b\<rparr>) = held f"
  "held (f\<lparr>heap := h\<rparr>) = held f" "held (f\<lparr>filter_name := n\<rparr>) = held f"
  by (simp_all add: held_def)

text \<open>Reading and updating port \<open>i\<close>.\<close>

definition n_ports :: "'a pwf_filter_scheme \<Rightarrow> nat" where
  "n_ports f = length (items (filter_ports f))"

definition get_port :: "nat \<Rightarrow> 'a pwf_filter_scheme \<Rightarrow> pwf_filter_port" where
  "get_port i f = items (filter_ports f) ! i"

definition map_port ::
    "nat \<Rightarrow> (pwf_filter_port \<Rightarrow> pwf_filter_port) \<Rightarrow> 'a pwf_filter_scheme \<Rightarrow> 'a pwf_filter_scheme" where
  "map_port i u f =
     f\<lparr>filter_ports := (filter_ports f)\<lparr>items := (items (filter_ports f))[i := u (get_port i f)]\<rparr>\<rparr>"

section \<open>Formats and lost sources\<close>

text \<open>A format param, as the parsing functions of SPA answer on it.\<close>

record filter_param =
  fp_parsed :: "(spa_media_type \<times> spa_media_subtype) option"
  fp_raw :: "(spa_video_format \<times> spa_rectangle) option"
  fp_size :: "spa_rectangle option"

text \<open>The pair negotiated, when the function goes far enough to compare it.\<close>

definition negotiated_video :: "filter_param \<Rightarrow> (spa_video_format \<times> spa_rectangle) option" where
  "negotiated_video param =
     (case fp_parsed param of
        None \<Rightarrow> None
      | Some (media_type, media_subtype) \<Rightarrow>
          if media_type \<noteq> SPA_MEDIA_TYPE_video then None
          else if media_subtype = SPA_MEDIA_SUBTYPE_raw then fp_raw param
          else map_option (\<lambda>sz. (SPA_VIDEO_FORMAT_ENCODED, sz)) (fp_size param))"

definition pwf_filter_check_negotiated_video ::
    "pwf_filter_port \<Rightarrow> filter_param \<Rightarrow> 'a pwf_filter_scheme \<Rightarrow> 'a pwf_filter_scheme" where
  "pwf_filter_check_negotiated_video port param f =
     (if port_media port \<noteq> PWF_DATA_VIDEO then f
      else case (negotiated_video param, port_config port) of
          (Some (got, sz), Config_video want) \<Rightarrow>
            if got = pv_format want \<and> sint (rect_width sz) = pv_width want \<and>
               sint (rect_height sz) = pv_height want
            then f else emit [Log PWF_LOG_WARNING] f
        | _ \<Rightarrow> f)"

definition pwf_filter_dmabuf_update_params :: "nat \<Rightarrow> 'a pwf_filter_scheme \<Rightarrow> 'a pwf_filter_scheme" where
  "pwf_filter_dmabuf_update_params i f =
     (if \<not> port_use_dmabuf (get_port i f) then f
      else emit [Filter_update_params i
             [pwf_spa_build_dmabuf_buffers (if hold_enabled (get_port i f) then 1 else 0)]] f)"

definition pwf_filter_dmabuf_log_unavailable :: "nat \<Rightarrow> 'a pwf_filter_scheme \<Rightarrow> 'a pwf_filter_scheme" where
  "pwf_filter_dmabuf_log_unavailable i f =
     (if \<not> port_use_dmabuf (get_port i f) then f else emit [Log PWF_LOG_WARNING] f)"

definition pwf_filter_claim_source_loss :: "nat \<Rightarrow> 'a pwf_filter_scheme \<Rightarrow> bool \<times> 'a pwf_filter_scheme" where
  "pwf_filter_claim_source_loss i f =
     (if filter_state f \<noteq> PWF_FILTER_STATE_RUNNING \<or> loss_reported (get_port i f) then (False, f)
      else (True, map_port i (\<lambda>p. p\<lparr>loss_reported := True\<rparr>) f))"

definition call_filter_error_cb :: "nat \<Rightarrow> pwf_error \<Rightarrow> 'a pwf_filter_scheme \<Rightarrow> 'a pwf_filter_scheme" where
  "call_filter_error_cb i e f = (if filter_error_cb f then emit [Port_error_callback i e] f else f)"

text \<open>\<open>port\<close> is \<open>None\<close> for NULL, \<open>param\<close> likewise.\<close>

definition pwf_filter_on_param_changed ::
    "nat option \<Rightarrow> spa_param_type \<Rightarrow> filter_param option \<Rightarrow> 'a pwf_filter_scheme \<Rightarrow> 'a pwf_filter_scheme" where
  "pwf_filter_on_param_changed port prm param f =
     (case port of
        None \<Rightarrow> f
      | Some i \<Rightarrow>
          if prm \<noteq> SPA_PARAM_Format then f
          else case param of
              Some pm \<Rightarrow>
                let f1 = map_port i (\<lambda>p. p\<lparr>loss_reported := False\<rparr>) f
                in pwf_filter_dmabuf_update_params i (pwf_filter_check_negotiated_video (get_port i f1) pm f1)
            | None \<Rightarrow>
                if port_dir (get_port i f) \<noteq> PWF_FILTER_PORT_INPUT then f
                else case pwf_filter_claim_source_loss i f of
                    (False, f1) \<Rightarrow> f1
                  | (True, f1) \<Rightarrow>
                      let f2 = (if port_use_dmabuf (get_port i f1) then pwf_filter_dmabuf_log_unavailable i f1
                                else emit [Log PWF_LOG_WARNING] f1)
                      in call_filter_error_cb i PWF_ERR_SOURCE_UNAVAILABLE f2)"

definition pwf_filter_on_drained :: "'a pwf_filter_scheme \<Rightarrow> 'a pwf_filter_scheme" where
  "pwf_filter_on_drained f = emit [Loop_signal] (f\<lparr>filter_drained := True\<rparr>)"

section \<open>Links\<close>

definition pwf_filter_link_on_info ::
    "nat \<Rightarrow> bool \<Rightarrow> pw_link_state \<Rightarrow> 'a pwf_filter_scheme \<Rightarrow> 'a pwf_filter_scheme" where
  "pwf_filter_link_on_info i state_changed st f =
     (if \<not> state_changed then f
      else if st = PW_LINK_STATE_PAUSED \<or> st = PW_LINK_STATE_ACTIVE then
        let f1 = map_port i (\<lambda>p. p\<lparr>link_state_seen_active := True\<rparr>) f
        in if link_wait (get_port i f1) \<noteq> None
           then emit [Loop_signal] (map_port i (\<lambda>p. p\<lparr>link_wait := Some (True, PWF_OK)\<rparr>) f1)
           else f1
      else if st \<noteq> PW_LINK_STATE_ERROR \<and> st \<noteq> PW_LINK_STATE_UNLINKED then f
      else if link_wait (get_port i f) \<noteq> None
      then emit [Loop_signal] (map_port i (\<lambda>p. p\<lparr>link_wait := Some (True, PWF_ERR_INVALID_FORMAT)\<rparr>) f)
      else if \<not> link_state_seen_active (get_port i f) then f
      else
        let f1 = map_port i (\<lambda>p. p\<lparr>link_state_seen_active := False, link_lost := True\<rparr>) f
        in case pwf_filter_claim_source_loss i f1 of
             (False, f2) \<Rightarrow> f2
           | (True, f2) \<Rightarrow> call_filter_error_cb i PWF_ERR_SOURCE_UNAVAILABLE (emit [Log PWF_LOG_WARNING] f2))"

text \<open>Caller holds the loop lock.\<close>

definition pwf_filter_port_link_release :: "nat \<Rightarrow> 'a pwf_filter_scheme \<Rightarrow> 'a pwf_filter_scheme" where
  "pwf_filter_port_link_release i f =
     (let f1 = (case port_link_proxy (get_port i f) of
                  None \<Rightarrow> f
                | Some proxy \<Rightarrow>
                    map_port i (\<lambda>p. p\<lparr>port_link_proxy := None, loss_reported := True\<rparr>) (emit [Proxy_destroy proxy] f))
      in map_port i (\<lambda>p. p\<lparr>link_state_seen_active := False, link_lost := False\<rparr>) f1)"

definition pwf_filter_release_all_links :: "'a pwf_filter_scheme \<Rightarrow> 'a pwf_filter_scheme" where
  "pwf_filter_release_all_links f =
     (if loop (conn f) = None then f
      else emit [Loop_unlock]
             (fold pwf_filter_port_link_release [0..<n_ports f] (emit [Loop_lock] f)))"

section \<open>The loop thread\<close>

text \<open>
  A filter sets no registry callbacks. A port's events reach ports of the array, a link's only
  while its proxy exists, the filter's only while it does.
\<close>

datatype filter_event =
    FEv_core core_event
  | FEv_registry registry_event
  | FEv_param_changed "nat option" spa_param_type "filter_param option"
  | FEv_drained
  | FEv_link_info nat bool pw_link_state

definition port_in_range :: "nat option \<Rightarrow> 'a pwf_filter_scheme \<Rightarrow> bool" where
  "port_in_range port f = (case port of None \<Rightarrow> True | Some i \<Rightarrow> i < n_ports f)"

fun filter_dispatch :: "filter_event \<Rightarrow> pwf_filter \<Rightarrow> pwf_filter" where
  "filter_dispatch (FEv_core ev) f = f\<lparr>conn := core_dispatch ev (conn f)\<rparr>"
| "filter_dispatch (FEv_registry ev) f =
     (if bound (registry f) then f\<lparr>registry := registry_dispatch ev (registry f)\<rparr> else f)"
| "filter_dispatch (FEv_param_changed port prm param) f =
     (if pw_filter f = None \<or> \<not> port_in_range port f then f
      else pwf_filter_on_param_changed port prm param f)"
| "filter_dispatch FEv_drained f = (if pw_filter f = None then f else pwf_filter_on_drained f)"
| "filter_dispatch (FEv_link_info i state_changed st) f =
     (if i < n_ports f \<and> port_link_proxy (get_port i f) \<noteq> None
      then pwf_filter_link_on_info i state_changed st f else f)"

section \<open>What the callbacks keep\<close>

lemma n_ports_map_port [simp]: "n_ports (map_port i u f) = n_ports f"
  by (simp add: n_ports_def map_port_def)

lemma n_ports_emit [simp]: "n_ports (emit cs f) = n_ports f"
  by (simp add: n_ports_def)

lemma get_port_emit [simp]: "get_port i (emit cs f) = get_port i f"
  by (simp add: get_port_def)

lemma get_port_map_port: "i < n_ports f \<Longrightarrow> get_port j (map_port i u f) = (if j = i then u (get_port i f) else get_port j f)"
  by (simp add: n_ports_def map_port_def get_port_def)

lemma get_port_update [simp]:
  fixes f :: "'a pwf_filter_scheme"
  shows
  "get_port i (f\<lparr>conn := k\<rparr>) = get_port i f" "get_port i (f\<lparr>registry := r\<rparr>) = get_port i f"
  "get_port i (f\<lparr>filter_drained := b\<rparr>) = get_port i f" "get_port i (f\<lparr>filter_state := st\<rparr>) = get_port i f"
  "get_port i (f\<lparr>heap := h\<rparr>) = get_port i f" "get_port i (f\<lparr>pw_filter := p\<rparr>) = get_port i f"
  "n_ports (f\<lparr>conn := k\<rparr>) = n_ports f" "n_ports (f\<lparr>registry := r\<rparr>) = n_ports f"
  "n_ports (f\<lparr>filter_drained := b\<rparr>) = n_ports f" "n_ports (f\<lparr>filter_state := st\<rparr>) = n_ports f"
  "n_ports (f\<lparr>heap := h\<rparr>) = n_ports f" "n_ports (f\<lparr>pw_filter := p\<rparr>) = n_ports f"
  by (simp_all add: get_port_def n_ports_def)

lemma map_port_frame [simp]:
  fixes f :: "'a pwf_filter_scheme"
  shows
  "conn (map_port i u f) = conn f" "registry (map_port i u f) = registry f" "calls (map_port i u f) = calls f"
  "faults (map_port i u f) = faults f" "held (map_port i u f) = held f" "filter_id (map_port i u f) = filter_id f"
  "filter_name (map_port i u f) = filter_name f" "filter_state (map_port i u f) = filter_state f"
  "process_cb (map_port i u f) = process_cb f" "filter_error_cb (map_port i u f) = filter_error_cb f"
  "pw_filter (map_port i u f) = pw_filter f" "filter_drained (map_port i u f) = filter_drained f"
  "period_hint_ns (map_port i u f) = period_hint_ns f" "heap (map_port i u f) = heap f"
  "capacity (filter_ports (map_port i u f)) = capacity (filter_ports f)"
  by (simp_all add: map_port_def held_def)

text \<open>A port without the fields the loop thread's callbacks write.\<close>

definition port_core :: "pwf_filter_port \<Rightarrow> pwf_filter_port" where
  "port_core p = p\<lparr>loss_reported := False, link_state_seen_active := False, link_lost := False, link_wait := None\<rparr>"

definition same_filter :: "pwf_filter \<Rightarrow> pwf_filter \<Rightarrow> bool" where
  "same_filter f0 f \<longleftrightarrow>
     filter_id f = filter_id f0 \<and> filter_name f = filter_name f0 \<and> filter_state f = filter_state f0 \<and>
     process_cb f = process_cb f0 \<and> filter_error_cb f = filter_error_cb f0 \<and> pw_filter f = pw_filter f0 \<and>
     period_hint_ns f = period_hint_ns f0 \<and> heap f = heap f0 \<and> faults f = faults f0 \<and>
     capacity (filter_ports f) = capacity (filter_ports f0) \<and> n_ports f = n_ports f0 \<and>
     (\<forall>i<n_ports f0. port_core (get_port i f) = port_core (get_port i f0))"

lemma same_filter_refl [simp]: "same_filter f f"
  by (simp add: same_filter_def)

lemma same_filter_trans: "same_filter a b \<Longrightarrow> same_filter b c \<Longrightarrow> same_filter a c"
  by (simp add: same_filter_def)

lemma same_filter_emit: "same_filter f (emit cs f)"
  by (simp add: same_filter_def)

lemma same_filter_map_port:
  "i < n_ports f \<Longrightarrow> (\<And>p. port_core (u p) = port_core p) \<Longrightarrow> same_filter f (map_port i u f)"
  by (simp add: same_filter_def get_port_map_port)

lemmas filter_callback_defs = pwf_filter_check_negotiated_video_def pwf_filter_dmabuf_update_params_def
  pwf_filter_dmabuf_log_unavailable_def call_filter_error_cb_def pwf_filter_on_drained_def

text \<open>Facts that pass through every step of a callback.\<close>

locale filter_step =
  fixes keeps :: "pwf_filter \<Rightarrow> pwf_filter \<Rightarrow> bool"
  assumes refl: "keeps f f"
    and trans: "keeps f g \<Longrightarrow> keeps g h \<Longrightarrow> keeps f h"
    and emit: "lock_depth cs = 0 \<Longrightarrow> keeps f (emit cs f)"
    and port: "i < n_ports f \<Longrightarrow> (\<And>p. port_core (u p) = port_core p) \<Longrightarrow> keeps f (map_port i u f)"
begin

lemma emit_after: "keeps f g \<Longrightarrow> lock_depth cs = 0 \<Longrightarrow> keeps f (emit cs g)"
  using trans emit by blast

lemma port_after: "keeps f g \<Longrightarrow> i < n_ports g \<Longrightarrow> (\<And>p. port_core (u p) = port_core p) \<Longrightarrow> keeps f (map_port i u g)"
  using trans port by blast

lemma claim_keeps:
  "i < n_ports f \<Longrightarrow> pwf_filter_claim_source_loss i f = (b, g) \<Longrightarrow> keeps f g \<and> n_ports g = n_ports f"
  by (auto simp: pwf_filter_claim_source_loss_def refl port_core_def intro!: port split: if_splits)

lemma param_changed_keeps:
  assumes "port_in_range port f"
  shows "keeps f (pwf_filter_on_param_changed port prm param f)"
proof (cases port)
  case None
  then show ?thesis by (simp add: pwf_filter_on_param_changed_def refl)
next
  case (Some i)
  with assms have i: "i < n_ports f" by (simp add: port_in_range_def)
  have cleared: "keeps f (map_port i (\<lambda>p. p\<lparr>loss_reported := False\<rparr>) f)"
    by (rule port [OF i]) (simp add: port_core_def)
  obtain b g where c: "pwf_filter_claim_source_loss i f = (b, g)" by fastforce
  note g = claim_keeps [OF i c]
  show ?thesis using Some i cleared c g
    by (cases b)
       (auto simp: pwf_filter_on_param_changed_def filter_callback_defs Let_def refl
        intro!: emit_after split: option.split port_config.split prod.split)
qed

lemma link_on_info_keeps:
  assumes i: "i < n_ports f"
  shows "keeps f (pwf_filter_link_on_info i state_changed st f)"
proof -
  have up: "keeps f (map_port i (\<lambda>p. p\<lparr>link_state_seen_active := True\<rparr>) f)"
    by (rule port [OF i]) (simp add: port_core_def)
  let ?down = "map_port i (\<lambda>p. p\<lparr>link_state_seen_active := False, link_lost := True\<rparr>) f"
  have down: "keeps f ?down" by (rule port [OF i]) (simp add: port_core_def)
  obtain b g where c: "pwf_filter_claim_source_loss i ?down = (b, g)" by fastforce
  have g: "keeps f g" using claim_keeps [OF _ c] i down trans by auto
  show ?thesis using i up down c g
    by (cases b)
       (auto simp: pwf_filter_link_on_info_def call_filter_error_cb_def Let_def refl port_core_def
        intro!: emit_after port_after)
qed

end

lemma same_filter_client_step: "filter_step (\<lambda>f g. same_filter f g \<and> same_client f g)"
  by unfold_locales
     (auto intro: same_filter_trans same_client_trans same_filter_emit same_filter_map_port simp: same_client_def)

interpretation filter_callbacks: filter_step "\<lambda>f g. same_filter f g \<and> same_client f g"
  by (rule same_filter_client_step)

lemma filter_dispatch_keeps: "same_filter f (filter_dispatch e f) \<and> same_client f (filter_dispatch e f)"
proof (cases e)
  case (FEv_registry ev)
  then show ?thesis by (auto simp: same_filter_def same_client_def n_ports_def get_port_def registry_dispatch_ok)
next
  case (FEv_core ev)
  then show ?thesis by (simp add: same_filter_def same_client_def n_ports_def get_port_def)
next
  case FEv_drained
  then show ?thesis
    by (simp add: pwf_filter_on_drained_def same_filter_def same_client_def n_ports_def get_port_def)
qed (auto simp: filter_callbacks.param_changed_keeps filter_callbacks.link_on_info_keeps)

lemma filter_dispatch_result:
  "connect_result (conn f) \<le> 0 \<Longrightarrow> connect_result (conn (filter_dispatch e f)) \<le> 0"
proof (cases e)
  case (FEv_core ev)
  assume "connect_result (conn f) \<le> 0"
  with FEv_core show ?thesis by (simp add: core_client.dispatch_inv)
qed (auto simp: pwf_filter_on_param_changed_def pwf_filter_link_on_info_def pwf_filter_claim_source_loss_def
       filter_callback_defs Let_def split: option.split port_config.split prod.split)

interpretation filter_loop: client_loop filter_dispatch
  by unfold_locales (use filter_dispatch_keeps filter_dispatch_result in blast)+

interpretation filter_same: client_inv filter_dispatch "same_filter f0" for f0
proof
  fix c e
  assume "same_filter f0 c"
  then show "same_filter f0 (filter_dispatch e c)" using filter_dispatch_keeps same_filter_trans by blast
qed (simp_all add: same_filter_def n_ports_def get_port_def)

section \<open>A lost source is reported once\<close>

definition port_errors :: "nat \<Rightarrow> 'a pwf_client_scheme \<Rightarrow> nat" where
  "port_errors i f = length (filter (\<lambda>c. case c of Port_error_callback j _ \<Rightarrow> j = i | _ \<Rightarrow> False) (calls f))"

definition port_owed :: "nat \<Rightarrow> pwf_filter \<Rightarrow> nat" where
  "port_owed i f = (if filter_state f = PWF_FILTER_STATE_RUNNING \<and> \<not> loss_reported (get_port i f) then 1 else 0)"

lemma port_errors_emit:
  "port_errors i (emit cs f) =
     port_errors i f + length (filter (\<lambda>c. case c of Port_error_callback j _ \<Rightarrow> j = i | _ \<Rightarrow> False) cs)"
  by (simp add: port_errors_def)

lemma port_errors_update [simp]:
  "port_errors i (map_port j u f) = port_errors i f"
  by (simp add: port_errors_def)

lemma port_owed_emit [simp]: "port_owed i (emit cs f) = port_owed i f"
  by (simp add: port_owed_def)

text \<open>The events after which a port may report again: a new format for it.\<close>

definition new_format :: "nat \<Rightarrow> filter_event \<Rightarrow> bool" where
  "new_format i e = (case e of FEv_param_changed (Some j) SPA_PARAM_Format (Some _) \<Rightarrow> j = i | _ \<Rightarrow> False)"

lemma claim_owed:
  assumes "i < n_ports f" and "pwf_filter_claim_source_loss i f = (b, g)"
  shows "port_errors k g = port_errors k f" "port_owed k g + (if b \<and> k = i then 1 else 0) = port_owed k f"
  using assms
  by (auto simp: pwf_filter_claim_source_loss_def port_owed_def get_port_map_port split: if_splits)

lemma call_error_owed:
  "port_errors k (call_filter_error_cb i e f) \<le> port_errors k f + (if k = i then 1 else 0)"
  "port_owed k (call_filter_error_cb i e f) = port_owed k f"
  by (auto simp: call_filter_error_cb_def port_errors_emit)

lemma param_changed_owed:
  assumes "port_in_range port f" and "\<not> new_format k (FEv_param_changed port prm param)"
  shows "port_errors k (pwf_filter_on_param_changed port prm param f) +
           port_owed k (pwf_filter_on_param_changed port prm param f) \<le> port_errors k f + port_owed k f"
proof (cases port)
  case None
  then show ?thesis by (simp add: pwf_filter_on_param_changed_def)
next
  case (Some i)
  with assms(1) have i: "i < n_ports f" by (simp add: port_in_range_def)
  obtain b g where c: "pwf_filter_claim_source_loss i f = (b, g)" by fastforce
  note g = claim_owed [OF i c, of k]
  show ?thesis
  proof (cases param)
    case new: (Some pm)
    let ?f1 = "map_port i (\<lambda>p. p\<lparr>loss_reported := False\<rparr>) f"
    have "prm = SPA_PARAM_Format \<Longrightarrow> k \<noteq> i" using assms(2) new Some by (auto simp: new_format_def)
    then have "prm = SPA_PARAM_Format \<Longrightarrow> port_owed k ?f1 = port_owed k f"
      using i by (simp add: port_owed_def get_port_map_port)
    with new Some show ?thesis
      by (auto simp: pwf_filter_on_param_changed_def filter_callback_defs Let_def port_errors_emit
          split: option.split port_config.split prod.split)
  next
    case gone: None
    let ?f2 = "if port_use_dmabuf (get_port i g) then pwf_filter_dmabuf_log_unavailable i g else emit [Log PWF_LOG_WARNING] g"
    have f2: "port_errors k ?f2 = port_errors k g" "port_owed k ?f2 = port_owed k g"
      by (simp_all add: pwf_filter_dmabuf_log_unavailable_def port_errors_emit)
    show ?thesis using gone Some c g f2 call_error_owed [of k i PWF_ERR_SOURCE_UNAVAILABLE ?f2]
      by (cases b) (auto simp: pwf_filter_on_param_changed_def Let_def split: if_splits)
  qed
qed

lemma link_on_info_owed:
  assumes i: "i < n_ports f"
  shows "port_errors k (pwf_filter_link_on_info i ch st f) + port_owed k (pwf_filter_link_on_info i ch st f)
    \<le> port_errors k f + port_owed k f"
proof -
  let ?down = "map_port i (\<lambda>p. p\<lparr>link_state_seen_active := False, link_lost := True\<rparr>) f"
  obtain b g where c: "pwf_filter_claim_source_loss i ?down = (b, g)" by fastforce
  have down: "port_owed k ?down = port_owed k f" using i by (simp add: port_owed_def get_port_map_port)
  have note_ok: "port_owed k (map_port i u f) = port_owed k f" if "\<And>p. loss_reported (u p) = loss_reported p" for u
    using i that by (simp add: port_owed_def get_port_map_port)
  have note_ok2: "port_owed k (map_port i v (map_port i u f)) = port_owed k f"
    if "\<And>p. loss_reported (u p) = loss_reported p" "\<And>p. loss_reported (v p) = loss_reported p" for u v
    using i that by (simp add: port_owed_def get_port_map_port)
  show ?thesis
    using i c down claim_owed [OF _ c, of k]
      call_error_owed [of k i PWF_ERR_SOURCE_UNAVAILABLE "emit [Log PWF_LOG_WARNING] g"]
    by (cases b) (auto simp: pwf_filter_link_on_info_def Let_def port_errors_emit note_ok note_ok2 split: if_splits)
qed

lemma filter_dispatch_owed:
  assumes "\<not> new_format k e"
  shows "port_errors k (filter_dispatch e f) + port_owed k (filter_dispatch e f) \<le> port_errors k f + port_owed k f"
proof (cases e)
  case (FEv_param_changed port prm param)
  with assms show ?thesis by (auto simp: param_changed_owed)
next
  case (FEv_link_info i ch st)
  then show ?thesis by (auto simp: link_on_info_owed)
qed (auto simp: port_errors_def port_owed_def get_port_def pwf_filter_on_drained_def emit_def)

lemma fold_dispatch_owed:
  assumes "\<forall>e\<in>set evs. \<not> new_format k e"
  shows "port_errors k (fold filter_dispatch evs f) + port_owed k (fold filter_dispatch evs f) \<le>
    port_errors k f + port_owed k f"
  using assms
proof (induction evs arbitrary: f)
  case (Cons e evs)
  then have "port_errors k (fold filter_dispatch evs (filter_dispatch e f)) + port_owed k (fold filter_dispatch evs (filter_dispatch e f))
      \<le> port_errors k (filter_dispatch e f) + port_owed k (filter_dispatch e f)" by simp
  also have "\<dots> \<le> port_errors k f + port_owed k f" using filter_dispatch_owed [of k e f] Cons.prems by simp
  finally show ?case by simp
qed simp

lemma dispatch_errors_grow: "port_errors k f \<le> port_errors k (filter_dispatch e f)"
proof (cases e)
  case (FEv_param_changed port prm param)
  have "port_errors k f \<le> port_errors k (pwf_filter_on_param_changed (Some i) prm param f)" if "i < n_ports f" for i
  proof -
    obtain b g where c: "pwf_filter_claim_source_loss i f = (b, g)" by fastforce
    show ?thesis using c claim_owed(1) [OF that c, of k]
      by (cases b)
         (auto simp: pwf_filter_on_param_changed_def filter_callback_defs Let_def port_errors_emit
          split: option.split port_config.split prod.split)
  qed
  with FEv_param_changed show ?thesis
    by (cases port) (auto simp: pwf_filter_on_param_changed_def port_in_range_def)
next
  case (FEv_link_info i ch st)
  let ?down = "map_port i (\<lambda>p. p\<lparr>link_state_seen_active := False, link_lost := True\<rparr>) f"
  obtain b g where c: "pwf_filter_claim_source_loss i ?down = (b, g)" by fastforce
  have "i < n_ports f \<Longrightarrow> port_errors k f \<le> port_errors k (pwf_filter_link_on_info i ch st f)"
    using c claim_owed(1) [OF _ c, of k]
    by (cases b) (auto simp: pwf_filter_link_on_info_def call_filter_error_cb_def Let_def port_errors_emit)
  with FEv_link_info show ?thesis by simp
qed (simp_all add: port_errors_def pwf_filter_on_drained_def emit_def)

lemma fold_errors_grow: "port_errors k f \<le> port_errors k (fold filter_dispatch evs f)"
  by (induction evs arbitrary: f) (auto intro: order_trans dispatch_errors_grow)

text \<open>Whether a link call is blocked on a port does not change under it.\<close>

lemma claim_wait:
  "i < n_ports f \<Longrightarrow> pwf_filter_claim_source_loss i f = (b, g) \<Longrightarrow>
     n_ports g = n_ports f \<and> link_wait (get_port k g) = link_wait (get_port k f)"
  by (auto simp: pwf_filter_claim_source_loss_def get_port_map_port split: if_splits)

lemma link_on_info_wait:
  assumes i: "i < n_ports f"
  shows "(link_wait (get_port k (pwf_filter_link_on_info i ch st f)) = None) = (link_wait (get_port k f) = None)"
proof -
  let ?down = "map_port i (\<lambda>p. p\<lparr>link_state_seen_active := False, link_lost := True\<rparr>) f"
  obtain b g where c: "pwf_filter_claim_source_loss i ?down = (b, g)" by fastforce
  have "link_wait (get_port k g) = link_wait (get_port k f)"
    using claim_wait [OF _ c, of k] i by (simp add: get_port_map_port)
  then show ?thesis using i c
    by (cases b)
       (auto simp: pwf_filter_link_on_info_def call_filter_error_cb_def Let_def get_port_map_port split: if_splits)
qed

lemma param_changed_wait:
  assumes "port_in_range port f"
  shows "link_wait (get_port k (pwf_filter_on_param_changed port prm param f)) = link_wait (get_port k f)"
proof (cases port)
  case None
  then show ?thesis by (simp add: pwf_filter_on_param_changed_def)
next
  case (Some i)
  with assms have i: "i < n_ports f" by (simp add: port_in_range_def)
  obtain b g where c: "pwf_filter_claim_source_loss i f = (b, g)" by fastforce
  show ?thesis using Some i c claim_wait [OF i c, of k]
    by (cases b)
       (auto simp: pwf_filter_on_param_changed_def filter_callback_defs Let_def get_port_map_port
        split: option.split port_config.split prod.split)
qed

lemma filter_dispatch_wait:
  "(link_wait (get_port k (filter_dispatch e f)) = None) = (link_wait (get_port k f) = None)"
  by (cases e) (auto simp: param_changed_wait link_on_info_wait pwf_filter_on_drained_def)

end
