(* ===== verification/Pwf_Filter_Event.thy ===== *)
theory Pwf_Filter_Event
  imports Pwf_Filter_State
begin

text \<open>
  \<^verbatim>\<open>src/pwf_filter_event.c\<close>: the events of an event port. SPA's POD format is not part of the sources:
  a dequeued control sequence is the list of its controls as the SPA accessors answer on them, an
  encoded one is the list of builder calls, and \<open>pod_size\<close> is the builder's offset after them.
\<close>

section \<open>The property vocabulary\<close>

definition pwf_property_table :: "(string \<times> spa_prop) list" where
  "pwf_property_table =
     [(''volume'', SPA_PROP_volume), (''mute'', SPA_PROP_mute), (''channelVolumes'', SPA_PROP_channelVolumes)]"

definition pwf_property_find_by_name :: "string option \<Rightarrow> (string \<times> spa_prop) option" where
  "pwf_property_find_by_name name =
     (case name of None \<Rightarrow> None | Some n \<Rightarrow> find (\<lambda>e. fst e = n) pwf_property_table)"

definition pwf_property_find_by_id :: "spa_prop \<Rightarrow> (string \<times> spa_prop) option" where
  "pwf_property_find_by_id i = find (\<lambda>e. snd e = i) pwf_property_table"

definition pwf_event_kind_key_valid :: "pwf_event_kind \<Rightarrow> string option \<Rightarrow> bool" where
  "pwf_event_kind_key_valid kind key =
     (if kind = PWF_EVENT_PROPERTY then pwf_property_find_by_name key \<noteq> None
      else if kind = PWF_EVENT_MIDI \<or> kind = PWF_EVENT_OSC then key = None
      else False)"

section \<open>Decoding\<close>

datatype spa_control_type =
    SPA_CONTROL_Midi | SPA_CONTROL_OSC | SPA_CONTROL_Properties | SPA_CONTROL_other nat

text \<open>
  One control: \<open>spa_pod_get_bytes\<close> on its value, the properties when the value is a Props object, and
  its body.
\<close>

record spa_control =
  c_offset :: u32
  c_type :: spa_control_type
  c_bytes :: "byte list option"
  c_props :: "(spa_prop \<times> byte list) list option"
  c_body :: "byte list"

text \<open>\<open>grow n\<close>: whether \<open>realloc\<close> finds memory when the array holds \<open>n\<close> entries.\<close>

type_synonym grow_answer = "nat \<Rightarrow> bool"

definition pwf_filter_incoming_event_append ::
    "grow_answer \<Rightarrow> pwf_event \<Rightarrow> pwf_event growable \<Rightarrow> bool \<times> pwf_event growable" where
  "pwf_filter_incoming_event_append grow ev g = growable_append 4 (grow (length (items g))) ev g"

definition bytes_event :: "u32 \<Rightarrow> pwf_event_kind \<Rightarrow> string option \<Rightarrow> byte list \<Rightarrow> pwf_event" where
  "bytes_event off kind key bytes =
     \<lparr>event_offset = off, event_kind = kind, event_key = key, event_data = Some bytes,
      event_size = length bytes\<rparr>"

definition decode_control :: "grow_answer \<Rightarrow> spa_control \<Rightarrow> pwf_event growable \<Rightarrow> pwf_event growable" where
  "decode_control grow c g =
     (if c_type c = SPA_CONTROL_Midi \<or> c_type c = SPA_CONTROL_OSC then
        (case c_bytes c of
           None \<Rightarrow> g
         | Some bytes \<Rightarrow>
             snd (pwf_filter_incoming_event_append grow
                    (bytes_event (c_offset c)
                       (if c_type c = SPA_CONTROL_Midi then PWF_EVENT_MIDI else PWF_EVENT_OSC) None bytes) g))
      else if c_type c = SPA_CONTROL_Properties then
        (case c_props c of
           None \<Rightarrow> g
         | Some props \<Rightarrow>
             fold (\<lambda>(key, body) g.
                     case pwf_property_find_by_id key of
                       None \<Rightarrow> g
                     | Some entry \<Rightarrow>
                         snd (pwf_filter_incoming_event_append grow
                                (bytes_event (c_offset c) PWF_EVENT_PROPERTY (Some (fst entry)) body) g))
               props g)
      else
        snd (pwf_filter_incoming_event_append grow
               (bytes_event (c_offset c) PWF_EVENT_UNKNOWN None (c_body c)) g))"

definition sizeof_spa_pod :: nat where "sizeof_spa_pod = 8"

text \<open>\<open>sequence\<close> is \<open>None\<close> when the bytes are no POD or no sequence.\<close>

definition pwf_filter_event_decode ::
    "grow_answer \<Rightarrow> nat \<Rightarrow> spa_control list option \<Rightarrow> pwf_filter_port \<Rightarrow> pwf_filter_port" where
  "pwf_filter_event_decode grow nbytes sequence p =
     (let empty = (incoming_events p)\<lparr>items := []\<rparr> in
      if nbytes < sizeof_spa_pod then p\<lparr>incoming_events := empty\<rparr>
      else case sequence of
          None \<Rightarrow> p\<lparr>incoming_events := empty\<rparr>
        | Some cs \<Rightarrow> p\<lparr>incoming_events := fold (decode_control grow) cs empty\<rparr>)"

section \<open>Staged events\<close>

definition pwf_filter_event_take_pending :: "pwf_filter_port \<Rightarrow> pwf_filter_port" where
  "pwf_filter_event_take_pending p =
     p\<lparr>delivering_events := pending_events p,
       pending_events := (delivering_events p)\<lparr>items := []\<rparr>\<rparr>"

definition event_of_pending :: "pwf_filter_pending_event \<Rightarrow> pwf_event" where
  "event_of_pending pe =
     \<lparr>event_offset = pe_offset pe, event_kind = pe_kind pe, event_key = pe_key pe,
      event_data = pe_data pe, event_size = pe_size pe\<rparr>"

definition pwf_filter_event_load_delivering_as_incoming :: "grow_answer \<Rightarrow> pwf_filter_port \<Rightarrow> pwf_filter_port" where
  "pwf_filter_event_load_delivering_as_incoming grow p =
     p\<lparr>incoming_events :=
         fold (\<lambda>pe g. snd (pwf_filter_incoming_event_append grow (event_of_pending pe) g))
           (items (delivering_events p)) ((incoming_events p)\<lparr>items := []\<rparr>)\<rparr>"

definition pwf_filter_event_clear_pending :: "pwf_filter_port \<Rightarrow> pwf_filter_port" where
  "pwf_filter_event_clear_pending p = p\<lparr>pending_events := (pending_events p)\<lparr>items := []\<rparr>\<rparr>"

definition pwf_filter_event_clear_delivering :: "pwf_filter_port \<Rightarrow> pwf_filter_port" where
  "pwf_filter_event_clear_delivering p = p\<lparr>delivering_events := (delivering_events p)\<lparr>items := []\<rparr>\<rparr>"

text \<open>The copy an append makes; \<open>copy_ok\<close>: whether \<open>malloc\<close> finds memory.\<close>

definition pending_of_event :: "pwf_event \<Rightarrow> pwf_filter_pending_event" where
  "pending_of_event ev =
     \<lparr>pe_offset = event_offset ev, pe_kind = event_kind ev,
      pe_key = (if event_kind ev = PWF_EVENT_PROPERTY
                then map_option fst (pwf_property_find_by_name (event_key ev)) else None),
      pe_data = (if event_size ev > 0 then map_option (take (event_size ev)) (event_data ev) else None),
      pe_size = event_size ev\<rparr>"

definition pwf_filter_pending_event_append ::
    "grow_answer \<Rightarrow> bool \<Rightarrow> pwf_event \<Rightarrow> pwf_filter_port \<Rightarrow> bool \<times> pwf_filter_port" where
  "pwf_filter_pending_event_append grow copy_ok ev p =
     (case growable_reserve 4 (grow (length (items (pending_events p)))) (pending_events p) of
        None \<Rightarrow> (False, p)
      | Some g \<Rightarrow>
          if event_size ev > 0 \<and> \<not> copy_ok then (False, p\<lparr>pending_events := g\<rparr>)
          else (True, p\<lparr>pending_events := growable_push (pending_of_event ev) g\<rparr>))"

definition pwf_filter_pending_event_pop_last :: "pwf_filter_port \<Rightarrow> pwf_filter_port" where
  "pwf_filter_pending_event_pop_last p =
     (if items (pending_events p) = [] then p
      else p\<lparr>pending_events := (pending_events p)\<lparr>items := butlast (items (pending_events p))\<rparr>\<rparr>)"

section \<open>Encoding\<close>

text \<open>What the builder is asked to append for one event: a bytes control or a one-property object.\<close>

datatype built_control =
    Built_bytes u32 spa_control_type "byte list"
  | Built_property u32 spa_prop "byte list"

text \<open>\<open>(uint32_t)pe->size\<close> bytes at \<open>pe->data\<close>.\<close>

definition pending_bytes :: "pwf_filter_pending_event \<Rightarrow> byte list" where
  "pending_bytes pe = (case pe_data pe of None \<Rightarrow> [] | Some d \<Rightarrow> take (pe_size pe mod 2 ^ 32) d)"

definition encode_event :: "pwf_filter_pending_event \<Rightarrow> built_control list" where
  "encode_event pe =
     (case pe_kind pe of
        PWF_EVENT_MIDI \<Rightarrow> [Built_bytes (pe_offset pe) SPA_CONTROL_Midi (pending_bytes pe)]
      | PWF_EVENT_OSC \<Rightarrow> [Built_bytes (pe_offset pe) SPA_CONTROL_OSC (pending_bytes pe)]
      | PWF_EVENT_PROPERTY \<Rightarrow>
          (case pwf_property_find_by_name (pe_key pe) of
             None \<Rightarrow> []
           | Some entry \<Rightarrow> [Built_property (pe_offset pe) (snd entry) (pending_bytes pe)])
      | PWF_EVENT_UNKNOWN \<Rightarrow> [])"

definition pwf_filter_event_encode :: "pwf_filter_port \<Rightarrow> built_control list" where
  "pwf_filter_event_encode p = concat (map encode_event (items (pending_events p)))"

definition pwf_filter_event_finish_output :: "pwf_filter_port \<Rightarrow> built_control list \<times> pwf_filter_port" where
  "pwf_filter_event_finish_output p = (pwf_filter_event_encode p, pwf_filter_event_clear_pending p)"

definition pwf_filter_event_free_port :: "pwf_filter_port \<Rightarrow> pwf_filter_port" where
  "pwf_filter_event_free_port p =
     (if port_media p \<noteq> PWF_DATA_EVENT then p
      else p\<lparr>pending_events := growable_empty, delivering_events := growable_empty,
             incoming_events := growable_empty\<rparr>)"

section \<open>The application's calls\<close>

text \<open>A port handle is the index of the port, \<open>None\<close> for NULL.\<close>

definition pwf_filter_port_get_event_count :: "nat option \<Rightarrow> 'a pwf_filter_scheme \<Rightarrow> nat" where
  "pwf_filter_port_get_event_count port f =
     (case port of
        None \<Rightarrow> 0
      | Some i \<Rightarrow>
          if port_media (get_port i f) \<noteq> PWF_DATA_EVENT \<or> port_dir (get_port i f) \<noteq> PWF_FILTER_PORT_INPUT then 0
          else length (items (incoming_events (get_port i f))))"

definition pwf_filter_port_get_event ::
    "nat option \<Rightarrow> nat \<Rightarrow> bool \<Rightarrow> 'a pwf_filter_scheme \<Rightarrow> pwf_error \<times> pwf_event option" where
  "pwf_filter_port_get_event port index has_out f =
     (case port of
        None \<Rightarrow> (PWF_ERR_INVALID_ARG, None)
      | Some i \<Rightarrow>
          if port_media (get_port i f) \<noteq> PWF_DATA_EVENT \<or> port_dir (get_port i f) \<noteq> PWF_FILTER_PORT_INPUT \<or>
             \<not> has_out
          then (PWF_ERR_INVALID_ARG, None)
          else if length (items (incoming_events (get_port i f))) \<le> index then (PWF_ERR_INVALID_ARG, None)
          else (PWF_OK, Some (items (incoming_events (get_port i f)) ! index)))"

definition pwf_filter_port_push_event ::
    "(built_control list \<Rightarrow> nat) \<Rightarrow> grow_answer \<Rightarrow> bool \<Rightarrow> pwf_thread \<Rightarrow> nat option \<Rightarrow> pwf_event option \<Rightarrow>
     'a pwf_filter_scheme \<Rightarrow> pwf_error \<times> 'a pwf_filter_scheme" where
  "pwf_filter_port_push_event pod_size grow copy_ok th port event f =
     (case (port, event) of
        (Some i, Some ev) \<Rightarrow>
          if port_media (get_port i f) \<noteq> PWF_DATA_EVENT then (PWF_ERR_INVALID_ARG, f)
          else if event_size ev > 0 \<and> event_data ev = None then (PWF_ERR_INVALID_ARG, f)
          else if \<not> pwf_event_kind_key_valid (event_kind ev) (event_key ev) then (PWF_ERR_INVALID_ARG, f)
          else
            (case pwf_filter_pending_event_append grow copy_ok ev (get_port i f) of
               (staged, p) \<Rightarrow>
                 if port_dir (get_port i f) = PWF_FILTER_PORT_INPUT
                 then (if staged then PWF_OK else PWF_ERR_NO_MEMORY, map_port i (\<lambda>_. p) f)
                 else
                   let lock = (pwf_filter_processing th \<noteq> Some (filter_id f));
                       f1 = map_port i (\<lambda>_. p) (if lock then emit [Loop_lock] f else f);
                       unlock = (\<lambda>g. if lock then emit [Loop_unlock] g else g)
                   in if \<not> staged then (PWF_ERR_NO_MEMORY, unlock f1)
                      else if pod_size (pwf_filter_event_encode p) > event_output_capacity p
                      then (PWF_ERR_INVALID_ARG, unlock (map_port i (\<lambda>_. pwf_filter_pending_event_pop_last p) f1))
                      else (PWF_OK, unlock f1))
      | _ \<Rightarrow> (PWF_ERR_INVALID_ARG, f))"

section \<open>Facts\<close>

lemma find_satisfies: "find P xs = Some x \<Longrightarrow> P x"
  by (induction xs) (auto split: if_splits)

lemma find_by_name_key:
  assumes "pwf_property_find_by_name key = Some entry"
  shows "key = Some (fst entry)"
proof (cases key)
  case None
  with assms show ?thesis by (simp add: pwf_property_find_by_name_def)
next
  case (Some n)
  with assms have "find (\<lambda>e. fst e = n) pwf_property_table = Some entry"
    by (simp add: pwf_property_find_by_name_def)
  then have "fst entry = n" by (rule find_satisfies)
  with Some show ?thesis by simp
qed

lemma find_member: "find P xs = Some x \<Longrightarrow> x \<in> set xs"
  by (induction xs) (auto split: if_splits)

lemma property_table_unique:
  "\<forall>e\<in>set pwf_property_table. pwf_property_find_by_id (snd e) = Some e \<and> pwf_property_find_by_name (Some (fst e)) = Some e"
  by (simp add: pwf_property_table_def pwf_property_find_by_id_def pwf_property_find_by_name_def)

lemma find_by_id_of_name:
  assumes "pwf_property_find_by_name key = Some entry"
  shows "pwf_property_find_by_id (snd entry) = Some entry"
proof -
  have "entry \<in> set pwf_property_table"
    using assms by (cases key) (auto simp: pwf_property_find_by_name_def intro: find_member)
  with property_table_unique show ?thesis by blast
qed

lemma find_by_name_of_id:
  assumes "pwf_property_find_by_id i = Some entry"
  shows "snd entry = i" "pwf_property_find_by_name (Some (fst entry)) = Some entry"
proof -
  have f: "find (\<lambda>e. snd e = i) pwf_property_table = Some entry" using assms by (simp add: pwf_property_find_by_id_def)
  then show "snd entry = i" by (rule find_satisfies)
  from f have "entry \<in> set pwf_property_table" by (rule find_member)
  with property_table_unique show "pwf_property_find_by_name (Some (fst entry)) = Some entry" by blast
qed

text \<open>An event a push accepts: its size is the length of its data, and it fits the POD's 32-bit size.\<close>

definition pushable :: "pwf_event \<Rightarrow> bool" where
  "pushable ev \<longleftrightarrow>
     pwf_event_kind_key_valid (event_kind ev) (event_key ev) \<and>
     (\<exists>d. event_data ev = Some d \<and> length d = event_size ev) \<and> event_size ev < 2 ^ 32"

text \<open>What the SPA accessors read back from what the builder was given.\<close>

fun read_back :: "built_control \<Rightarrow> spa_control" where
  "read_back (Built_bytes off type bytes) =
     \<lparr>c_offset = off, c_type = type, c_bytes = Some bytes, c_props = None, c_body = bytes\<rparr>"
| "read_back (Built_property off key bytes) =
     \<lparr>c_offset = off, c_type = SPA_CONTROL_Properties, c_bytes = None, c_props = Some [(key, bytes)], c_body = []\<rparr>"

lemma fold_append_events:
  "items (fold (\<lambda>pe g. snd (pwf_filter_incoming_event_append (\<lambda>_. True) (h pe) g)) xs g) = items g @ map h xs"
  by (induction xs arbitrary: g) (simp_all add: pwf_filter_incoming_event_append_def growable_append_items)

lemma decode_encoded_event:
  assumes "pushable ev"
  shows "items (fold (decode_control (\<lambda>_. True)) (map read_back (encode_event (pending_of_event ev))) g) = items g @ [ev]"
proof -
  from assms obtain d where d: "event_data ev = Some d" "length d = event_size ev" "event_size ev < 2 ^ 32"
    and valid: "pwf_event_kind_key_valid (event_kind ev) (event_key ev)" by (auto simp: pushable_def)
  have bytes: "pending_bytes (pending_of_event ev) = d"
    using d by (auto simp: pending_bytes_def pending_of_event_def)
  have ev: "ev = bytes_event (event_offset ev) (event_kind ev) (event_key ev) d"
    using d by (simp add: bytes_event_def)
  show ?thesis
  proof (cases "event_kind ev")
    case PWF_EVENT_PROPERTY
    with valid obtain entry where e: "pwf_property_find_by_name (event_key ev) = Some entry"
      by (auto simp: pwf_event_kind_key_valid_def)
    then have key: "event_key ev = Some (fst entry)" and self: "pwf_property_find_by_name (Some (fst entry)) = Some entry"
      using find_by_name_key [OF e] by simp_all
    have "encode_event (pending_of_event ev) = [Built_property (event_offset ev) (snd entry) d]"
      using PWF_EVENT_PROPERTY e self bytes by (simp add: encode_event_def pending_of_event_def)
    then show ?thesis
      using PWF_EVENT_PROPERTY key find_by_id_of_name [OF e]
      by (subst (2) ev) (simp add: decode_control_def pwf_filter_incoming_event_append_def growable_append_items)
  next
    case PWF_EVENT_MIDI
    then have "encode_event (pending_of_event ev) = [Built_bytes (event_offset ev) SPA_CONTROL_Midi d]"
      using bytes by (simp add: encode_event_def pending_of_event_def)
    then show ?thesis using PWF_EVENT_MIDI valid
      by (subst (2) ev)
         (simp add: decode_control_def pwf_filter_incoming_event_append_def growable_append_items pwf_event_kind_key_valid_def)
  next
    case PWF_EVENT_OSC
    then have "encode_event (pending_of_event ev) = [Built_bytes (event_offset ev) SPA_CONTROL_OSC d]"
      using bytes by (simp add: encode_event_def pending_of_event_def)
    then show ?thesis using PWF_EVENT_OSC valid
      by (subst (2) ev)
         (simp add: decode_control_def pwf_filter_incoming_event_append_def growable_append_items pwf_event_kind_key_valid_def)
  next
    case PWF_EVENT_UNKNOWN
    with valid show ?thesis by (simp add: pwf_event_kind_key_valid_def)
  qed
qed

lemma decode_encoded:
  assumes "\<forall>ev\<in>set evs. pushable ev"
  shows "items (fold (decode_control (\<lambda>_. True)) (map read_back (concat (map (encode_event \<circ> pending_of_event) evs))) g) =
    items g @ evs"
  using assms
proof (induction evs arbitrary: g)
  case Nil
  then show ?case by simp
next
  case (Cons ev evs)
  then show ?case using decode_encoded_event [of ev g] by simp
qed

text \<open>Appending to the staged events.\<close>

lemma pending_append_items:
  "pwf_filter_pending_event_append grow ok ev p = (b, p') \<Longrightarrow>
     items (pending_events p') = items (pending_events p) @ (if b then [pending_of_event ev] else [])"
  by (auto simp: pwf_filter_pending_event_append_def growable_push_def dest: growable_reserve_items
      split: option.splits if_splits)

lemma pending_append_ok:
  "pwf_filter_pending_event_append grow ok ev p = (b, p') \<Longrightarrow> growable_ok (pending_events p) \<Longrightarrow>
     growable_ok (pending_events p')"
  by (auto simp: pwf_filter_pending_event_append_def growable_push_ok growable_reserve_ok
      split: option.splits if_splits)

lemma pending_append_frame:
  "pwf_filter_pending_event_append grow ok ev p = (b, p') \<Longrightarrow> \<exists>g. p' = p\<lparr>pending_events := g\<rparr>"
  by (auto simp: pwf_filter_pending_event_append_def split: option.splits if_splits intro: exI [of _ "pending_events p"])

lemma pop_last_append:
  "pwf_filter_pending_event_append grow ok ev p = (True, p') \<Longrightarrow>
     items (pending_events (pwf_filter_pending_event_pop_last p')) = items (pending_events p)"
  using pending_append_items [of grow ok ev p True p']
  by (simp add: pwf_filter_pending_event_pop_last_def)

end
