(* ===== verification/Pwf_Filter.thy ===== *)
theory Pwf_Filter
  imports Pwf_Filter_Event
begin

text \<open>
  \<^verbatim>\<open>src/pwf_filter.c\<close>: creating a filter, its settings, starting, stopping and destroying it. The
  model's \<open>heap\<close> sees every block a port allocates for pushed data and faults on a second \<open>free\<close>.
\<close>

definition pwf_filter_refuse_in_callback :: "pwf_thread \<Rightarrow> bool \<Rightarrow> pwf_filter \<Rightarrow> bool \<times> pwf_filter" where
  "pwf_filter_refuse_in_callback th loop_thread_too f =
     (let refused = pwf_filter_processing th = Some (filter_id f) \<or>
                    (loop_thread_too \<and> loop (conn f) \<noteq> None \<and> on_loop th = loop (conn f))
      in (refused, if refused then emit [Log PWF_LOG_ERROR] f else f))"

definition pwf_filter_add_port_to_list :: "bool \<Rightarrow> pwf_filter_port \<Rightarrow> pwf_filter \<Rightarrow> bool \<times> pwf_filter" where
  "pwf_filter_add_port_to_list alloc_ok port f =
     (case growable_append 4 alloc_ok port (filter_ports f) of (b, g) \<Rightarrow> (b, f\<lparr>filter_ports := g\<rparr>))"

section \<open>Creating and destroying\<close>

definition filter_zero :: pwf_filter where
  "filter_zero =
     \<lparr>conn = conn_zero, registry = registry_zero, calls = [], faults = [],
      filter_id = 0, filter_name = None, filter_state = PWF_FILTER_STATE_CREATED,
      filter_ports = growable_empty, process_cb = False, filter_error_cb = False, pw_filter = None,
      filter_drained = False, period_hint_ns = 0, heap = Map.empty\<rparr>"

text \<open>\<open>pw_filter_destroy\<close>, which may still dispatch \<open>events\<close>, and frees the ports.\<close>

definition destroy_pw_filter :: "filter_event list \<Rightarrow> pwf_filter \<Rightarrow> pwf_filter" where
  "destroy_pw_filter events f =
     (let f1 = fold filter_dispatch events (emit [Filter_destroy (pw_filter f)] f)
      in f1\<lparr>pw_filter := None\<rparr>)"

definition pwf_filter_teardown :: "filter_event list \<Rightarrow> pwf_filter \<Rightarrow> pwf_filter" where
  "pwf_filter_teardown events f =
     (let f1 = (if loop (conn f) \<noteq> None \<and> pw_filter f \<noteq> None
                then emit [Loop_unlock] (destroy_pw_filter events (emit [Loop_lock] f))
                else if pw_filter f \<noteq> None then destroy_pw_filter events f
                else f)
      in case pwf_pw_core_teardown (conn f1) of (k, cs) \<Rightarrow> emit cs (f1\<lparr>conn := k\<rparr>))"

text \<open>
  What creation is answered: \<open>calloc\<close>, \<open>strdup\<close>, the connection and the new \<open>pw_filter\<close>. The second
  component is what a failed creation tore down again.
\<close>

record filter_create_env =
  fc_mem :: "nat option"
  fc_dup_ok :: bool
  fc_connect :: connect_env
  fc_new_filter :: "nat option"

definition filter_props :: "pwf_filter \<Rightarrow> (string \<times> string) list" where
  "filter_props f =
     [(''node.always-process'', ''true'')] @
     (case filter_name f of Some n \<Rightarrow> [(''node.name'', n)] | None \<Rightarrow> [])"

definition pwf_filter_create ::
    "filter_create_env \<Rightarrow> string option \<Rightarrow> bool \<Rightarrow> pw_global \<Rightarrow>
     pwf_filter option \<times> pwf_filter option \<times> pw_global" where
  "pwf_filter_create env name callback g =
     (if \<not> callback then (None, None, g)
      else
        let g1 = pwf_pw_global_init g in
        case fc_mem env of
          None \<Rightarrow> (None, None, pwf_pw_global_deinit g1)
        | Some addr \<Rightarrow>
            let named = (name \<noteq> None \<and> name \<noteq> Some []);
                f = filter_zero\<lparr>filter_id := addr, filter_state := PWF_FILTER_STATE_CREATED,
                                process_cb := callback, filter_name := (if named then name else None)\<rparr>
            in if named \<and> \<not> fc_dup_ok env then (None, None, pwf_pw_global_deinit g1)
               else case pwf_pw_core_connect (fc_connect env) (conn f) of
                   (res, k, cs) \<Rightarrow>
                     let f1 = emit cs (f\<lparr>conn := k\<rparr>) in
                     if res < 0 then (None, Some (pwf_filter_teardown [] f1), pwf_pw_global_deinit g1)
                     else
                       let f2 = emit [Loop_lock, Filter_new
                                        (case filter_name f1 of Some n \<Rightarrow> n | None \<Rightarrow> ''pwf-filter'')
                                        (filter_props f1)]
                                  (f1\<lparr>pw_filter := fc_new_filter env\<rparr>)
                       in if pw_filter f2 = None
                          then (None, Some (pwf_filter_teardown [] (emit [Loop_unlock, Log PWF_LOG_ERROR] f2)),
                                pwf_pw_global_deinit g1)
                          else (Some (emit [Loop_unlock] f2), None, g1))"

section \<open>Settings\<close>

definition pwf_filter_set_error_callback :: "bool \<Rightarrow> pwf_filter option \<Rightarrow> pwf_error \<times> pwf_filter option" where
  "pwf_filter_set_error_callback callback =
     on_handle PWF_ERR_INVALID_ARG (\<lambda>f. (PWF_OK, f\<lparr>filter_error_cb := callback\<rparr>))"

definition filter_set_period_hint :: "u32 \<Rightarrow> pwf_filter \<Rightarrow> pwf_error \<times> pwf_filter" where
  "filter_set_period_hint max_period_ns f =
     (if filter_state f \<noteq> PWF_FILTER_STATE_CREATED then (PWF_ERR_INVALID_ARG, f)
      else (PWF_OK, f\<lparr>period_hint_ns := max_period_ns\<rparr>))"

definition pwf_filter_set_period_hint where
  "pwf_filter_set_period_hint max_period_ns = on_handle PWF_ERR_INVALID_ARG (filter_set_period_hint max_period_ns)"

definition pwf_filter_period_hint_num :: "u32 \<Rightarrow> u32" where
  "pwf_filter_period_hint_num period_ns =
     (let num = (ucast period_ns :: u64) * 48000 div 1000000000 in if num < 1 then 1 else ucast num)"

definition pwf_filter_apply_period_hint :: "pwf_filter \<Rightarrow> pwf_filter" where
  "pwf_filter_apply_period_hint f =
     (if period_hint_ns f = 0 then f
      else emit [Filter_update_properties
             [(''node.latency'',
               c_snprintf 32 (c_decimal (unat (pwf_filter_period_hint_num (period_hint_ns f))) @ ''/48000''))]] f)"

section \<open>Starting and stopping\<close>

definition filter_start :: "pwf_thread \<Rightarrow> int \<Rightarrow> pwf_filter \<Rightarrow> pwf_error \<times> pwf_filter" where
  "filter_start th connect_answer f =
     (case pwf_filter_refuse_in_callback th False f of
        (True, f1) \<Rightarrow> (PWF_ERR_IN_CALLBACK, f1)
      | (False, f1) \<Rightarrow>
          if n_ports f1 = 0 then (PWF_ERR_NOT_CONFIGURED, f1)
          else
            let f2 = emit [Loop_lock] f1 in
            if filter_state f2 = PWF_FILTER_STATE_CREATED then
              (let f3 = emit [Filter_connect (pw_filter f2)] (pwf_filter_apply_period_hint f2) in
               if connect_answer < 0 then (PWF_ERR_CONNECT_FAILED, emit [Loop_unlock, Log PWF_LOG_ERROR] f3)
               else (PWF_OK, (emit [Loop_unlock] f3)\<lparr>filter_state := PWF_FILTER_STATE_RUNNING\<rparr>))
            else (PWF_OK, (emit [Filter_set_active (pw_filter f2) True, Loop_unlock] f2)
                            \<lparr>filter_state := PWF_FILTER_STATE_RUNNING\<rparr>))"

definition pwf_filter_start where
  "pwf_filter_start th connect_answer = on_handle PWF_ERR_INVALID_ARG (filter_start th connect_answer)"

text \<open>The loop of a stop: return the held buffer of port \<open>i\<close> and forget what it held.\<close>

definition reset_hold :: "nat \<Rightarrow> pwf_filter \<Rightarrow> pwf_filter" where
  "reset_hold i f =
     (let f1 = (case held_buf (get_port i f) of
                  None \<Rightarrow> f
                | Some b \<Rightarrow> map_port i (\<lambda>p. p\<lparr>held_buf := None\<rparr>) (emit [Filter_queue_buffer i b] f))
      in map_port i (\<lambda>p. p\<lparr>has_held := False, held_data := None, held_dmabuf_buf := None,
                           port_dmabuf_buf := None\<rparr>) f1)"

definition filter_stop ::
    "pwf_thread \<Rightarrow> filter_event schedule \<Rightarrow> bool \<Rightarrow> pwf_filter \<Rightarrow> pwf_error \<times> pwf_filter" where
  "filter_stop th sched drain f =
     (case pwf_filter_refuse_in_callback th drain f of
        (True, f1) \<Rightarrow> (PWF_ERR_IN_CALLBACK, f1)
      | (False, f1) \<Rightarrow>
          if filter_state f1 \<noteq> PWF_FILTER_STATE_RUNNING then (PWF_OK, f1)
          else
            let f2 = emit [Loop_lock] f1;
                f3 = (if drain
                      then
                        (case loop_wait filter_drained filter_dispatch (fst sched) (snd sched)
                                (emit [Filter_flush (pw_filter f2)] (f2\<lparr>filter_drained := False\<rparr>)) of
                           (True, t) \<Rightarrow> t
                         | (False, t) \<Rightarrow> emit [Log PWF_LOG_WARNING] t)
                      else f2);
                f4 = fold reset_hold [0..<n_ports f3] (emit [Filter_set_active (pw_filter f3) False] f3);
                f5 = emit [Loop_unlock] (f4\<lparr>filter_state := PWF_FILTER_STATE_STOPPED\<rparr>)
            in (PWF_OK, pwf_filter_release_all_links f5))"

definition pwf_filter_stop where
  "pwf_filter_stop th sched drain = on_handle PWF_ERR_INVALID_ARG (filter_stop th sched drain)"

section \<open>Destroying\<close>

definition heap_free :: "nat option \<Rightarrow> 'a pwf_filter_scheme \<Rightarrow> 'a pwf_filter_scheme" where
  "heap_free ptr f =
     (case ptr of
        None \<Rightarrow> f
      | Some a \<Rightarrow> if heap f a = None then fault Use_after_free f else f\<lparr>heap := (heap f)(a := None)\<rparr>)"

definition free_port :: "nat \<Rightarrow> pwf_filter \<Rightarrow> pwf_filter" where
  "free_port i f =
     map_port i pwf_filter_event_free_port
       (heap_free (delivered_data (get_port i f)) (heap_free (pushed_data (get_port i f)) f))"

text \<open>The freed filter is returned for what its calls and faults show.\<close>

definition filter_destroy ::
    "pwf_thread \<Rightarrow> filter_event list \<Rightarrow> pw_global \<Rightarrow> pwf_filter \<Rightarrow> bool \<times> pwf_filter \<times> pw_global" where
  "filter_destroy th events g f =
     (case pwf_filter_refuse_in_callback th True f of
        (True, f1) \<Rightarrow> (False, f1, g)
      | (False, f1) \<Rightarrow>
          let f2 = (if filter_state f1 = PWF_FILTER_STATE_RUNNING then snd (filter_stop th ([], []) False f1)
                    else pwf_filter_release_all_links f1);
              f3 = (if loop (conn f2) \<noteq> None
                    then (case pwf_pw_registry_teardown (registry f2) of
                            (reg, cs) \<Rightarrow> emit ([Loop_lock] @ cs @ [Loop_unlock]) (f2\<lparr>registry := reg\<rparr>))
                    else f2);
              f4 = fold free_port [0..<n_ports f3] f3;
              f5 = pwf_filter_teardown events (f4\<lparr>filter_ports := growable_empty\<rparr>)
          in (True, f5\<lparr>filter_name := None\<rparr>, pwf_pw_global_deinit g))"

definition pwf_filter_destroy ::
    "pwf_thread \<Rightarrow> filter_event list \<Rightarrow> pw_global \<Rightarrow> pwf_filter option \<Rightarrow> pwf_filter option \<times> pw_global" where
  "pwf_filter_destroy th events g h =
     (case h of
        None \<Rightarrow> (None, g)
      | Some f \<Rightarrow> (case filter_destroy th events g f of
            (True, _, g1) \<Rightarrow> (None, g1)
          | (False, f1, g1) \<Rightarrow> (Some f1, g1)))"

end
