(* ===== verification/Pwf_Filter_Port.thy ===== *)
theory Pwf_Filter_Port
  imports Pwf_Filter
begin

text \<open>
  \<^verbatim>\<open>src/pwf_filter_port.c\<close>: adding ports, pushing data to an input port, holding. A critical section
  under \<open>push_lock\<close> is one step; the cycle's attempt to take the lock is in \<open>Pwf_Filter_Process\<close>.
  \<open>added\<close> is what \<open>pw_filter_add_port\<close> answers: whether it made the port, zeroed.
\<close>

definition port_zero :: pwf_filter_port where
  "port_zero =
     \<lparr>port_dir = PWF_FILTER_PORT_INPUT, port_media = PWF_DATA_AUDIO, port_config = Config_zero,
      pushed_data = None, pushed_size = 0, pushed_capacity = 0, pushed_pts = 0, pushed_pending = False,
      delivered_data = None, delivered_capacity = 0, incoming_events = growable_empty,
      pending_events = growable_empty, event_output_capacity = 0, delivering_events = growable_empty,
      port_use_dmabuf = False, port_dmabuf_buf = None, hold_enabled = False, has_held = False,
      held_buf = None, held_dmabuf_buf = None, held_data = None, held_size = 0, held_pts = 0,
      update_seq = 0, pw_port_name = [], own_global_id = 0, port_link_proxy = None,
      link_state_seen_active = False, link_lost = False, loss_reported = False, link_wait = None\<rparr>"

record add_port_env =
  ap_props_ok :: bool
  ap_added :: bool
  ap_grow_ok :: bool

definition pwf_filter_add_port_common ::
    "add_port_env \<Rightarrow> pwf_filter_port_direction \<Rightarrow> spa_pod list \<Rightarrow> bool \<Rightarrow> pwf_filter \<Rightarrow>
     pwf_filter_port option \<times> pwf_filter" where
  "pwf_filter_add_port_common env dir params map_buffers f =
     (let pw_dir = (if dir = PWF_FILTER_PORT_INPUT then SPA_DIRECTION_INPUT else SPA_DIRECTION_OUTPUT);
          name = c_snprintf 24 (''pwf_port_'' @ c_decimal (n_ports f))
      in if \<not> ap_props_ok env then (None, f)
         else
           let f1 = emit [Loop_lock, Filter_add_port pw_dir map_buffers [(''port.name'', name)] params, Loop_unlock] f
           in (if ap_added env then Some (port_zero\<lparr>pw_port_name := name\<rparr>) else None, f1))"

text \<open>The end of every \<open>add\<close>: the port's fields are set and it joins the list. \<open>None\<close> is NULL.\<close>

definition finish_add_port ::
    "add_port_env \<Rightarrow> (pwf_filter_port \<Rightarrow> pwf_filter_port) \<Rightarrow> pwf_filter_port option \<times> pwf_filter \<Rightarrow>
     nat option \<times> pwf_filter" where
  "finish_add_port env set_fields r =
     (case r of
        (None, f) \<Rightarrow> (None, f)
      | (Some port, f) \<Rightarrow>
          (case pwf_filter_add_port_to_list (ap_grow_ok env) (set_fields port) f of
             (False, f1) \<Rightarrow> (None, f1)
           | (True, f1) \<Rightarrow> (Some (n_ports f), f1)))"

definition filter_add_audio_port ::
    "add_port_env \<Rightarrow> pwf_filter_port_direction \<Rightarrow> pwf_audio_config option \<Rightarrow> pwf_filter \<Rightarrow> nat option \<times> pwf_filter" where
  "filter_add_audio_port env dir config f =
     (case config of
        None \<Rightarrow> (None, f)
      | Some cfg \<Rightarrow>
          if filter_state f \<noteq> PWF_FILTER_STATE_CREATED then (None, f)
          else if sample_rate cfg \<le> 0 \<or> channels cfg \<le> 0 then (None, f)
          else
            let fmt = pwf_spa_lookup_audio_format (case sample_format cfg of Some s \<Rightarrow> s | None \<Rightarrow> ''S16'') in
            if fmt = SPA_AUDIO_FORMAT_UNKNOWN then (None, f)
            else finish_add_port env
                   (\<lambda>p. p\<lparr>port_dir := dir, port_media := PWF_DATA_AUDIO,
                          port_config := Config_audio \<lparr>pa_sample_rate = sample_rate cfg,
                                                       pa_channels = channels cfg, pa_format = fmt\<rparr>\<rparr>)
                   (pwf_filter_add_port_common env dir
                      [pwf_spa_build_audio_format cfg fmt, pwf_spa_build_meta_header, pwf_spa_build_cpu_buffers]
                      True f))"

definition pwf_filter_add_audio_port where
  "pwf_filter_add_audio_port env dir config = on_handle None (filter_add_audio_port env dir config)"

definition filter_add_signal_port ::
    "add_port_env \<Rightarrow> pwf_filter_port_direction \<Rightarrow> pwf_filter \<Rightarrow> nat option \<times> pwf_filter" where
  "filter_add_signal_port env dir f =
     (if filter_state f \<noteq> PWF_FILTER_STATE_CREATED then (None, f)
      else finish_add_port env (\<lambda>p. p\<lparr>port_dir := dir, port_media := PWF_DATA_SIGNAL\<rparr>)
             (pwf_filter_add_port_common env dir [pwf_spa_build_signal_format, pwf_spa_build_cpu_buffers] True f))"

definition pwf_filter_add_signal_port where
  "pwf_filter_add_signal_port env dir = on_handle None (filter_add_signal_port env dir)"

definition filter_add_event_port ::
    "add_port_env \<Rightarrow> pwf_filter_port_direction \<Rightarrow> pwf_filter \<Rightarrow> nat option \<times> pwf_filter" where
  "filter_add_event_port env dir f =
     (if filter_state f \<noteq> PWF_FILTER_STATE_CREATED then (None, f)
      else finish_add_port env (\<lambda>p. p\<lparr>port_dir := dir, port_media := PWF_DATA_EVENT\<rparr>)
             (pwf_filter_add_port_common env dir [pwf_spa_build_event_format, pwf_spa_build_cpu_buffers] True f))"

definition pwf_filter_add_event_port where
  "pwf_filter_add_event_port env dir = on_handle None (filter_add_event_port env dir)"

definition video_port_format :: "string \<Rightarrow> spa_video_format" where
  "video_port_format name =
     (if pwf_spa_pixel_format_is_mjpg name \<or> pwf_spa_pixel_format_is_h264 name then SPA_VIDEO_FORMAT_ENCODED
      else pwf_spa_lookup_pixel_format name)"

definition video_port_params :: "pwf_video_config \<Rightarrow> string \<Rightarrow> bool \<Rightarrow> spa_pod list" where
  "video_port_params cfg name want_dmabuf =
     [if pwf_spa_pixel_format_is_mjpg name then pwf_spa_build_video_format_mjpg cfg
      else if pwf_spa_pixel_format_is_h264 name then pwf_spa_build_video_format_h264 cfg
      else pwf_spa_build_video_format cfg (video_port_format name),
      pwf_spa_build_meta_header] @
     (if want_dmabuf then [] else [pwf_spa_build_cpu_buffers])"

definition filter_add_video_port_ex ::
    "add_port_env \<Rightarrow> pwf_filter_port_direction \<Rightarrow> pwf_video_config option \<Rightarrow> pwf_port_memory option \<Rightarrow>
     pwf_filter \<Rightarrow> nat option \<times> pwf_filter" where
  "filter_add_video_port_ex env dir config opts f =
     (case config of
        None \<Rightarrow> (None, f)
      | Some cfg \<Rightarrow>
          (case cfg_pixel_format cfg of
             None \<Rightarrow> (None, f)
           | Some name \<Rightarrow>
               if filter_state f \<noteq> PWF_FILTER_STATE_CREATED then (None, f)
               else if cfg_width cfg \<le> 0 \<or> cfg_height cfg \<le> 0 \<or> cfg_fps cfg < 0 then (None, f)
               else
                 let want_dmabuf = (opts = Some PWF_PORT_MEMORY_DMABUF) in
                 if want_dmabuf \<and> dir \<noteq> PWF_FILTER_PORT_INPUT then (None, f)
                 else if (pwf_spa_pixel_format_is_mjpg name \<or> pwf_spa_pixel_format_is_h264 name) \<and> want_dmabuf
                 then (None, f)
                 else
                   let fmt = video_port_format name in
                   if fmt = SPA_VIDEO_FORMAT_UNKNOWN then (None, f)
                   else finish_add_port env
                          (\<lambda>p. p\<lparr>port_dir := dir, port_media := PWF_DATA_VIDEO,
                                 port_config := Config_video \<lparr>pv_width = cfg_width cfg,
                                                              pv_height = cfg_height cfg, pv_format = fmt\<rparr>,
                                 port_use_dmabuf := want_dmabuf\<rparr>)
                          (pwf_filter_add_port_common env dir (video_port_params cfg name want_dmabuf)
                             (\<not> want_dmabuf) f)))"

definition pwf_filter_add_video_port_ex where
  "pwf_filter_add_video_port_ex env dir config opts = on_handle None (filter_add_video_port_ex env dir config opts)"

definition pwf_filter_add_video_port where
  "pwf_filter_add_video_port env dir config = pwf_filter_add_video_port_ex env dir config None"

text \<open>A port handle is its filter's address and its index, \<open>None\<close> for NULL.\<close>

definition pwf_filter_port_get_type :: "nat option \<Rightarrow> pwf_filter \<Rightarrow> pwf_data_type" where
  "pwf_filter_port_get_type port f =
     (case port of None \<Rightarrow> PWF_DATA_AUDIO | Some i \<Rightarrow> port_media (get_port i f))"

definition pwf_filter_port_set_hold :: "nat option \<Rightarrow> bool \<Rightarrow> pwf_filter \<Rightarrow> pwf_error \<times> pwf_filter" where
  "pwf_filter_port_set_hold port enable f =
     (case port of
        None \<Rightarrow> (PWF_ERR_INVALID_ARG, f)
      | Some i \<Rightarrow>
          if port_dir (get_port i f) \<noteq> PWF_FILTER_PORT_INPUT then (PWF_ERR_INVALID_ARG, f)
          else if filter_state f \<noteq> PWF_FILTER_STATE_CREATED then (PWF_ERR_INVALID_ARG, f)
          else (PWF_OK, map_port i (\<lambda>p. p\<lparr>hold_enabled := enable\<rparr>) f))"

section \<open>Pushing data\<close>

text \<open>
  \<open>grown\<close> is what \<open>realloc\<close> answers when the block must grow: the old block is released and the new
  one, at a free address or in place, has \<open>size\<close> bytes.
\<close>

definition heap_realloc :: "nat option \<Rightarrow> nat \<Rightarrow> nat \<Rightarrow> 'a pwf_filter_scheme \<Rightarrow> 'a pwf_filter_scheme" where
  "heap_realloc old new n f =
     (let bytes = (case old of None \<Rightarrow> [] | Some a \<Rightarrow> the (heap f a));
          h = (case old of None \<Rightarrow> heap f | Some a \<Rightarrow> (heap f)(a := None))
      in f\<lparr>heap := h(new \<mapsto> take n (bytes @ replicate n 0))\<rparr>)"

text \<open>\<open>memcpy\<close> to the front of the block.\<close>

definition heap_write :: "nat option \<Rightarrow> byte list \<Rightarrow> 'a pwf_filter_scheme \<Rightarrow> 'a pwf_filter_scheme" where
  "heap_write ptr bytes f =
     (case ptr of
        None \<Rightarrow> fault Null_pointer f
      | Some a \<Rightarrow>
          (case heap f a of
             None \<Rightarrow> fault Use_after_free f
           | Some old \<Rightarrow> if length old < length bytes then fault Out_of_bounds f
                         else f\<lparr>heap := (heap f)(a \<mapsto> bytes @ drop (length bytes) old)\<rparr>))"

definition filter_push_port_data ::
    "nat option \<Rightarrow> (nat \<times> nat) option \<Rightarrow> byte list option \<Rightarrow> nat \<Rightarrow> int \<Rightarrow> pwf_filter \<Rightarrow> pwf_error \<times> pwf_filter" where
  "filter_push_port_data grown port data n pts f =
     (case port of
        None \<Rightarrow> (PWF_ERR_INVALID_ARG, f)
      | Some (owner, i) \<Rightarrow>
          if owner \<noteq> filter_id f \<or> port_dir (get_port i f) \<noteq> PWF_FILTER_PORT_INPUT then (PWF_ERR_INVALID_ARG, f)
          else if port_media (get_port i f) = PWF_DATA_EVENT then (PWF_ERR_INVALID_ARG, f)
          else if n > 0 \<and> data = None then (PWF_ERR_INVALID_ARG, f)
          else
            let p = get_port i f;
                grow = n > pushed_capacity p
            in if grow \<and> grown = None then (PWF_ERR_NO_MEMORY, emit [Log PWF_LOG_ERROR] f)
               else
                 let f1 = (if grow
                           then map_port i (\<lambda>p. p\<lparr>pushed_data := grown, pushed_capacity := n\<rparr>)
                                  (heap_realloc (pushed_data p) (the grown) n f)
                           else f);
                     f2 = (if n > 0 then heap_write (pushed_data (get_port i f1)) (take n (the data)) f1 else f1)
                 in (PWF_OK, map_port i (\<lambda>p. p\<lparr>pushed_size := n, pushed_pts := pts, pushed_pending := True\<rparr>) f2))"

definition pwf_filter_push_port_data where
  "pwf_filter_push_port_data grown port data n pts =
     on_handle PWF_ERR_INVALID_ARG (filter_push_port_data grown port data n pts)"

end
