(* ===== verification/Pwf_Filter_Process.thy ===== *)
theory Pwf_Filter_Process
  imports Pwf_Filter_Port
begin

text \<open>
  \<^verbatim>\<open>src/pwf_filter_process.c\<close> and the descriptor accessor of \<^verbatim>\<open>src/pwf_filter_dmabuf.c\<close>: one processing
  cycle on the data thread. The first loop over the ports is \<open>begin_ports\<close>, the callback a parameter,
  the second loop \<open>end_ports\<close>.

  \<open>pc_taken\<close> is the buffer the cycle dequeued for the port, if it asked for one: the model's, to say
  where every buffer goes.
\<close>

section \<open>One port's share of a cycle\<close>

text \<open>A dequeued buffer, and the controls of the sequence in it, if it holds one.\<close>

record dequeued_buffer = pw_buffer +
  controls :: "spa_control list option"

record pwf_filter_port_buffer =
  pb_port :: nat
  pb_data :: "data_ptr option"
  pb_size :: nat
  pb_capacity :: nat
  pb_pts :: int
  pb_fresh :: bool
  pb_seq :: u64

record port_cycle =
  pc_buffer :: pwf_filter_port_buffer
  pc_dequeued :: "dequeued_buffer option"
  pc_taken :: "dequeued_buffer option"

text \<open>What the outside answers during a cycle.\<close>

record cycle_env =
  ce_staged :: bool
  ce_alloc_ok :: bool
  ce_dequeue :: "nat \<Rightarrow> dequeued_buffer option"
  ce_grow :: grow_answer
  ce_pod_size :: "built_control list \<Rightarrow> nat"

definition empty_buffer :: "nat \<Rightarrow> pwf_filter_port_buffer" where
  "empty_buffer i =
     \<lparr>pb_port = i, pb_data = None, pb_size = 0, pb_capacity = 0, pb_pts = -1, pb_fresh = False, pb_seq = 0\<rparr>"

definition pwf_filter_buffer_pts :: "dequeued_buffer \<Rightarrow> int" where
  "pwf_filter_buffer_pts b = (case header_pts (buffer b) of Some t \<Rightarrow> t | None \<Rightarrow> -1)"

definition first_data :: "dequeued_buffer \<Rightarrow> spa_data" where
  "first_data b = hd (datas (buffer b))"

definition data_present :: "dequeued_buffer \<Rightarrow> bool" where
  "data_present b \<longleftrightarrow> d_data (first_data b) \<noteq> None"

definition chunk_bytes :: "dequeued_buffer \<Rightarrow> nat" where
  "chunk_bytes b = (case chunk (first_data b) of Some c \<Rightarrow> unat (chunk_size c) | None \<Rightarrow> 0)"

definition pwf_filter_input_buffer_present :: "pwf_filter_port \<Rightarrow> dequeued_buffer option \<Rightarrow> bool" where
  "pwf_filter_input_buffer_present port b =
     (case b of
        None \<Rightarrow> False
      | Some d \<Rightarrow>
          if datas (buffer d) = [] then False
          else if port_use_dmabuf port then pwf_dmabuf_buffer_present (Some (buffer d))
          else data_present d)"

text \<open>\<open>datas[0]\<close> read without a test of \<open>n_datas\<close>.\<close>

definition check_datas :: "dequeued_buffer option \<Rightarrow> 'a pwf_filter_scheme \<Rightarrow> 'a pwf_filter_scheme" where
  "check_datas b f =
     (case b of None \<Rightarrow> f | Some d \<Rightarrow> if datas (buffer d) = [] then fault Out_of_bounds f else f)"

section \<open>Event ports\<close>

definition begin_event_input :: "cycle_env \<Rightarrow> nat \<Rightarrow> pwf_filter \<Rightarrow> port_cycle \<times> pwf_filter" where
  "begin_event_input env i f =
     (let p = get_port i f;
          p1 = (if ce_staged env \<and> items (pending_events p) \<noteq> [] then pwf_filter_event_take_pending p else p)
      in if items (delivering_events p1) \<noteq> []
         then (\<lparr>pc_buffer = empty_buffer i, pc_dequeued = None, pc_taken = None\<rparr>,
               map_port i (\<lambda>_. pwf_filter_event_load_delivering_as_incoming (ce_grow env) p1) f)
         else
           let b = ce_dequeue env i;
               f1 = check_datas b (map_port i (\<lambda>_. p1) f)
           in case b of
                Some d \<Rightarrow>
                  if data_present d
                  then (\<lparr>pc_buffer = empty_buffer i, pc_dequeued = Some d, pc_taken = Some d\<rparr>,
                        map_port i (pwf_filter_event_decode (ce_grow env) (chunk_bytes d) (controls d)) f1)
                  else (\<lparr>pc_buffer = empty_buffer i, pc_dequeued = None, pc_taken = Some d\<rparr>,
                        map_port i (\<lambda>p. p\<lparr>incoming_events := (incoming_events p)\<lparr>items := []\<rparr>\<rparr>) f1)
              | None \<Rightarrow> (\<lparr>pc_buffer = empty_buffer i, pc_dequeued = None, pc_taken = None\<rparr>,
                        map_port i (\<lambda>p. p\<lparr>incoming_events := (incoming_events p)\<lparr>items := []\<rparr>\<rparr>) f1))"

definition begin_event_output :: "cycle_env \<Rightarrow> nat \<Rightarrow> pwf_filter \<Rightarrow> port_cycle \<times> pwf_filter" where
  "begin_event_output env i f =
     (let b = ce_dequeue env i;
          f1 = check_datas b (map_port i (\<lambda>p. p\<lparr>pending_events := (pending_events p)\<lparr>items := []\<rparr>\<rparr>) f)
      in case b of
           Some d \<Rightarrow>
             if data_present d
             then (\<lparr>pc_buffer = empty_buffer i, pc_dequeued = Some d, pc_taken = Some d\<rparr>,
                   map_port i (\<lambda>p. p\<lparr>event_output_capacity := unat (maxsize (first_data d))\<rparr>) f1)
             else (\<lparr>pc_buffer = empty_buffer i, pc_dequeued = None, pc_taken = Some d\<rparr>,
                   map_port i (\<lambda>p. p\<lparr>event_output_capacity := 0\<rparr>) f1)
         | None \<Rightarrow> (\<lparr>pc_buffer = empty_buffer i, pc_dequeued = None, pc_taken = None\<rparr>,
                   map_port i (\<lambda>p. p\<lparr>event_output_capacity := 0\<rparr>) f1))"

section \<open>Input ports\<close>

text \<open>The push swap: the data thread takes the pushed block and leaves its own.\<close>

definition swap_pushed :: "pwf_filter_port \<Rightarrow> pwf_filter_port" where
  "swap_pushed p =
     p\<lparr>pushed_data := delivered_data p, pushed_capacity := delivered_capacity p,
       delivered_data := pushed_data p, delivered_capacity := pushed_capacity p, pushed_pending := False\<rparr>"

text \<open>Where this cycle's data comes from; the flag is \<open>got_new\<close>.\<close>

definition input_source :: "cycle_env \<Rightarrow> nat \<Rightarrow> pwf_filter \<Rightarrow> bool \<times> port_cycle \<times> pwf_filter" where
  "input_source env i f =
     (let p = get_port i f in
      if ce_staged env \<and> pushed_pending p
      then (True,
            \<lparr>pc_buffer = (empty_buffer i)\<lparr>pb_data := map_option Heap (pushed_data p), pb_size := pushed_size p,
                                          pb_pts := pushed_pts p\<rparr>,
             pc_dequeued = None, pc_taken = None\<rparr>,
            map_port i swap_pushed f)
      else
        let b = ce_dequeue env i;
            c = \<lparr>pc_buffer = empty_buffer i, pc_dequeued = b, pc_taken = b\<rparr>
        in case b of
             None \<Rightarrow> (False, c, f)
           | Some d \<Rightarrow>
               if pwf_filter_input_buffer_present p b
               then (if port_use_dmabuf p
                     then (True, c\<lparr>pc_buffer := (empty_buffer i)\<lparr>pb_pts := pwf_filter_buffer_pts d\<rparr>\<rparr>,
                           map_port i (\<lambda>p. p\<lparr>port_dmabuf_buf := Some (buffer d)\<rparr>) f)
                     else (True, c\<lparr>pc_buffer := (empty_buffer i)
                             \<lparr>pb_data := map_option Mapped (d_data (first_data d)), pb_size := chunk_bytes d,
                              pb_pts := pwf_filter_buffer_pts d\<rparr>\<rparr>, f))
               else (False, c, f))"

definition hold_new :: "nat \<Rightarrow> port_cycle \<Rightarrow> pwf_filter \<Rightarrow> port_cycle \<times> pwf_filter" where
  "hold_new i c f =
     (let f1 = (case held_buf (get_port i f) of None \<Rightarrow> f | Some old \<Rightarrow> emit [Filter_queue_buffer i old] f)
      in (c\<lparr>pc_dequeued := None\<rparr>,
          map_port i (\<lambda>p. p\<lparr>held_buf := map_option buf_id (pc_dequeued c), has_held := True,
                            held_data := pb_data (pc_buffer c), held_size := pb_size (pc_buffer c),
                            held_pts := pb_pts (pc_buffer c), held_dmabuf_buf := port_dmabuf_buf p\<rparr>) f1))"

definition begin_input :: "cycle_env \<Rightarrow> nat \<Rightarrow> pwf_filter \<Rightarrow> port_cycle \<times> pwf_filter" where
  "begin_input env i f =
     (case input_source env i f of
        (True, c, f1) \<Rightarrow>
          let f2 = map_port i (\<lambda>p. p\<lparr>update_seq := update_seq p + 1\<rparr>) f1;
              c1 = c\<lparr>pc_buffer := (pc_buffer c)\<lparr>pb_fresh := True, pb_seq := update_seq (get_port i f2)\<rparr>\<rparr>
          in if hold_enabled (get_port i f2) then hold_new i c1 f2 else (c1, f2)
      | (False, c, f1) \<Rightarrow>
          let p = get_port i f1 in
          if hold_enabled p \<and> has_held p
          then (c\<lparr>pc_buffer := (pc_buffer c)\<lparr>pb_data := held_data p, pb_size := held_size p, pb_pts := held_pts p,
                                             pb_seq := update_seq p\<rparr>\<rparr>,
                map_port i (\<lambda>p. p\<lparr>port_dmabuf_buf := held_dmabuf_buf p\<rparr>) f1)
          else (c\<lparr>pc_buffer := (pc_buffer c)\<lparr>pb_seq := update_seq p\<rparr>\<rparr>, f1))"

section \<open>Output ports\<close>

definition begin_output :: "cycle_env \<Rightarrow> nat \<Rightarrow> pwf_filter \<Rightarrow> port_cycle \<times> pwf_filter" where
  "begin_output env i f =
     (let b = ce_dequeue env i;
          f1 = check_datas b f
      in case b of
           Some d \<Rightarrow>
             if data_present d
             then (\<lparr>pc_buffer = (empty_buffer i)\<lparr>pb_data := map_option Mapped (d_data (first_data d)),
                                                  pb_capacity := unat (maxsize (first_data d))\<rparr>,
                    pc_dequeued = Some d, pc_taken = Some d\<rparr>, f1)
             else (\<lparr>pc_buffer = empty_buffer i, pc_dequeued = None, pc_taken = Some d\<rparr>, f1)
         | None \<Rightarrow> (\<lparr>pc_buffer = empty_buffer i, pc_dequeued = None, pc_taken = None\<rparr>, f1))"

section \<open>The cycle\<close>

definition begin_port :: "cycle_env \<Rightarrow> nat \<Rightarrow> pwf_filter \<Rightarrow> port_cycle \<times> pwf_filter" where
  "begin_port env i f =
     (let f1 = map_port i (\<lambda>p. p\<lparr>port_dmabuf_buf := None\<rparr>) f;
          p = get_port i f1
      in if port_media p = PWF_DATA_EVENT
         then (if port_dir p = PWF_FILTER_PORT_INPUT then begin_event_input env i f1 else begin_event_output env i f1)
         else if port_dir p = PWF_FILTER_PORT_INPUT then begin_input env i f1
         else begin_output env i f1)"

primrec begin_ports :: "cycle_env \<Rightarrow> nat list \<Rightarrow> pwf_filter \<Rightarrow> port_cycle list \<times> pwf_filter" where
  "begin_ports env [] f = ([], f)"
| "begin_ports env (i # is) f =
     (case begin_port env i f of
        (c, f1) \<Rightarrow> (case begin_ports env is f1 of (cs, f2) \<Rightarrow> (c # cs, f2)))"

text \<open>What goes out with a buffer: its chunk's size, if it has a chunk, and an event port's controls.\<close>

record port_output =
  out_port :: nat
  out_size :: "u32 option"
  out_events :: "built_control list"

definition out_chunk :: "dequeued_buffer \<Rightarrow> nat \<Rightarrow> u32 option" where
  "out_chunk d n = (case chunk (first_data d) of None \<Rightarrow> None | Some _ \<Rightarrow> Some (of_nat n))"

definition end_port ::
    "cycle_env \<Rightarrow> nat \<Rightarrow> dequeued_buffer option \<Rightarrow> pwf_filter_port_buffer \<Rightarrow> pwf_filter \<Rightarrow>
     port_output option \<times> pwf_filter" where
  "end_port env i b buf f =
     (let p = get_port i f;
          requeue = (\<lambda>g. case b of None \<Rightarrow> g | Some d \<Rightarrow> emit [Filter_queue_buffer i (buf_id d)] g)
      in if port_media p = PWF_DATA_EVENT then
           (if port_dir p = PWF_FILTER_PORT_INPUT
            then (None, requeue (map_port i pwf_filter_event_clear_delivering f))
            else case b of
                Some d \<Rightarrow>
                  (case pwf_filter_event_finish_output p of
                     (built, p1) \<Rightarrow>
                       (Some \<lparr>out_port = i, out_size = out_chunk d (ce_pod_size env built), out_events = built\<rparr>,
                        requeue (map_port i (\<lambda>_. p1) f)))
              | None \<Rightarrow> (None, map_port i pwf_filter_event_clear_pending f))
         else
           (case b of
              None \<Rightarrow> (None, f)
            | Some d \<Rightarrow>
                (if port_dir p = PWF_FILTER_PORT_OUTPUT
                 then Some \<lparr>out_port = i, out_size = out_chunk d (pb_size buf), out_events = []\<rparr> else None,
                 requeue f)))"

primrec end_ports ::
    "cycle_env \<Rightarrow> (nat \<times> dequeued_buffer option \<times> pwf_filter_port_buffer) list \<Rightarrow> pwf_filter \<Rightarrow>
     port_output list \<times> pwf_filter" where
  "end_ports env [] f = ([], f)"
| "end_ports env (x # xs) f =
     (case x of (i, b, buf) \<Rightarrow>
        (case end_port env i b buf f of
           (out, f1) \<Rightarrow>
             (case end_ports env xs f1 of
                (outs, f2) \<Rightarrow> ((case out of None \<Rightarrow> outs | Some q \<Rightarrow> q # outs), f2))))"

text \<open>The application's callback gets the buffers and the filter, and may write the buffers' sizes.\<close>

type_synonym process_callback =
  "pwf_thread \<Rightarrow> pwf_filter_port_buffer list \<Rightarrow> pwf_filter \<Rightarrow> pwf_filter_port_buffer list \<times> pwf_filter"

definition PWF_FILTER_STACK_PORTS :: nat where "PWF_FILTER_STACK_PORTS = 8"

definition pwf_filter_on_process ::
    "cycle_env \<Rightarrow> process_callback \<Rightarrow> pwf_thread \<Rightarrow> pwf_filter \<Rightarrow>
     (port_cycle list \<times> port_output list) \<times> pwf_filter" where
  "pwf_filter_on_process env app th f =
     (if n_ports f = 0 then (([], []), f)
      else if n_ports f > PWF_FILTER_STACK_PORTS \<and> \<not> ce_alloc_ok env then (([], []), f)
      else
        case begin_ports env [0..<n_ports f] f of
          (cs, f1) \<Rightarrow>
            let bufs = map pc_buffer cs;
                (bufs1, f2) = (if process_cb f1
                               then app (th\<lparr>pwf_filter_processing := Some (filter_id f1)\<rparr>) bufs f1
                               else (bufs, f1))
            in case end_ports env (zip [0..<n_ports f] (zip (map pc_dequeued cs) bufs1)) f2 of
                 (outs, f3) \<Rightarrow> ((cs, outs), f3))"

section \<open>The descriptor accessor\<close>

definition pwf_filter_port_get_dmabuf_planes ::
    "pwf_filter_port_buffer option \<Rightarrow> pwf_dmabuf_plane list option \<Rightarrow> nat \<Rightarrow> pwf_filter \<Rightarrow>
     nat \<times> pwf_dmabuf_plane list option" where
  "pwf_filter_port_get_dmabuf_planes buf planes planes_len f =
     (case buf of
        None \<Rightarrow> (0, planes)
      | Some b \<Rightarrow>
          let p = get_port (pb_port b) f in
          if \<not> port_use_dmabuf p \<or> port_dmabuf_buf p = None then (0, planes)
          else pwf_dmabuf_extract_planes (port_dmabuf_buf p) planes planes_len)"

end
