(* ===== verification/Pwf_Filter_Memory.thy ===== *)
theory Pwf_Filter_Memory
  imports Pwf_Filter_Process
begin

text \<open>
  Who may touch which memory of a filter. Every port has two blocks, one for pushes and one the data
  thread delivers from; no two pointers name one block, so a push never changes what a callback or a
  hold can read, and destroying the filter frees each block once.
\<close>

text \<open>The two sides of port \<open>i\<close>: the data thread's (\<open>True\<close>) and the pushing threads' (\<open>False\<close>).\<close>

definition block :: "'a pwf_filter_scheme \<Rightarrow> nat \<Rightarrow> bool \<Rightarrow> nat option" where
  "block f i side = (if side then delivered_data (get_port i f) else pushed_data (get_port i f))"

definition block_size :: "'a pwf_filter_scheme \<Rightarrow> nat \<Rightarrow> bool \<Rightarrow> nat" where
  "block_size f i side = (if side then delivered_capacity (get_port i f) else pushed_capacity (get_port i f))"

text \<open>What a held port re-presents from the heap is the block its data thread owns.\<close>

definition hold_in_block :: "pwf_filter_port \<Rightarrow> bool" where
  "hold_in_block p \<longleftrightarrow>
     (\<forall>a. has_held p \<and> held_data p = Some (Heap a) \<longrightarrow>
        delivered_data p = Some a \<and> held_size p \<le> delivered_capacity p)"

definition port_mem_ok :: "pwf_filter_port \<Rightarrow> bool" where
  "port_mem_ok p \<longleftrightarrow>
     (pushed_pending p \<longrightarrow> pushed_size p \<le> pushed_capacity p) \<and>
     (has_held p \<longrightarrow> hold_enabled p) \<and> hold_in_block p"

definition blocks_ok :: "'a pwf_filter_scheme \<Rightarrow> bool" where
  "blocks_ok f \<longleftrightarrow>
     (\<forall>i s. i < n_ports f \<longrightarrow>
        (case block f i s of
           None \<Rightarrow> block_size f i s = 0
         | Some a \<Rightarrow> \<exists>bytes. heap f a = Some bytes \<and> length bytes = block_size f i s))"

definition blocks_unique :: "'a pwf_filter_scheme \<Rightarrow> bool" where
  "blocks_unique f \<longleftrightarrow>
     (\<forall>i j s t a. i < n_ports f \<longrightarrow> j < n_ports f \<longrightarrow> block f i s = Some a \<longrightarrow> block f j t = Some a \<longrightarrow>
        i = j \<and> s = t)"

definition no_leak :: "'a pwf_filter_scheme \<Rightarrow> bool" where
  "no_leak f \<longleftrightarrow> (\<forall>a. heap f a \<noteq> None \<longrightarrow> (\<exists>i<n_ports f. \<exists>s. block f i s = Some a))"

definition heap_ok :: "'a pwf_filter_scheme \<Rightarrow> bool" where
  "heap_ok f \<longleftrightarrow> blocks_ok f \<and> blocks_unique f \<and> no_leak f \<and> (\<forall>i<n_ports f. port_mem_ok (get_port i f))"

lemma blocks_okD:
  assumes "blocks_ok f" and "i < n_ports f"
  shows "block f i s = Some a \<Longrightarrow> \<exists>bytes. heap f a = Some bytes \<and> length bytes = block_size f i s"
    and "block f i s = None \<Longrightarrow> block_size f i s = 0"
proof -
  have "case block f i s of None \<Rightarrow> block_size f i s = 0
        | Some a \<Rightarrow> \<exists>bytes. heap f a = Some bytes \<and> length bytes = block_size f i s"
    using assms by (simp add: blocks_ok_def)
  then show "block f i s = Some a \<Longrightarrow> \<exists>bytes. heap f a = Some bytes \<and> length bytes = block_size f i s"
    and "block f i s = None \<Longrightarrow> block_size f i s = 0" by simp_all
qed

lemma blocks_uniqueD:
  "blocks_unique f \<Longrightarrow> i < n_ports f \<Longrightarrow> j < n_ports f \<Longrightarrow> block f i s = Some a \<Longrightarrow> block f j t = Some a \<Longrightarrow> i = j \<and> s = t"
  unfolding blocks_unique_def by blast

text \<open>Only the heap and these fields of each port matter.\<close>

definition mem_fields where
  "mem_fields p =
     ((pushed_data p, pushed_capacity p, pushed_size p, pushed_pending p, delivered_data p, delivered_capacity p),
      (hold_enabled p, has_held p, held_data p, held_size p))"

definition same_memory :: "'a pwf_filter_scheme \<Rightarrow> 'a pwf_filter_scheme \<Rightarrow> bool" where
  "same_memory f g \<longleftrightarrow>
     heap g = heap f \<and> n_ports g = n_ports f \<and>
     (\<forall>i<n_ports f. mem_fields (get_port i g) = mem_fields (get_port i f))"

lemma same_memory_block:
  "same_memory f g \<Longrightarrow> i < n_ports f \<Longrightarrow> block g i s = block f i s \<and> block_size g i s = block_size f i s"
  by (simp add: same_memory_def block_def block_size_def mem_fields_def)

lemma port_mem_ok_fields: "mem_fields p = mem_fields q \<Longrightarrow> port_mem_ok p = port_mem_ok q"
  by (simp add: mem_fields_def port_mem_ok_def hold_in_block_def)

lemma same_memory_ok:
  assumes m: "same_memory f g" and ok: "heap_ok f"
  shows "heap_ok g"
proof -
  have n: "n_ports g = n_ports f" and h: "heap g = heap f" using m by (simp_all add: same_memory_def)
  have b: "i < n_ports f \<Longrightarrow> block g i s = block f i s" "i < n_ports f \<Longrightarrow> block_size g i s = block_size f i s" for i s
    using same_memory_block [OF m] by blast+
  have "blocks_ok g" using ok b by (simp add: heap_ok_def blocks_ok_def n h cong: option.case_cong)
  moreover have "blocks_unique g"
    using ok b unfolding heap_ok_def blocks_unique_def n by metis
  moreover have "no_leak g" using ok b unfolding heap_ok_def no_leak_def n h by metis
  moreover have "port_mem_ok (get_port i g)" if "i < n_ports f" for i
    using m that ok port_mem_ok_fields [of "get_port i g" "get_port i f"] by (simp add: same_memory_def heap_ok_def)
  ultimately show ?thesis by (simp add: heap_ok_def n)
qed

lemma same_filter_memory: "same_filter f g \<Longrightarrow> same_memory f g"
proof -
  assume s: "same_filter f g"
  have "mem_fields (get_port i g) = mem_fields (get_port i f)" if "i < n_ports f" for i
  proof -
    have "mem_fields (port_core (get_port i g)) = mem_fields (port_core (get_port i f))"
      using s that by (simp add: same_filter_def)
    then show ?thesis by (simp add: mem_fields_def port_core_def)
  qed
  then show ?thesis using s by (simp add: same_memory_def same_filter_def)
qed

section \<open>Pushing\<close>

text \<open>The address \<open>realloc\<close> answers: a free one, or the old block's.\<close>

definition grown_ok :: "nat option \<Rightarrow> nat \<Rightarrow> 'a pwf_filter_scheme \<Rightarrow> bool" where
  "grown_ok grown i f \<longleftrightarrow>
     (case grown of None \<Rightarrow> True | Some a \<Rightarrow> heap f a = None \<or> pushed_data (get_port i f) = Some a)"

text \<open>What a successful push does, in one step.\<close>

definition stage_push :: "nat option \<Rightarrow> nat \<Rightarrow> nat \<Rightarrow> int \<Rightarrow> pwf_filter_port \<Rightarrow> pwf_filter_port" where
  "stage_push ptr cap n pts p =
     p\<lparr>pushed_data := ptr, pushed_capacity := cap, pushed_size := n, pushed_pts := pts, pushed_pending := True\<rparr>"

definition drop_block :: "nat option \<Rightarrow> (nat \<rightharpoonup> byte list) \<Rightarrow> (nat \<rightharpoonup> byte list)" where
  "drop_block ptr h = (case ptr of None \<Rightarrow> h | Some a \<Rightarrow> h(a := None))"

lemma map_port_compose: "i < n_ports f \<Longrightarrow> map_port i u (map_port i v f) = map_port i (u \<circ> v) f"
  by (simp add: map_port_def get_port_def n_ports_def)

lemma map_port_heap: "map_port i u (f\<lparr>heap := h\<rparr>) = (map_port i u f)\<lparr>heap := h\<rparr>"
  by (simp add: map_port_def get_port_def)

lemma map_port_id: "map_port i (\<lambda>p. p) f = f"
  by (simp add: map_port_def get_port_def)

lemma map_port_cong: "u (get_port i f) = v (get_port i f) \<Longrightarrow> map_port i u f = map_port i v f"
  by (simp add: map_port_def)

lemma push_result:
  assumes ok: "heap_ok f" and i: "i < n_ports f" and g: "grown_ok grown i f" and d: "n \<le> length d"
    and run: "filter_push_port_data grown (Some (owner, i)) (Some d) n pts f = (PWF_OK, f')"
  obtains (empty) "n = 0" "f' = map_port i (stage_push (pushed_data (get_port i f)) (pushed_capacity (get_port i f)) n pts) f"
  | (copied) a bytes where "take n bytes = take n d" "n \<le> length bytes"
      "heap f a = None \<or> pushed_data (get_port i f) = Some a"
      "f' = (map_port i (stage_push (Some a) (length bytes) n pts) f)
              \<lparr>heap := (drop_block (pushed_data (get_port i f)) (heap f))(a \<mapsto> bytes)\<rparr>"
proof -
  let ?p = "get_port i f"
  have blk: "block f i False = pushed_data ?p" "block_size f i False = pushed_capacity ?p"
    by (simp_all add: block_def block_size_def)
  show thesis
  proof (cases "n > pushed_capacity ?p")
    case True
    with run obtain a where a: "grown = Some a" by (cases grown) (auto simp: filter_push_port_data_def Let_def split: if_splits)
    have free: "heap f a = None \<or> pushed_data ?p = Some a" using g a by (simp add: grown_ok_def)
    define f1 where "f1 = map_port i (\<lambda>p. p\<lparr>pushed_data := Some a, pushed_capacity := n\<rparr>) (heap_realloc (pushed_data ?p) a n f)"
    have port1: "pushed_data (get_port i f1) = Some a"
      using i by (simp add: f1_def heap_realloc_def Let_def get_port_map_port)
    have heap1: "heap f1 = (drop_block (pushed_data ?p) (heap f))(a \<mapsto>
        take n ((case pushed_data ?p of None \<Rightarrow> [] | Some a \<Rightarrow> the (heap f a)) @ replicate n 0))"
      by (simp add: f1_def heap_realloc_def drop_block_def Let_def split: option.split)
    then obtain old where old: "heap f1 a = Some old" "length old = n" by simp
    have f': "f' = map_port i (\<lambda>p. p\<lparr>pushed_size := n, pushed_pts := pts, pushed_pending := True\<rparr>)
        (heap_write (Some a) (take n d) f1)"
      using run True a port1 by (auto simp: filter_push_port_data_def Let_def f1_def split: if_splits)
    have "heap_write (Some a) (take n d) f1 = f1\<lparr>heap := (heap f1)(a \<mapsto> take n d)\<rparr>"
      using old d by (simp add: heap_write_def)
    moreover have "(heap f1)(a \<mapsto> take n d) = (drop_block (pushed_data ?p) (heap f))(a \<mapsto> take n d)"
      by (simp add: heap1)
    ultimately have "f' = (map_port i (stage_push (Some a) n n pts) f)
        \<lparr>heap := (drop_block (pushed_data ?p) (heap f))(a \<mapsto> take n d)\<rparr>"
      using i by (simp add: f' f1_def heap_realloc_def Let_def map_port_heap map_port_compose comp_def
          stage_push_def [abs_def])
    then show thesis using copied [of "take n d" a] free d by simp
  next
    case False
    have f': "f' = map_port i (\<lambda>p. p\<lparr>pushed_size := n, pushed_pts := pts, pushed_pending := True\<rparr>)
        (if n > 0 then heap_write (pushed_data ?p) (take n d) f else f)"
      using run False by (auto simp: filter_push_port_data_def Let_def split: if_splits)
    show thesis
    proof (cases "n = 0")
      case True
      have "f' = map_port i (stage_push (pushed_data ?p) (pushed_capacity ?p) n pts) f"
        unfolding f' using True by (simp, intro map_port_cong) (simp add: stage_push_def)
      with True show thesis by (rule empty)
    next
      case n: False
      have pos: "pushed_capacity ?p > 0" using False n by simp
      then obtain a where a: "pushed_data ?p = Some a"
        using blocks_okD(2) [of f i False] ok i blk by (cases "pushed_data ?p") (auto simp: heap_ok_def)
      then obtain old where old: "heap f a = Some old" "length old = pushed_capacity ?p"
        using blocks_okD(1) [of f i False a] ok i blk by (auto simp: heap_ok_def)
      let ?bytes = "take n d @ drop n old"
      have len: "length ?bytes = pushed_capacity ?p" using old d False by simp
      have "heap_write (Some a) (take n d) f = f\<lparr>heap := (heap f)(a \<mapsto> ?bytes)\<rparr>"
        using old d False by (simp add: heap_write_def min_def)
      then have f'': "f' = (map_port i (\<lambda>p. p\<lparr>pushed_size := n, pushed_pts := pts, pushed_pending := True\<rparr>) f)\<lparr>heap := (heap f)(a \<mapsto> ?bytes)\<rparr>"
        using n by (simp add: f' a map_port_heap)
      have eq: "map_port i (\<lambda>p. p\<lparr>pushed_size := n, pushed_pts := pts, pushed_pending := True\<rparr>) f =
          map_port i (stage_push (Some a) (length ?bytes) n pts) f"
        unfolding len by (rule map_port_cong) (simp add: stage_push_def a [symmetric])
      have h: "(drop_block (pushed_data ?p) (heap f))(a \<mapsto> ?bytes) = (heap f)(a \<mapsto> ?bytes)"
        by (simp add: a drop_block_def)
      have "f' = (map_port i (stage_push (Some a) (length ?bytes) n pts) f)\<lparr>heap := (drop_block (pushed_data ?p) (heap f))(a \<mapsto> ?bytes)\<rparr>"
        unfolding h f'' eq by (rule refl)
      then show thesis using a d by (intro copied [of ?bytes a]) (assumption | simp add: min_def)+
    qed
  qed
qed


lemma get_port_map_port_heap [simp]:
  "get_port j ((map_port i u f)\<lparr>heap := h\<rparr>) = get_port j (map_port i u f)"
  "n_ports ((map_port i u f)\<lparr>heap := h\<rparr>) = n_ports f"
  by (simp_all add: get_port_def n_ports_def map_port_def)

text \<open>
  Giving one side of one port a block of its own, in a heap where only that block and its
  predecessor changed, keeps the discipline.
\<close>

lemma replace_block_ok:
  assumes ok: "heap_ok f" and i: "i < n_ports f"
    and old: "pushed_data (get_port i f) = old" and free: "heap f a = None \<or> old = Some a"
    and mem: "port_mem_ok (u (get_port i f))"
    and u: "pushed_data (u (get_port i f)) = Some a" "pushed_capacity (u (get_port i f)) = length bytes"
      "delivered_data (u (get_port i f)) = delivered_data (get_port i f)"
      "delivered_capacity (u (get_port i f)) = delivered_capacity (get_port i f)"
  shows "heap_ok ((map_port i u f)\<lparr>heap := (drop_block old (heap f))(a \<mapsto> bytes)\<rparr>)"
proof -
  define g where "g = (map_port i u f)\<lparr>heap := (drop_block old (heap f))(a \<mapsto> bytes)\<rparr>"
  have n: "n_ports g = n_ports f" and hg: "heap g c = (if c = a then Some bytes else if old = Some c then None else heap f c)" for c
    by (simp_all add: g_def drop_block_def split: option.split)
  have b: "blocks_ok f" "blocks_unique f" "no_leak f" using ok by (simp_all add: heap_ok_def)
  have side: "block g j s = (if j = i \<and> \<not> s then Some a else block f j s)"
    "block_size g j s = (if j = i \<and> \<not> s then length bytes else block_size f j s)" for j s
    using i u by (simp_all add: g_def get_port_map_port block_def block_size_def)
  have was: "block f i False = old" using old by (simp add: block_def)
  have other: "c \<noteq> a \<and> old \<noteq> Some c" if "j < n_ports f" "\<not> (j = i \<and> \<not> s)" "block f j s = Some c" for j s c
  proof -
    have "old \<noteq> Some c" using blocks_uniqueD [OF b(2) that(1) i that(3), of False] was that(2) by auto
    moreover have "heap f c \<noteq> None" using blocks_okD(1) [OF b(1) that(1,3)] by auto
    ultimately show ?thesis using free by auto
  qed
  have "blocks_ok g" unfolding blocks_ok_def
  proof (intro allI impI)
    fix j s assume j: "j < n_ports g"
    show "case block g j s of None \<Rightarrow> block_size g j s = 0
          | Some c \<Rightarrow> \<exists>bs. heap g c = Some bs \<and> length bs = block_size g j s"
    proof (cases "j = i \<and> \<not> s")
      case True then show ?thesis by (simp add: side hg)
    next
      case False
      then show ?thesis using blocks_okD [OF b(1), of j s] other [of j s] j
        by (cases "block f j s") (auto simp: side hg n)
    qed
  qed
  moreover have "blocks_unique g" unfolding blocks_unique_def
  proof (intro allI impI)
    fix j k s t c
    assume "j < n_ports g" "k < n_ports g" "block g j s = Some c" "block g k t = Some c"
    then show "j = k \<and> s = t"
      using blocks_uniqueD [OF b(2), of j k s c t] other [of j s c] other [of k t c]
      by (auto simp: side n split: if_splits)
  qed
  moreover have "no_leak g" unfolding no_leak_def
  proof (intro allI impI)
    fix c assume c: "heap g c \<noteq> None"
    show "\<exists>j<n_ports g. \<exists>s. block g j s = Some c"
    proof (cases "c = a")
      case True then show ?thesis using i by (intro exI [of _ i] conjI exI [of _ False]) (simp_all add: side n)
    next
      case False
      then have h: "heap f c \<noteq> None" "old \<noteq> Some c" using c by (auto simp: hg split: if_splits)
      then obtain j s where j: "j < n_ports f" "block f j s = Some c" using b(3) unfolding no_leak_def by blast
      then have "\<not> (j = i \<and> \<not> s)" using was h by (cases s) auto
      then show ?thesis using j by (intro exI [of _ j] conjI exI [of _ s]) (auto simp: side n)
    qed
  qed
  moreover have "port_mem_ok (get_port j g)" if "j < n_ports f" for j
    using mem ok that i by (cases "j = i") (simp_all add: g_def get_port_map_port heap_ok_def)
  ultimately show ?thesis unfolding g_def [symmetric] by (simp add: heap_ok_def n)
qed

lemma port_mem_ok_stage_push: "port_mem_ok p \<Longrightarrow> n \<le> cap \<Longrightarrow> port_mem_ok (stage_push ptr cap n pts p)"
  by (simp add: port_mem_ok_def hold_in_block_def stage_push_def)

text \<open>Changing nothing of the blocks of a port.\<close>

lemma map_port_heap_ok:
  assumes ok: "heap_ok f" and i: "i < n_ports f"
    and u: "pushed_data (u (get_port i f)) = pushed_data (get_port i f)"
      "pushed_capacity (u (get_port i f)) = pushed_capacity (get_port i f)"
      "delivered_data (u (get_port i f)) = delivered_data (get_port i f)"
      "delivered_capacity (u (get_port i f)) = delivered_capacity (get_port i f)"
    and m: "port_mem_ok (u (get_port i f))"
  shows "heap_ok (map_port i u f)"
proof -
  have side: "block (map_port i u f) j s = block f j s" "block_size (map_port i u f) j s = block_size f j s" for j s
    using i u by (simp_all add: block_def block_size_def get_port_map_port)
  have "port_mem_ok (get_port j (map_port i u f))" if "j < n_ports f" for j
    using ok m i that by (simp add: heap_ok_def get_port_map_port)
  then show ?thesis using ok
    by (simp add: heap_ok_def blocks_ok_def blocks_unique_def no_leak_def side cong: option.case_cong)
qed

lemma heap_ok_emit [simp]: "heap_ok (emit cs f) = heap_ok f"
  by (simp add: heap_ok_def blocks_ok_def blocks_unique_def no_leak_def block_def block_size_def
      cong: option.case_cong)

text \<open>
  A successful push keeps the discipline, faults nowhere and leaves every block the data thread owns,
  of this port and of every other, as it was.
\<close>

lemma filter_push_spec:
  assumes ok: "heap_ok f" and i: "i < n_ports f" and g: "grown_ok grown i f" and d: "n \<le> length d"
    and run: "filter_push_port_data grown (Some (owner, i)) (Some d) n pts f = (PWF_OK, f')"
  shows "heap_ok f'" and "faults f' = faults f" and "n_ports f' = n_ports f"
    and "j < n_ports f \<Longrightarrow> block f' j True = block f j True"
    and "j < n_ports f \<Longrightarrow> block f j True = Some a \<Longrightarrow> heap f' a = heap f a"
    and "\<exists>ptr cap. get_port i f' = stage_push ptr cap n pts (get_port i f) \<and>
           (n > 0 \<longrightarrow> (\<exists>a bytes. ptr = Some a \<and> heap f' a = Some bytes \<and> take n bytes = take n d))"
proof -
  have parts: "heap_ok f' \<and> faults f' = faults f \<and> n_ports f' = n_ports f \<and>
      (\<forall>j<n_ports f. block f' j True = block f j True) \<and>
      (\<forall>j<n_ports f. \<forall>a. block f j True = Some a \<longrightarrow> heap f' a = heap f a) \<and>
      (\<exists>ptr cap. get_port i f' = stage_push ptr cap n pts (get_port i f) \<and>
           (n > 0 \<longrightarrow> (\<exists>a bytes. ptr = Some a \<and> heap f' a = Some bytes \<and> take n bytes = take n d)))"
  proof (cases rule: push_result [OF ok i g d run])
    case 1
    then have f': "f' = map_port i (stage_push (pushed_data (get_port i f)) (pushed_capacity (get_port i f)) n pts) f"
      and n: "n = 0" by simp_all
    have "heap_ok f'" unfolding f'
      by (rule map_port_heap_ok [OF ok i]) (use ok i n in \<open>simp_all add: stage_push_def port_mem_ok_def hold_in_block_def heap_ok_def\<close>)
    moreover have "get_port i f' = stage_push (pushed_data (get_port i f)) (pushed_capacity (get_port i f)) n pts (get_port i f)"
      using i by (simp add: f' get_port_map_port)
    moreover have "block f' j True = block f j True" for j
      using i by (simp add: f' block_def get_port_map_port stage_push_def)
    moreover have "faults f' = faults f" "n_ports f' = n_ports f" "heap f' = heap f" by (simp_all add: f')
    ultimately show ?thesis using n by auto
  next
    case (2 a bytes)
    note f' = 2(4)
    have port: "get_port i f' = stage_push (Some a) (length bytes) n pts (get_port i f)"
      and others: "j \<noteq> i \<Longrightarrow> get_port j f' = get_port j f" for j
      using i by (simp_all add: f' get_port_map_port)
    have "heap_ok f'" unfolding f'
      by (rule replace_block_ok [OF ok i refl 2(3)])
         (use ok i 2(2) in \<open>simp_all add: stage_push_def port_mem_ok_def hold_in_block_def heap_ok_def\<close>)
    moreover have same: "block f' j True = block f j True" for j
      using port others by (cases "j = i") (simp_all add: block_def stage_push_def)
    moreover have "heap f' c = heap f c" if j: "j < n_ports f" and c: "block f j True = Some c" for j c
    proof -
      have "pushed_data (get_port i f) \<noteq> Some c"
        using blocks_uniqueD [of f j i True c False] ok j i c by (auto simp: heap_ok_def block_def)
      moreover have "heap f c \<noteq> None" using blocks_okD(1) [of f j True c] ok j c by (auto simp: heap_ok_def)
      ultimately show ?thesis using 2(3) by (auto simp: f' drop_block_def split: option.split)
    qed
    moreover have "heap f' a = Some bytes" by (simp add: f')
    ultimately show ?thesis using port 2(1) by (auto simp: f')
  qed
  then show "heap_ok f'" "faults f' = faults f" "n_ports f' = n_ports f"
    "\<exists>ptr cap. get_port i f' = stage_push ptr cap n pts (get_port i f) \<and>
           (n > 0 \<longrightarrow> (\<exists>a bytes. ptr = Some a \<and> heap f' a = Some bytes \<and> take n bytes = take n d))" by blast+
  show "j < n_ports f \<Longrightarrow> block f' j True = block f j True" using parts by blast
  show "j < n_ports f \<Longrightarrow> block f j True = Some a \<Longrightarrow> heap f' a = heap f a" using parts by blast
qed

end
