(* ===== verification/Pwf_Filter_Cycle.thy ===== *)
theory Pwf_Filter_Cycle
  imports Pwf_Filter_Memory
begin

text \<open>
  Facts about a processing cycle: each buffer a port dequeues is returned, held or on its way to the
  callback; the memory discipline; what is fresh; what a hold presents. A loop over the ports is
  reduced to its turn for one port by the locale \<open>port_pass\<close>.
\<close>

section \<open>A pass over the ports\<close>

primrec run_steps :: "('x \<Rightarrow> 's \<Rightarrow> 'r \<times> 's) \<Rightarrow> 'x list \<Rightarrow> 's \<Rightarrow> 'r list \<times> 's" where
  "run_steps step [] s = ([], s)"
| "run_steps step (x # xs) s =
     (case step x s of (r, s1) \<Rightarrow> (case run_steps step xs s1 of (rs, s2) \<Rightarrow> (r # rs, s2)))"

lemma run_steps_length [simp]: "length (fst (run_steps step xs s)) = length xs"
  by (induction xs arbitrary: s) (simp_all add: case_prod_beta)

lemma begin_ports_run: "begin_ports env is f = run_steps (begin_port env) is f"
  by (induction "is" arbitrary: f) simp_all

definition end_step where
  "end_step env x f = (case x of (i, b, buf) \<Rightarrow> end_port env i b buf f)"

lemma end_ports_run:
  "end_ports env xs f =
     (List.map_filter (\<lambda>r. r) (fst (run_steps (end_step env) xs f)), snd (run_steps (end_step env) xs f))"
  by (induction xs arbitrary: f) (auto simp: end_step_def map_filter_simps split: prod.split option.split)

lemma fold_run: "fold step xs s = snd (run_steps (\<lambda>x s. ((), step x s)) xs s)"
  by (induction xs arbitrary: s) (auto split: prod.split)

text \<open>
  Steps that each work on one port: \<open>view j\<close> is what matters of port \<open>j\<close>, and no other port's step
  changes it.
\<close>

locale port_pass =
  fixes step :: "'x \<Rightarrow> 's \<Rightarrow> 'r \<times> 's"
    and key :: "'x \<Rightarrow> nat"
    and ports :: "'s \<Rightarrow> nat"
    and view :: "nat \<Rightarrow> 's \<Rightarrow> 'v"
  assumes same_ports: "key x < ports s \<Longrightarrow> ports (snd (step x s)) = ports s"
    and other: "key x < ports s \<Longrightarrow> j \<noteq> key x \<Longrightarrow> view j (snd (step x s)) = view j s"
begin

lemma run_ports:
  "\<forall>x\<in>set xs. key x < ports s \<Longrightarrow> ports (snd (run_steps step xs s)) = ports s"
proof (induction xs arbitrary: s)
  case (Cons x xs)
  then show ?case using same_ports [of x s] by (simp add: case_prod_beta)
qed simp

lemma run_other:
  "\<forall>x\<in>set xs. key x < ports s \<Longrightarrow> j \<notin> key ` set xs \<Longrightarrow> view j (snd (run_steps step xs s)) = view j s"
proof (induction xs arbitrary: s)
  case (Cons x xs)
  obtain r s1 where s1: "step x s = (r, s1)" by fastforce
  then have "ports s1 = ports s" "view j s1 = view j s" using Cons.prems same_ports [of x s] other [of x s j] by auto
  then show ?case using Cons.IH [of s1] Cons.prems s1 by (auto split: prod.split)
qed simp

text \<open>Port \<open>i\<close>'s turn: it starts from what the port was and nothing later touches it.\<close>

lemma turn:
  assumes "\<forall>x\<in>set xs. key x < ports s" and "distinct (map key xs)" and "k < length xs"
  shows "\<exists>t. ports t = ports s \<and> view (key (xs ! k)) t = view (key (xs ! k)) s \<and>
             fst (run_steps step xs s) ! k = fst (step (xs ! k) t) \<and>
             view (key (xs ! k)) (snd (run_steps step xs s)) = view (key (xs ! k)) (snd (step (xs ! k) t))"
  using assms
proof (induction xs arbitrary: s k)
  case (Cons x xs)
  obtain r s1 where s1: "step x s = (r, s1)" by fastforce
  obtain rs s2 where s2: "run_steps step xs s1 = (rs, s2)" by fastforce
  have p1: "ports s1 = ports s" using Cons.prems same_ports [of x s] s1 by auto
  show ?case
  proof (cases k)
    case 0
    have "view (key x) s2 = view (key x) s1"
      using run_other [of xs s1 "key x"] Cons.prems p1 s2 by auto
    then show ?thesis using 0 s1 s2 by (intro exI [of _ s]) simp
  next
    case (Suc m)
    have neq: "key (xs ! m) \<noteq> key x" using Cons.prems Suc nth_mem [of m xs] by (auto simp del: nth_mem) (metis imageI)
    have "view (key (xs ! m)) s1 = view (key (xs ! m)) s" using other [of x s "key (xs ! m)"] neq Cons.prems s1 by auto
    then show ?thesis using Cons.IH [of s1 m] Cons.prems Suc p1 s1 s2 by auto
  qed
qed simp

end

section \<open>What a port's step may touch\<close>

definition port_queued :: "nat \<Rightarrow> 'a pwf_client_scheme \<Rightarrow> nat multiset" where
  "port_queued i f =
     mset (List.map_filter (\<lambda>c. case c of Filter_queue_buffer j b \<Rightarrow> if j = i then Some b else None | _ \<Rightarrow> None) (calls f))"

lemma port_queued_emit:
  "port_queued i (emit cs f) = port_queued i f +
     mset (List.map_filter (\<lambda>c. case c of Filter_queue_buffer j b \<Rightarrow> if j = i then Some b else None | _ \<Rightarrow> None) cs)"
  by (simp add: port_queued_def map_filter_def)

lemma port_queued_one: "port_queued i (emit [Filter_queue_buffer j b] f) = port_queued i f + (if j = i then {#b#} else {#})"
  by (simp add: port_queued_emit map_filter_simps)

lemma port_queued_frame [simp]:
  "port_queued i (map_port j u f) = port_queued i f"
  "port_queued i (fault x f) = port_queued i f"
  by (simp_all add: port_queued_def fault_def)

lemma fault_filter_frame [simp]:
  fixes f :: "'a pwf_filter_scheme"
  shows "n_ports (fault x f) = n_ports f" "get_port j (fault x f) = get_port j f" "heap (fault x f) = heap f"
    "filter_state (fault x f) = filter_state f" "process_cb (fault x f) = process_cb f" "filter_id (fault x f) = filter_id f"
  by (simp_all add: fault_def n_ports_def get_port_def)

lemma check_datas_frame [simp]:
  "n_ports (check_datas b f) = n_ports f" "get_port j (check_datas b f) = get_port j f"
  "heap (check_datas b f) = heap f" "port_queued j (check_datas b f) = port_queued j f"
  "filter_state (check_datas b f) = filter_state f" "process_cb (check_datas b f) = process_cb f"
  "filter_id (check_datas b f) = filter_id f"
  by (simp_all add: check_datas_def split: option.split)

definition port_view where
  "port_view i f = (get_port i f, port_queued i f, heap f, process_cb f, filter_id f)"

lemma port_view_emit:
  "j \<noteq> i \<Longrightarrow> port_view j (emit [Filter_queue_buffer i b] f) = port_view j f"
  by (simp add: port_view_def port_queued_one)

lemma port_view_map_port [simp]:
  "i < n_ports f \<Longrightarrow> j \<noteq> i \<Longrightarrow> port_view j (map_port i u f) = port_view j f"
  by (simp add: port_view_def get_port_map_port)

lemma port_view_check [simp]: "port_view j (check_datas b f) = port_view j f"
  by (simp add: port_view_def)

lemma n_ports_check_map [simp]: "n_ports (check_datas b (map_port i u f)) = n_ports f"
  by simp

text \<open>Every port's turn keeps the number of ports and what matters of the other ports.\<close>

definition only_port :: "nat \<Rightarrow> pwf_filter \<Rightarrow> pwf_filter \<Rightarrow> bool" where
  "only_port i f g \<longleftrightarrow>
     n_ports g = n_ports f \<and> heap g = heap f \<and> process_cb g = process_cb f \<and> filter_id g = filter_id f \<and>
     (\<forall>j. j \<noteq> i \<longrightarrow> port_view j g = port_view j f)"

lemma only_port_refl [simp]: "only_port i f f"
  by (simp add: only_port_def)

lemma only_port_trans: "only_port i f g \<Longrightarrow> only_port i g h \<Longrightarrow> only_port i f h"
  by (simp add: only_port_def)

lemma only_port_step:
  assumes "only_port i f g" and "i < n_ports f"
  shows "only_port i f (map_port i u g)" "only_port i f (check_datas b g)"
    "only_port i f (emit [Filter_queue_buffer i x] g)"
  using assms by (simp_all add: only_port_def port_view_emit)

lemma hold_new_only: "i < n_ports f \<Longrightarrow> only_port i f (snd (hold_new i c f))"
  by (auto simp: hold_new_def intro!: only_port_step split: option.split)

lemma input_source_only: "i < n_ports f \<Longrightarrow> input_source env i f = (b, c, g) \<Longrightarrow> only_port i f g"
  by (auto simp: input_source_def Let_def intro!: only_port_step split: if_splits option.splits)

lemma begin_input_only:
  assumes i: "i < n_ports f"
  shows "only_port i f (snd (begin_input env i f))"
proof -
  obtain b c g where src: "input_source env i f = (b, c, g)" by (metis prod_cases3)
  have g: "only_port i f g" "i < n_ports g"
    using input_source_only [OF i src] i by (simp_all add: only_port_def)
  let ?h = "map_port i (\<lambda>p. p\<lparr>update_seq := update_seq p + 1\<rparr>) g"
  have h: "only_port i f ?h" using g i by (intro only_port_step)
  have "only_port i f (snd (hold_new i c' ?h))" for c'
    using only_port_trans [OF h hold_new_only] g by simp
  then show ?thesis using g i h src
    by (cases b) (auto simp: begin_input_def Let_def intro!: only_port_step)
qed

lemma begin_event_only:
  assumes "i < n_ports f"
  shows "only_port i f (snd (begin_event_input env i f))" "only_port i f (snd (begin_event_output env i f))"
    "only_port i f (snd (begin_output env i f))"
  using assms
  by (auto simp: begin_event_input_def begin_event_output_def begin_output_def Let_def
      intro!: only_port_step split: option.split)

lemma begin_port_only:
  assumes i: "i < n_ports f"
  shows "only_port i f (snd (begin_port env i f))"
proof -
  let ?g = "map_port i (\<lambda>p. p\<lparr>port_dmabuf_buf := None\<rparr>) f"
  have g: "only_port i f ?g" "i < n_ports ?g" using i by (auto intro: only_port_step)
  note begin_event_only [OF g(2), of env]
  moreover note begin_input_only [OF g(2)]
  ultimately show ?thesis using only_port_trans [OF g(1)] by (simp add: begin_port_def Let_def)
qed

lemma end_port_only:
  assumes i: "i < n_ports f"
  shows "only_port i f (snd (end_port env i b buf f))"
  using i by (auto simp: end_port_def Let_def intro!: only_port_step split: option.split prod.split)

interpretation begin_pass: port_pass "begin_port env" "\<lambda>i. i" n_ports port_view for env
  by unfold_locales (use begin_port_only in \<open>auto simp: only_port_def\<close>)

interpretation end_pass: port_pass "end_step env" fst n_ports port_view for env
proof
  fix x :: "nat \<times> dequeued_buffer option \<times> pwf_filter_port_buffer" and f :: pwf_filter and j
  assume i: "fst x < n_ports f"
  note only = end_port_only [OF i, of env "fst (snd x)" "snd (snd x)"]
  show "n_ports (snd (end_step env x f)) = n_ports f"
    using only by (simp add: end_step_def only_port_def case_prod_beta)
  assume "j \<noteq> fst x"
  then show "port_view j (snd (end_step env x f)) = port_view j f"
    using only by (simp add: end_step_def only_port_def case_prod_beta)
qed

section \<open>Where the buffers go\<close>

definition one :: "nat option \<Rightarrow> nat multiset" where
  "one b = (case b of None \<Rightarrow> {#} | Some x \<Rightarrow> {#x#})"

lemma one_simps [simp]: "one None = {#}" "one (Some x) = {#x#}"
  by (simp_all add: one_def)

definition dequeued_id :: "dequeued_buffer option \<Rightarrow> nat multiset" where
  "dequeued_id b = one (map_option buf_id b)"

lemma dequeued_id_simps [simp]: "dequeued_id None = {#}" "dequeued_id (Some d) = {#buf_id d#}"
  by (simp_all add: dequeued_id_def)

text \<open>Buffers whose first data is mapped, as the event and output ports' paths expect of their pools.\<close>

definition mapped_pool :: "cycle_env \<Rightarrow> nat \<Rightarrow> pwf_filter_port \<Rightarrow> bool" where
  "mapped_pool env i p \<longleftrightarrow>
     (port_media p = PWF_DATA_EVENT \<or> port_dir p = PWF_FILTER_PORT_OUTPUT \<longrightarrow>
        (\<forall>d. ce_dequeue env i = Some d \<longrightarrow> data_present d))"

lemma input_source_facts:
  assumes "i < n_ports f" and "input_source env i f = (b, c, g)"
  shows "pc_dequeued c = pc_taken c" "port_queued j g = port_queued j f"
    "held_buf (get_port i g) = held_buf (get_port i f)"
    "update_seq (get_port i g) = update_seq (get_port i f)"
    "hold_enabled (get_port i g) = hold_enabled (get_port i f)"
    "has_held (get_port i g) = has_held (get_port i f)"
    "held_data (get_port i g) = held_data (get_port i f)"
    "held_size (get_port i g) = held_size (get_port i f)"
    "held_pts (get_port i g) = held_pts (get_port i f)"
    "held_dmabuf_buf (get_port i g) = held_dmabuf_buf (get_port i f)"
    "pb_fresh (pc_buffer c) = False" "pb_port (pc_buffer c) = i"
  using assms
  by (auto simp: input_source_def Let_def get_port_map_port swap_pushed_def empty_buffer_def
      split: if_splits option.splits)

lemma begin_input_conserves:
  assumes i: "i < n_ports f"
    and run: "begin_input env i f = (c, g)"
  shows "port_queued i g + one (held_buf (get_port i g)) + dequeued_id (pc_dequeued c) =
    port_queued i f + one (held_buf (get_port i f)) + dequeued_id (pc_taken c)"
proof -
  obtain b c0 f1 where src: "input_source env i f = (b, c0, f1)" by (metis prod_cases3)
  note facts = input_source_facts [OF i src]
  have n: "i < n_ports f1" using input_source_only [OF i src] i by (simp add: only_port_def)
  show ?thesis
  proof (cases b)
    case True
    then show ?thesis using run facts n
      by (auto simp: begin_input_def src Let_def hold_new_def get_port_map_port port_queued_one dequeued_id_def
          split: if_splits option.split)
  next
    case False
    then show ?thesis using run facts n
      by (auto simp: begin_input_def src Let_def get_port_map_port split: if_splits)
  qed
qed

lemma begin_port_conserves:
  assumes i: "i < n_ports f" and pool: "mapped_pool env i (get_port i f)"
    and run: "begin_port env i f = (c, g)"
  shows "port_queued i g + one (held_buf (get_port i g)) + dequeued_id (pc_dequeued c) =
    port_queued i f + one (held_buf (get_port i f)) + dequeued_id (pc_taken c)"
proof -
  let ?f = "map_port i (\<lambda>p. p\<lparr>port_dmabuf_buf := None\<rparr>) f"
  have n: "i < n_ports ?f" using i by simp
  have p: "port_media (get_port i ?f) = port_media (get_port i f)" "port_dir (get_port i ?f) = port_dir (get_port i f)"
    "held_buf (get_port i ?f) = held_buf (get_port i f)"
    using i by (simp_all add: get_port_map_port)
  show ?thesis
  proof (cases "port_media (get_port i f) = PWF_DATA_EVENT \<or> port_dir (get_port i f) = PWF_FILTER_PORT_OUTPUT")
    case False
    then have "begin_input env i ?f = (c, g)"
      using run p by (cases "port_dir (get_port i f)") (auto simp: begin_port_def Let_def)
    from begin_input_conserves [OF n this] show ?thesis by (simp add: p)
  next
    case True
    then have mapped: "ce_dequeue env i = Some d \<Longrightarrow> data_present d" for d using pool by (simp add: mapped_pool_def)
    show ?thesis
      using run True mapped i p
      by (cases "port_dir (get_port i f)"; cases "ce_dequeue env i")
         (auto simp: begin_port_def begin_event_input_def begin_event_output_def begin_output_def Let_def
            get_port_map_port pwf_filter_event_decode_def pwf_filter_event_take_pending_def
            pwf_filter_event_load_delivering_as_incoming_def split: if_splits option.splits)
  qed
qed

lemma end_port_conserves:
  assumes i: "i < n_ports f"
  shows "port_queued i (snd (end_port env i b buf f)) = port_queued i f + dequeued_id b"
    and "held_buf (get_port i (snd (end_port env i b buf f))) = held_buf (get_port i f)"
  using i
  by (auto simp: end_port_def Let_def port_queued_one get_port_map_port pwf_filter_event_clear_delivering_def
      pwf_filter_event_clear_pending_def pwf_filter_event_finish_output_def split: option.split prod.split)

section \<open>The whole cycle\<close>

text \<open>An application that takes no buffer of a port away, as the API gives it no way to.\<close>

definition app_keeps_buffers :: "process_callback \<Rightarrow> bool" where
  "app_keeps_buffers app \<longleftrightarrow>
     (\<forall>th bufs g bufs' g'. app th bufs g = (bufs', g') \<longrightarrow>
        length bufs' = length bufs \<and> n_ports g' = n_ports g \<and>
        (\<forall>j. port_queued j g' = port_queued j g \<and> held_buf (get_port j g') = held_buf (get_port j g)))"

text \<open>A cycle that runs is its three parts.\<close>

lemma on_process_parts:
  assumes "0 < n_ports f" and "n_ports f \<le> PWF_FILTER_STACK_PORTS \<or> ce_alloc_ok env"
    and "pwf_filter_on_process env app th f = ((cs, outs), g)"
  obtains f1 bufs f2 where
    "begin_ports env [0..<n_ports f] f = (cs, f1)"
    "(if process_cb f1 then app (th\<lparr>pwf_filter_processing := Some (filter_id f1)\<rparr>) (map pc_buffer cs) f1
      else (map pc_buffer cs, f1)) = (bufs, f2)"
    "end_ports env (zip [0..<n_ports f] (zip (map pc_dequeued cs) bufs)) f2 = (outs, g)"
  using assms by (auto simp: pwf_filter_on_process_def Let_def split: prod.splits)

text \<open>Port \<open>i\<close>'s turn in the first loop.\<close>

lemma begin_ports_turn:
  assumes run: "begin_ports env [0..<n_ports f] f = (cs, f1)" and i: "i < n_ports f"
  obtains t t' where "length cs = n_ports f" "n_ports f1 = n_ports f" "n_ports t = n_ports f"
    "port_view i t = port_view i f" "begin_port env i t = (cs ! i, t')" "port_view i f1 = port_view i t'"
proof -
  have len: "length cs = n_ports f" using run_steps_length [of "begin_port env" "[0..<n_ports f]" f]
    unfolding begin_ports_run [symmetric] run by simp
  have n: "n_ports f1 = n_ports f" using begin_pass.run_ports [of "[0..<n_ports f]" f env] run by (simp add: begin_ports_run)
  obtain t where t: "n_ports t = n_ports f" "port_view i t = port_view i f"
    "cs ! i = fst (begin_port env i t)" "port_view i f1 = port_view i (snd (begin_port env i t))"
    using begin_pass.turn [of "[0..<n_ports f]" f i env] run i by (auto simp: begin_ports_run)
  show thesis using that [of t "snd (begin_port env i t)"] len n t by simp
qed

lemma end_ports_turn:
  assumes run: "end_ports env (zip [0..<n] (zip bs bufs)) f = (outs, g)" and i: "i < n"
    and n: "n_ports f = n" and len: "length bs = n" "length bufs = n"
  obtains t where "n_ports t = n" "port_view i t = port_view i f"
    "port_view i g = port_view i (snd (end_port env i (bs ! i) (bufs ! i) t))" "n_ports g = n"
proof -
  let ?xs = "zip [0..<n] (zip bs bufs)"
  have xs: "length ?xs = n" "?xs ! i = (i, bs ! i, bufs ! i)" "map fst ?xs = [0..<n]"
    using i len by simp_all
  have bound: "\<forall>x\<in>set ?xs. fst x < n_ports f" using n by (auto dest: set_zip_leftD)
  have g: "g = snd (run_steps (end_step env) ?xs f)" using run by (simp add: end_ports_run)
  obtain t where t: "n_ports t = n" "port_view i t = port_view i f"
    "port_view i g = port_view i (snd (end_step env (i, bs ! i, bufs ! i) t))"
    using end_pass.turn [OF bound, of i env] xs i n len unfolding g by auto
  moreover have "n_ports g = n" using end_pass.run_ports [OF bound, of env] n g by simp
  ultimately show thesis using that [of t] by (simp add: end_step_def)
qed

lemma cycle_conserves:
  assumes room: "n_ports f \<le> PWF_FILTER_STACK_PORTS \<or> ce_alloc_ok env"
    and i: "i < n_ports f" and pool: "mapped_pool env i (get_port i f)" and app: "app_keeps_buffers app"
    and run: "pwf_filter_on_process env app th f = ((cs, outs), g)"
  shows "port_queued i g + one (held_buf (get_port i g)) =
    port_queued i f + one (held_buf (get_port i f)) + dequeued_id (pc_taken (cs ! i))"
proof -
  have pos: "0 < n_ports f" using i by simp
  obtain f1 bufs f2 where b: "begin_ports env [0..<n_ports f] f = (cs, f1)"
    and a: "(if process_cb f1 then app (th\<lparr>pwf_filter_processing := Some (filter_id f1)\<rparr>) (map pc_buffer cs) f1
      else (map pc_buffer cs, f1)) = (bufs, f2)"
    and e: "end_ports env (zip [0..<n_ports f] (zip (map pc_dequeued cs) bufs)) f2 = (outs, g)"
    by (rule on_process_parts [OF pos room run])
  obtain t t' where t: "length cs = n_ports f" "n_ports f1 = n_ports f" "n_ports t = n_ports f"
    "port_view i t = port_view i f" "begin_port env i t = (cs ! i, t')" "port_view i f1 = port_view i t'"
    by (rule begin_ports_turn [OF b i])
  have kept: "length bufs = n_ports f" "n_ports f2 = n_ports f" "port_queued i f2 = port_queued i f1"
    "held_buf (get_port i f2) = held_buf (get_port i f1)"
    using a app t unfolding app_keeps_buffers_def by (auto split: if_splits)
  obtain u where u: "n_ports u = n_ports f" "port_view i u = port_view i f2"
    "port_view i g = port_view i (snd (end_port env i (map pc_dequeued cs ! i) (bufs ! i) u))"
    by (rule end_ports_turn [OF e i kept(2)]) (simp_all add: t kept)
  have start: "get_port i t = get_port i f" "port_queued i t = port_queued i f" using t by (simp_all add: port_view_def)
  have mid: "get_port i f1 = get_port i t'" "port_queued i f1 = port_queued i t'" using t by (simp_all add: port_view_def)
  have turn: "get_port i u = get_port i f2" "port_queued i u = port_queued i f2" using u by (simp_all add: port_view_def)
  have begun: "port_queued i t' + one (held_buf (get_port i t')) + dequeued_id (pc_dequeued (cs ! i)) =
    port_queued i f + one (held_buf (get_port i f)) + dequeued_id (pc_taken (cs ! i))"
    using begin_port_conserves [OF _ _ t(5)] i pool t(3) start by simp
  have "port_queued i g = port_queued i u + dequeued_id (pc_dequeued (cs ! i))"
    "held_buf (get_port i g) = held_buf (get_port i u)"
    using end_port_conserves [of i u env "pc_dequeued (cs ! i)" "bufs ! i"] u t(1) i by (simp_all add: port_view_def)
  then have "port_queued i g + one (held_buf (get_port i g)) =
      port_queued i t' + one (held_buf (get_port i t')) + dequeued_id (pc_dequeued (cs ! i))"
    using kept mid turn by simp
  with begun show ?thesis by simp
qed

section \<open>The cycle and the blocks\<close>

definition same_or_swapped :: "pwf_filter_port \<Rightarrow> pwf_filter_port \<Rightarrow> bool" where
  "same_or_swapped p q \<longleftrightarrow>
     (pushed_data q = pushed_data p \<and> pushed_capacity q = pushed_capacity p \<and>
      delivered_data q = delivered_data p \<and> delivered_capacity q = delivered_capacity p) \<or>
     (pushed_data q = delivered_data p \<and> pushed_capacity q = delivered_capacity p \<and>
      delivered_data q = pushed_data p \<and> delivered_capacity q = pushed_capacity p)"

lemma swapped_blocks:
  assumes "same_or_swapped (get_port i f) (get_port i g)"
  shows "\<exists>swap. \<forall>s. block g i s = block f i (s \<noteq> swap) \<and> block_size g i s = block_size f i (s \<noteq> swap)"
  using assms unfolding same_or_swapped_def
proof
  assume "pushed_data (get_port i g) = pushed_data (get_port i f) \<and>
    pushed_capacity (get_port i g) = pushed_capacity (get_port i f) \<and>
    delivered_data (get_port i g) = delivered_data (get_port i f) \<and>
    delivered_capacity (get_port i g) = delivered_capacity (get_port i f)"
  then show ?thesis by (intro exI [of _ False]) (simp add: block_def block_size_def)
next
  assume "pushed_data (get_port i g) = delivered_data (get_port i f) \<and>
    pushed_capacity (get_port i g) = delivered_capacity (get_port i f) \<and>
    delivered_data (get_port i g) = pushed_data (get_port i f) \<and>
    delivered_capacity (get_port i g) = pushed_capacity (get_port i f)"
  then show ?thesis by (intro exI [of _ True]) (simp add: block_def block_size_def)
qed

text \<open>Ports that swap their blocks, and nothing else of the heap, keep the discipline.\<close>

lemma swaps_heap_ok:
  assumes ok: "heap_ok f" and n: "n_ports g = n_ports f" and h: "heap g = heap f"
    and ports: "\<And>i. i < n_ports f \<Longrightarrow> same_or_swapped (get_port i f) (get_port i g) \<and> port_mem_ok (get_port i g)"
  shows "heap_ok g"
proof -
  have "\<forall>i. \<exists>sw. i < n_ports f \<longrightarrow>
      (\<forall>s. block g i s = block f i (s \<noteq> sw) \<and> block_size g i s = block_size f i (s \<noteq> sw))"
    using swapped_blocks ports by blast
  then obtain sw where b: "\<And>i s. i < n_ports f \<Longrightarrow> block g i s = block f i (s \<noteq> sw i)"
    "\<And>i s. i < n_ports f \<Longrightarrow> block_size g i s = block_size f i (s \<noteq> sw i)"
    by metis
  have fok: "blocks_ok f" "blocks_unique f" "no_leak f" using ok by (simp_all add: heap_ok_def)
  have "blocks_ok g" using fok(1) b by (simp add: blocks_ok_def n h cong: option.case_cong)
  moreover have "blocks_unique g" unfolding blocks_unique_def n
  proof (intro allI impI)
    fix i j s t a
    assume "i < n_ports f" "j < n_ports f" "block g i s = Some a" "block g j t = Some a"
    then have "i = j \<and> (s \<noteq> sw i) = (t \<noteq> sw j)" using blocks_uniqueD [OF fok(2)] b by simp
    then show "i = j \<and> s = t" by auto
  qed
  moreover have "no_leak g" unfolding no_leak_def n h
  proof (intro allI impI)
    fix a assume "heap f a \<noteq> None"
    then obtain i s where i: "i < n_ports f" "block f i s = Some a" using fok(3) unfolding no_leak_def by blast
    then have "block g i (s \<noteq> sw i) = Some a" using b by (cases s; cases "sw i") simp_all
    then show "\<exists>i<n_ports f. \<exists>s. block g i s = Some a" using i by blast
  qed
  ultimately show ?thesis using ports by (simp add: heap_ok_def n)
qed

lemma input_source_memory:
  assumes i: "i < n_ports f" and ok: "port_mem_ok (get_port i f)" and run: "input_source env i f = (b, c, g)"
  shows "same_or_swapped (get_port i f) (get_port i g)"
    and "\<not> b \<Longrightarrow> mem_fields (get_port i g) = mem_fields (get_port i f)"
    and "pb_data (pc_buffer c) = Some (Heap a) \<Longrightarrow>
           delivered_data (get_port i g) = Some a \<and> pb_size (pc_buffer c) \<le> delivered_capacity (get_port i g)"
    and "b \<Longrightarrow> pushed_pending (get_port i g) \<Longrightarrow> pushed_size (get_port i g) \<le> pushed_capacity (get_port i g)"
  using i ok run
  by (auto simp: input_source_def Let_def get_port_map_port swap_pushed_def same_or_swapped_def empty_buffer_def
      mem_fields_def port_mem_ok_def split: if_splits option.splits)

lemma begin_input_memory:
  assumes i: "i < n_ports f" and ok: "port_mem_ok (get_port i f)" and run: "begin_input env i f = (c, g)"
  shows "same_or_swapped (get_port i f) (get_port i g) \<and> port_mem_ok (get_port i g)"
proof -
  obtain b c0 f1 where src: "input_source env i f = (b, c0, f1)" by (metis prod_cases3)
  note facts = input_source_facts [OF i src] and mem = input_source_memory [OF i ok src]
  have n: "i < n_ports f1" using input_source_only [OF i src] i by (simp add: only_port_def)
  show ?thesis
  proof (cases b)
    case True
    show ?thesis
    proof (cases "hold_enabled (get_port i f)")
      case True
      then show ?thesis using run \<open>b\<close> facts mem n
        by (auto simp: begin_input_def src Let_def hold_new_def get_port_map_port same_or_swapped_def
            port_mem_ok_def hold_in_block_def split: option.splits)
    next
      case False
      then have "\<not> has_held (get_port i f)" using ok by (simp add: port_mem_ok_def)
      then show ?thesis using run \<open>b\<close> False facts mem n
        by (auto simp: begin_input_def src Let_def get_port_map_port same_or_swapped_def
            port_mem_ok_def hold_in_block_def)
    qed
  next
    case False
    then have "mem_fields (get_port i g) = mem_fields (get_port i f)"
      using run mem(2) n by (auto simp: begin_input_def src Let_def get_port_map_port mem_fields_def split: if_splits)
    then show ?thesis using ok port_mem_ok_fields [of "get_port i g" "get_port i f"]
      by (simp add: same_or_swapped_def mem_fields_def)
  qed
qed

lemma begin_port_memory:
  assumes i: "i < n_ports f" and ok: "port_mem_ok (get_port i f)" and run: "begin_port env i f = (c, g)"
  shows "same_or_swapped (get_port i f) (get_port i g) \<and> port_mem_ok (get_port i g)"
proof -
  let ?f = "map_port i (\<lambda>p. p\<lparr>port_dmabuf_buf := None\<rparr>) f"
  have n: "i < n_ports ?f" using i by simp
  have p: "mem_fields (get_port i ?f) = mem_fields (get_port i f)" "port_media (get_port i ?f) = port_media (get_port i f)"
    "port_dir (get_port i ?f) = port_dir (get_port i f)"
    using i by (simp_all add: get_port_map_port mem_fields_def)
  have ok': "port_mem_ok (get_port i ?f)" using port_mem_ok_fields p ok by blast
  show ?thesis
  proof (cases "port_media (get_port i f) = PWF_DATA_EVENT \<or> port_dir (get_port i f) = PWF_FILTER_PORT_OUTPUT")
    case False
    then have "begin_input env i ?f = (c, g)"
      using run p by (cases "port_dir (get_port i f)") (auto simp: begin_port_def Let_def)
    from begin_input_memory [OF n ok' this] show ?thesis using p(1) by (simp add: same_or_swapped_def mem_fields_def)
  next
    case True
    then have "mem_fields (get_port i g) = mem_fields (get_port i f)"
      using run i p
      by (cases "port_dir (get_port i f)"; cases "ce_dequeue env i")
         (auto simp: begin_port_def begin_event_input_def begin_event_output_def begin_output_def Let_def mem_fields_def
            get_port_map_port pwf_filter_event_decode_def pwf_filter_event_take_pending_def
            pwf_filter_event_load_delivering_as_incoming_def split: if_splits option.splits)
    then show ?thesis using ok port_mem_ok_fields [of "get_port i g" "get_port i f"]
      by (simp add: same_or_swapped_def mem_fields_def)
  qed
qed

lemma end_port_memory:
  "i < n_ports f \<Longrightarrow> mem_fields (get_port i (snd (end_port env i b buf f))) = mem_fields (get_port i f)"
  by (auto simp: end_port_def Let_def get_port_map_port pwf_filter_event_clear_delivering_def mem_fields_def
      pwf_filter_event_clear_pending_def pwf_filter_event_finish_output_def split: option.split prod.split)

end
