(* ===== verification/Pwf_Filter_Delivery.thy ===== *)
theory Pwf_Filter_Delivery
  imports Pwf_Filter_Cycle
begin

text \<open>
  What a cycle hands to the callback: the discipline of the blocks over a whole cycle, a push that is
  delivered, the sequence numbers, and what a hold presents while nothing new arrives.
\<close>

section \<open>The blocks over a cycle\<close>

lemma begin_ports_heap_ok:
  assumes run: "begin_ports env [0..<n_ports f] f = (cs, f1)" and ok: "heap_ok f"
  shows "heap_ok f1" "n_ports f1 = n_ports f" "heap f1 = heap f"
proof -
  show n: "n_ports f1 = n_ports f"
    using begin_pass.run_ports [of "[0..<n_ports f]" f env] run by (simp add: begin_ports_run)
  show h: "heap f1 = heap f"
  proof (cases "n_ports f")
    case 0
    then show ?thesis using run by simp
  next
    case (Suc m)
    obtain t t' where t: "n_ports t = n_ports f" "port_view 0 t = port_view 0 f"
      "begin_port env 0 t = (cs ! 0, t')" "port_view 0 f1 = port_view 0 t'"
      using begin_ports_turn [OF run, of 0] Suc by (metis zero_less_Suc)
    have "heap t' = heap t" using begin_port_only [of 0 t env] t Suc by (simp add: only_port_def)
    then show ?thesis using t by (simp add: port_view_def)
  qed
  show "heap_ok f1"
  proof (rule swaps_heap_ok [OF ok n h])
    fix i assume i: "i < n_ports f"
    obtain t t' where t: "n_ports t = n_ports f" "port_view i t = port_view i f"
      "begin_port env i t = (cs ! i, t')" "port_view i f1 = port_view i t'"
      using begin_ports_turn [OF run i] by metis
    have "port_mem_ok (get_port i t)" using ok i t by (simp add: heap_ok_def port_view_def)
    then have "same_or_swapped (get_port i t) (get_port i t') \<and> port_mem_ok (get_port i t')"
      using begin_port_memory [of i t env] t i by simp
    then show "same_or_swapped (get_port i f) (get_port i f1) \<and> port_mem_ok (get_port i f1)"
      using t by (simp add: port_view_def)
  qed
qed

lemma end_ports_heap_ok:
  assumes run: "end_ports env (zip [0..<n_ports f] (zip bs bufs)) f = (outs, g)"
    and len: "length bs = n_ports f" "length bufs = n_ports f" and ok: "heap_ok f"
  shows "heap_ok g"
proof (rule same_memory_ok [OF _ ok])
  have turn: "\<exists>t. n_ports t = n_ports f \<and> port_view i t = port_view i f \<and>
      port_view i g = port_view i (snd (end_port env i (bs ! i) (bufs ! i) t)) \<and> n_ports g = n_ports f"
    if "i < n_ports f" for i
    using end_ports_turn [OF run that refl len] by metis
  have "n_ports g = n_ports f \<and> heap g = heap f"
  proof (cases "n_ports f")
    case 0
    then show ?thesis using run by simp
  next
    case (Suc m)
    then obtain t where t: "n_ports t = n_ports f" "port_view 0 t = port_view 0 f"
      "port_view 0 g = port_view 0 (snd (end_port env 0 (bs ! 0) (bufs ! 0) t))" "n_ports g = n_ports f"
      using turn [of 0] by auto
    then show ?thesis using end_port_only [of 0 t env "bs ! 0" "bufs ! 0"] Suc by (simp add: only_port_def port_view_def)
  qed
  moreover have "mem_fields (get_port i g) = mem_fields (get_port i f)" if i: "i < n_ports f" for i
  proof -
    obtain t where t: "n_ports t = n_ports f" "port_view i t = port_view i f"
      "port_view i g = port_view i (snd (end_port env i (bs ! i) (bufs ! i) t))" using turn [OF i] by auto
    then show ?thesis using end_port_memory [of i t env "bs ! i" "bufs ! i"] i by (simp add: port_view_def)
  qed
  ultimately show "same_memory f g" by (simp add: same_memory_def)
qed

text \<open>An application that keeps the discipline and the buffer list's length.\<close>

definition app_keeps_blocks :: "process_callback \<Rightarrow> bool" where
  "app_keeps_blocks app \<longleftrightarrow>
     (\<forall>th bufs g bufs' g'. app th bufs g = (bufs', g') \<longrightarrow> heap_ok g \<longrightarrow>
        heap_ok g' \<and> length bufs' = length bufs \<and> n_ports g' = n_ports g)"

lemma on_process_heap_ok:
  assumes ok: "heap_ok f" and app: "app_keeps_blocks app"
    and run: "pwf_filter_on_process env app th f = ((cs, outs), g)"
  shows "heap_ok g"
proof (cases "n_ports f = 0 \<or> n_ports f > PWF_FILTER_STACK_PORTS \<and> \<not> ce_alloc_ok env")
  case True
  then show ?thesis using run ok by (auto simp: pwf_filter_on_process_def)
next
  case False
  then have room: "0 < n_ports f" "n_ports f \<le> PWF_FILTER_STACK_PORTS \<or> ce_alloc_ok env" by auto
  obtain f1 bufs f2 where b: "begin_ports env [0..<n_ports f] f = (cs, f1)"
    and a: "(if process_cb f1 then app (th\<lparr>pwf_filter_processing := Some (filter_id f1)\<rparr>) (map pc_buffer cs) f1
      else (map pc_buffer cs, f1)) = (bufs, f2)"
    and e: "end_ports env (zip [0..<n_ports f] (zip (map pc_dequeued cs) bufs)) f2 = (outs, g)"
    by (rule on_process_parts [OF room run])
  note f1 = begin_ports_heap_ok [OF b ok]
  have "length cs = n_ports f"
    using begin_ports_turn [OF b, of 0] room by metis
  then have "heap_ok f2 \<and> length bufs = n_ports f \<and> n_ports f2 = n_ports f"
    using a app f1 unfolding app_keeps_blocks_def by (auto split: if_splits)
  then show ?thesis using e end_ports_heap_ok [of env f2 "map pc_dequeued cs" bufs outs g] \<open>length cs = n_ports f\<close> by simp
qed

section \<open>What the callback gets\<close>

text \<open>A port whose cycle goes through \<open>begin_input\<close>.\<close>

definition data_input :: "pwf_filter_port \<Rightarrow> bool" where
  "data_input p \<longleftrightarrow> port_media p \<noteq> PWF_DATA_EVENT \<and> port_dir p = PWF_FILTER_PORT_INPUT"

lemma begin_port_input:
  "data_input (get_port i f) \<Longrightarrow> i < n_ports f \<Longrightarrow>
     begin_port env i f = begin_input env i (map_port i (\<lambda>p. p\<lparr>port_dmabuf_buf := None\<rparr>) f)"
  by (simp add: begin_port_def data_input_def Let_def get_port_map_port)

text \<open>The sequence number counts the cycles with something new.\<close>

lemma begin_input_seq:
  assumes i: "i < n_ports f" and run: "begin_input env i f = (c, g)"
  shows "pb_seq (pc_buffer c) = update_seq (get_port i g)"
    and "update_seq (get_port i g) = update_seq (get_port i f) + (if pb_fresh (pc_buffer c) then 1 else 0)"
proof -
  obtain b c0 f1 where src: "input_source env i f = (b, c0, f1)" by (metis prod_cases3)
  note facts = input_source_facts [OF i src]
  have n: "i < n_ports f1" using input_source_only [OF i src] i by (simp add: only_port_def)
  show "pb_seq (pc_buffer c) = update_seq (get_port i g)"
    "update_seq (get_port i g) = update_seq (get_port i f) + (if pb_fresh (pc_buffer c) then 1 else 0)"
    using run facts n
    by (cases b; auto simp: begin_input_def src Let_def hold_new_def get_port_map_port split: if_splits option.splits)+
qed

text \<open>A staged push is this cycle's data, and the data thread owns its block from here on.\<close>

lemma begin_input_pushed:
  assumes i: "i < n_ports f" and "ce_staged env" and "pushed_pending (get_port i f)"
    and run: "begin_input env i f = (c, g)"
  shows "pb_data (pc_buffer c) = map_option Heap (pushed_data (get_port i f))"
    "pb_size (pc_buffer c) = pushed_size (get_port i f)" "pb_pts (pc_buffer c) = pushed_pts (get_port i f)"
    "pb_fresh (pc_buffer c)" "delivered_data (get_port i g) = pushed_data (get_port i f)"
    "\<not> pushed_pending (get_port i g)"
  using assms
  by (auto simp: begin_input_def input_source_def Let_def hold_new_def get_port_map_port swap_pushed_def empty_buffer_def
      split: if_splits option.splits)

text \<open>A held port remembers what it was given and presents it again.\<close>

definition shows_hold :: "pwf_filter_port_buffer \<Rightarrow> pwf_filter_port \<Rightarrow> bool" where
  "shows_hold buf p \<longleftrightarrow>
     pb_data buf = held_data p \<and> pb_size buf = held_size p \<and> pb_pts buf = held_pts p \<and> pb_seq buf = update_seq p"

lemma begin_input_fresh_held:
  assumes i: "i < n_ports f" and h: "hold_enabled (get_port i f)"
    and run: "begin_input env i f = (c, g)" and fresh: "pb_fresh (pc_buffer c)"
  shows "shows_hold (pc_buffer c) (get_port i g)" "has_held (get_port i g)" "hold_enabled (get_port i g)"
    "pb_capacity (pc_buffer c) = 0" "pb_port (pc_buffer c) = i"
proof -
  obtain b c0 f1 where src: "input_source env i f = (b, c0, f1)" by (metis prod_cases3)
  note facts = input_source_facts [OF i src]
  have n: "i < n_ports f1" using input_source_only [OF i src] i by (simp add: only_port_def)
  have cap: "pb_capacity (pc_buffer c0) = 0"
    using src by (auto simp: input_source_def Let_def empty_buffer_def split: if_splits option.splits)
  have b: b
  proof (rule ccontr)
    assume "\<not> b"
    then show False using run facts(11) fresh by (auto simp: begin_input_def src Let_def split: if_splits)
  qed
  then show "shows_hold (pc_buffer c) (get_port i g)" "has_held (get_port i g)" "hold_enabled (get_port i g)"
    "pb_capacity (pc_buffer c) = 0" "pb_port (pc_buffer c) = i"
    using run facts n h cap
    by (auto simp: begin_input_def src Let_def hold_new_def get_port_map_port shows_hold_def split: option.splits)
qed

definition nothing_new :: "cycle_env \<Rightarrow> nat \<Rightarrow> pwf_filter_port \<Rightarrow> bool" where
  "nothing_new env i p \<longleftrightarrow> \<not> (ce_staged env \<and> pushed_pending p) \<and> ce_dequeue env i = None"

lemma begin_input_hold:
  assumes i: "i < n_ports f" and h: "hold_enabled (get_port i f)" "has_held (get_port i f)"
    and "nothing_new env i (get_port i f)" and run: "begin_input env i f = (c, g)"
  shows "shows_hold (pc_buffer c) (get_port i f)" "\<not> pb_fresh (pc_buffer c)" "pb_capacity (pc_buffer c) = 0"
    "pb_port (pc_buffer c) = i"
  using assms
  by (auto simp: begin_input_def input_source_def Let_def nothing_new_def shows_hold_def empty_buffer_def)

end
