(* ===== verification/Pwf_Filter_Lifetime.thy ===== *)
theory Pwf_Filter_Lifetime
  imports Pwf_Filter_Delivery
begin

text \<open>
  Filters over time: what events, stopping, adding ports, pushing and destroying do to the ports'
  blocks, held buffers and the loop lock.
\<close>

section \<open>Events and waits\<close>

lemma emit_nothing [simp]: "emit [] c = c"
  by (simp add: emit_def)

lemma claim_queued:
  "pwf_filter_claim_source_loss i f = (b, g) \<Longrightarrow> port_queued k g = port_queued k f"
  by (auto simp: pwf_filter_claim_source_loss_def split: if_splits)

lemma port_queued_other:
  "\<forall>c\<in>set cs. \<forall>j b. c \<noteq> Filter_queue_buffer j b \<Longrightarrow> port_queued k (emit cs f) = port_queued k f"
proof -
  assume "\<forall>c\<in>set cs. \<forall>j b. c \<noteq> Filter_queue_buffer j b"
  then have "List.map_filter (\<lambda>c. case c of Filter_queue_buffer j b \<Rightarrow> if j = k then Some b else None | _ \<Rightarrow> None) cs = []"
    by (induction cs) (auto simp: map_filter_simps split: pw_call.split)
  then show ?thesis by (simp add: port_queued_emit)
qed

lemma port_queued_one_other [simp]:
  "(\<forall>j b. c \<noteq> Filter_queue_buffer j b) \<Longrightarrow> port_queued k (emit [c] f) = port_queued k f"
  "(\<forall>j b. c \<noteq> Filter_queue_buffer j b) \<Longrightarrow> (\<forall>j b. d \<noteq> Filter_queue_buffer j b) \<Longrightarrow>
     port_queued k (emit [c, d] f) = port_queued k f"
  by (simp_all add: port_queued_other)

lemma port_queued_update [simp]:
  "port_queued k (f\<lparr>conn := x\<rparr>) = port_queued k f" "port_queued k (f\<lparr>registry := r\<rparr>) = port_queued k f"
  "port_queued k (g\<lparr>filter_drained := d\<rparr>) = port_queued k g" "port_queued k (g\<lparr>filter_state := st\<rparr>) = port_queued k g"
  "port_queued k (g\<lparr>pw_filter := p\<rparr>) = port_queued k g" "port_queued k (g\<lparr>heap := h\<rparr>) = port_queued k g"
  by (simp_all add: port_queued_def)

lemma filter_dispatch_queued: "port_queued k (filter_dispatch e f) = port_queued k f"
proof (cases e)
  case (FEv_param_changed port prm param)
  have "port_queued k (pwf_filter_on_param_changed port prm param f) = port_queued k f"
  proof (cases port)
    case None
    then show ?thesis by (simp add: pwf_filter_on_param_changed_def)
  next
    case (Some i)
    obtain b g where c: "pwf_filter_claim_source_loss i f = (b, g)" by fastforce
    then show ?thesis using Some claim_queued [OF c, of k]
      by (cases b) (auto simp: pwf_filter_on_param_changed_def filter_callback_defs Let_def
          split: option.split port_config.split prod.split)
  qed
  then show ?thesis using FEv_param_changed by simp
next
  case (FEv_link_info i ch st)
  let ?down = "map_port i (\<lambda>p. p\<lparr>link_state_seen_active := False, link_lost := True\<rparr>) f"
  obtain b g where c: "pwf_filter_claim_source_loss i ?down = (b, g)" by fastforce
  have "port_queued k (pwf_filter_link_on_info i ch st f) = port_queued k f"
    using c claim_queued [OF c, of k]
    by (cases b) (auto simp: pwf_filter_link_on_info_def call_filter_error_cb_def Let_def)
  then show ?thesis using FEv_link_info by simp
qed (simp_all add: pwf_filter_on_drained_def)

text \<open>What the loop thread leaves alone: the blocks and who holds which buffer.\<close>

definition same_buffers :: "pwf_filter \<Rightarrow> pwf_filter \<Rightarrow> bool" where
  "same_buffers f g \<longleftrightarrow> same_filter f g \<and> (\<forall>k. port_queued k g = port_queued k f)"

interpretation buffers_loop: loop_client filter_dispatch "same_buffers f" for f
  by unfold_locales
     (use filter_dispatch_queued filter_dispatch_keeps same_filter_trans in \<open>auto simp: same_buffers_def\<close>)

lemma same_filter_held_buf:
  assumes "same_filter f g" and "i < n_ports f"
  shows "held_buf (get_port i g) = held_buf (get_port i f)"
proof -
  have "held_buf (port_core (get_port i g)) = held_buf (port_core (get_port i f))"
    using assms by (simp add: same_filter_def)
  then show ?thesis by (simp add: port_core_def)
qed

section \<open>Loops over the ports\<close>

lemma fold_ports:
  assumes step: "\<And>i g. i < n_ports g \<Longrightarrow> P g \<Longrightarrow> P (step i g) \<and> n_ports (step i g) = n_ports g"
  shows "P f \<Longrightarrow> \<forall>i\<in>set is. i < n_ports f \<Longrightarrow> P (fold step is f) \<and> n_ports (fold step is f) = n_ports f"
proof (induction "is" arbitrary: f)
  case (Cons i "is")
  then show ?case using step [of i f] by simp
qed simp

lemma reset_hold_only: "i < n_ports f \<Longrightarrow> only_port i f (reset_hold i f)"
  by (auto simp: reset_hold_def intro!: only_port_step split: option.split)

lemma reset_hold_port:
  assumes "i < n_ports f"
  shows "held_buf (get_port i (reset_hold i f)) = None" "\<not> has_held (get_port i (reset_hold i f))"
    "port_queued i (reset_hold i f) = port_queued i f + one (held_buf (get_port i f))"
  using assms by (auto simp: reset_hold_def get_port_map_port port_queued_one split: option.split)

lemma reset_hold_heap_ok:
  assumes "i < n_ports f" and "heap_ok f"
  shows "heap_ok (reset_hold i f)"
proof -
  have eq: "reset_hold i f = map_port i (\<lambda>p. p\<lparr>held_buf := None, has_held := False, held_data := None,
        held_dmabuf_buf := None, port_dmabuf_buf := None\<rparr>)
      (emit (case held_buf (get_port i f) of None \<Rightarrow> [] | Some b \<Rightarrow> [Filter_queue_buffer i b]) f)"
    using assms(1)
    by (auto simp: reset_hold_def map_port_compose comp_def intro!: map_port_cong split: option.split)
  have "port_mem_ok (get_port i f)" using assms by (simp add: heap_ok_def)
  then show ?thesis unfolding eq using assms
    by (intro map_port_heap_ok) (auto simp: port_mem_ok_def hold_in_block_def)
qed

lemma reset_hold_frame:
  assumes "i < n_ports f"
  shows "faults (reset_hold i f) = faults f" "held (reset_hold i f) = held f" "loop (conn (reset_hold i f)) = loop (conn f)"
    "filter_id (reset_hold i f) = filter_id f" "registry (reset_hold i f) = registry f"
  by (auto simp: reset_hold_def split: option.split)

interpretation reset_pass: port_pass "\<lambda>i f. ((), reset_hold i f)" "\<lambda>i. i" n_ports port_view
  by unfold_locales (use reset_hold_only in \<open>auto simp: only_port_def\<close>)

lemma release_frame:
  assumes "i < n_ports f"
  shows "n_ports (pwf_filter_port_link_release i f) = n_ports f" "faults (pwf_filter_port_link_release i f) = faults f"
    "held (pwf_filter_port_link_release i f) = held f" "heap (pwf_filter_port_link_release i f) = heap f"
    "mem_fields (get_port j (pwf_filter_port_link_release i f)) = mem_fields (get_port j f)"
    "held_buf (get_port j (pwf_filter_port_link_release i f)) = held_buf (get_port j f)"
    "port_queued j (pwf_filter_port_link_release i f) = port_queued j f"
    "conn (pwf_filter_port_link_release i f) = conn f" "registry (pwf_filter_port_link_release i f) = registry f"
    "filter_id (pwf_filter_port_link_release i f) = filter_id f"
  using assms
  by (auto simp: pwf_filter_port_link_release_def get_port_map_port mem_fields_def split: option.split)

text \<open>Releasing links touches neither blocks nor buffers, and leaves no proxy.\<close>

definition same_holdings :: "pwf_filter \<Rightarrow> pwf_filter \<Rightarrow> bool" where
  "same_holdings f g \<longleftrightarrow>
     same_memory f g \<and> faults g = faults f \<and> held g = held f \<and> conn g = conn f \<and> registry g = registry f \<and>
     filter_id g = filter_id f \<and>
     (\<forall>j. held_buf (get_port j g) = held_buf (get_port j f) \<and> port_queued j g = port_queued j f)"

lemma same_holdings_refl [simp]: "same_holdings f f"
  by (simp add: same_holdings_def same_memory_def)

lemma release_all_holdings: "same_holdings f (pwf_filter_release_all_links f)"
proof (cases "loop (conn f) = None")
  case True
  then show ?thesis by (simp add: pwf_filter_release_all_links_def)
next
  case False
  let ?f = "emit [Loop_lock] f"
  have "same_holdings ?f (fold pwf_filter_port_link_release [0..<n_ports f] ?f) \<and>
      n_ports (fold pwf_filter_port_link_release [0..<n_ports f] ?f) = n_ports ?f"
    by (rule fold_ports)
       (simp_all add: same_holdings_def same_memory_def release_frame)
  then show ?thesis using False
    by (simp add: pwf_filter_release_all_links_def same_holdings_def same_memory_def)
qed

section \<open>Stopping\<close>

lemma same_filter_faults: "same_filter f g \<Longrightarrow> faults g = faults f" "same_filter f g \<Longrightarrow> n_ports g = n_ports f"
  "same_filter f g \<Longrightarrow> filter_state g = filter_state f"
  by (simp_all add: same_filter_def)

text \<open>The part of a stop before the links are released.\<close>

definition hold_reset :: "pwf_filter \<Rightarrow> pwf_filter" where
  "hold_reset f = fold reset_hold [0..<n_ports f] f"

lemma hold_reset_spec:
  assumes "heap_ok f"
  shows "heap_ok (hold_reset f)" "n_ports (hold_reset f) = n_ports f" "faults (hold_reset f) = faults f"
    "held (hold_reset f) = held f"
    "i < n_ports f \<Longrightarrow> held_buf (get_port i (hold_reset f)) = None \<and> \<not> has_held (get_port i (hold_reset f)) \<and>
       port_queued i (hold_reset f) = port_queued i f + one (held_buf (get_port i f))"
proof -
  let ?P = "\<lambda>g. heap_ok g \<and> faults g = faults f \<and> held g = held f"
  have "?P (hold_reset f) \<and> n_ports (hold_reset f) = n_ports f"
    unfolding hold_reset_def
    by (rule fold_ports [where P = ?P])
       (use assms reset_hold_heap_ok reset_hold_frame reset_hold_only in \<open>auto simp: only_port_def\<close>)
  then show "heap_ok (hold_reset f)" "n_ports (hold_reset f) = n_ports f" "faults (hold_reset f) = faults f"
    "held (hold_reset f) = held f" by simp_all
  assume i: "i < n_ports f"
  have "hold_reset f = snd (run_steps (\<lambda>i f. ((), reset_hold i f)) [0..<n_ports f] f)"
    unfolding hold_reset_def fold_run ..
  then obtain t where t: "n_ports t = n_ports f" "port_view i t = port_view i f"
    "port_view i (hold_reset f) = port_view i (reset_hold i t)"
    using reset_pass.turn [of "[0..<n_ports f]" f i] i by auto
  then show "held_buf (get_port i (hold_reset f)) = None \<and> \<not> has_held (get_port i (hold_reset f)) \<and>
       port_queued i (hold_reset f) = port_queued i f + one (held_buf (get_port i f))"
    using reset_hold_port [of i t] i by (simp add: port_view_def)
qed

text \<open>The filter when the draining wait of a stop is over.\<close>

definition drained_filter :: "filter_event schedule \<Rightarrow> bool \<Rightarrow> pwf_filter \<Rightarrow> pwf_filter" where
  "drained_filter sched drain f =
     (if drain
      then (case loop_wait filter_drained filter_dispatch (fst sched) (snd sched)
                   (emit [Filter_flush (pw_filter f)] ((emit [Loop_lock] f)\<lparr>filter_drained := False\<rparr>)) of
              (True, t) \<Rightarrow> t | (False, t) \<Rightarrow> emit [Log PWF_LOG_WARNING] t)
      else emit [Loop_lock] f)"

lemma drained_filter_buffers:
  "same_filter f (drained_filter sched drain f)" "port_queued k (drained_filter sched drain f) = port_queued k f"
  "held (drained_filter sched drain f) = held f + 1"
  "loop (conn (drained_filter sched drain f)) = loop (conn f)" "bound (registry (drained_filter sched drain f)) = bound (registry f)"
proof -
  let ?u = "emit [Filter_flush (pw_filter f)] ((emit [Loop_lock] f)\<lparr>filter_drained := False\<rparr>)"
  obtain b t where w: "loop_wait filter_drained filter_dispatch (fst sched) (snd sched) ?u = (b, t)" by fastforce
  have u: "same_buffers f ?u" by (simp add: same_buffers_def same_filter_def n_ports_def get_port_def)
  then have t: "same_buffers f t" using buffers_loop.wait_inv_pair [OF _ w, of f] by simp
  have c: "same_client ?u t" by (rule filter_loop.same.wait_inv_pair [OF _ w]) simp
  have lock: "same_buffers f (emit [Loop_lock] f)" by (simp add: same_buffers_def same_filter_emit)
  show "same_filter f (drained_filter sched drain f)" "port_queued k (drained_filter sched drain f) = port_queued k f"
    "held (drained_filter sched drain f) = held f + 1"
    "loop (conn (drained_filter sched drain f)) = loop (conn f)" "bound (registry (drained_filter sched drain f)) = bound (registry f)"
    using t c w lock by (cases b; auto simp: drained_filter_def same_buffers_def same_client_def same_filter_def)+
qed

lemma filter_stop_eq:
  "filter_stop th sched drain f =
     (case pwf_filter_refuse_in_callback th drain f of
        (True, f1) \<Rightarrow> (PWF_ERR_IN_CALLBACK, f1)
      | (False, f1) \<Rightarrow>
          if filter_state f1 \<noteq> PWF_FILTER_STATE_RUNNING then (PWF_OK, f1)
          else
            let t = drained_filter sched drain f1
            in (PWF_OK, pwf_filter_release_all_links
                  (emit [Loop_unlock] ((hold_reset (emit [Filter_set_active (pw_filter t) False] t))
                     \<lparr>filter_state := PWF_FILTER_STATE_STOPPED\<rparr>))))"
  by (simp add: filter_stop_def drained_filter_def hold_reset_def Let_def split: prod.split bool.split)

lemma heap_ok_update [simp]:
  "heap_ok (f\<lparr>filter_state := st\<rparr>) = heap_ok f" "heap_ok (f\<lparr>registry := r\<rparr>) = heap_ok f"
  "heap_ok (f\<lparr>conn := k\<rparr>) = heap_ok f" "heap_ok (f\<lparr>pw_filter := p\<rparr>) = heap_ok f"
  "heap_ok (f\<lparr>filter_drained := d\<rparr>) = heap_ok f"
  for f :: "'a pwf_filter_scheme"
  by (simp_all add: heap_ok_def blocks_ok_def blocks_unique_def no_leak_def block_def block_size_def
      cong: option.case_cong)

text \<open>A stop that takes place: every held buffer goes back and nothing stays held.\<close>

lemma filter_stop_spec:
  assumes go: "\<not> fst (pwf_filter_refuse_in_callback th drain f)" and ok: "heap_ok f"
    and running: "filter_state f = PWF_FILTER_STATE_RUNNING"
    and run: "filter_stop th sched drain f = (res, g)"
  shows "res = PWF_OK" "heap_ok g" "faults g = faults f" "n_ports g = n_ports f" "held g = held f"
    "i < n_ports f \<Longrightarrow> held_buf (get_port i g) = None \<and> port_queued i g = port_queued i f + one (held_buf (get_port i f))"
proof -
  have refuse: "pwf_filter_refuse_in_callback th drain f = (False, f)"
    using go by (auto simp: pwf_filter_refuse_in_callback_def Let_def)
  define t where "t = drained_filter sched drain f"
  define u where "u = emit [Filter_set_active (pw_filter t) False] t"
  define v where "v = emit [Loop_unlock] ((hold_reset u)\<lparr>filter_state := PWF_FILTER_STATE_STOPPED\<rparr>)"
  have g: "(res, g) = (PWF_OK, pwf_filter_release_all_links v)"
    using run refuse running by (simp add: filter_stop_eq Let_def t_def u_def v_def)
  note d = drained_filter_buffers [where f = f and sched = sched and drain = drain, folded t_def]
  have ok_u: "heap_ok u" using same_memory_ok [OF same_filter_memory [OF d(1)] ok] by (simp add: u_def)
  have n: "n_ports u = n_ports f" "faults u = faults f" using same_filter_faults [OF d(1)] by (simp_all add: u_def)
  note r = hold_reset_spec [OF ok_u]
  have h: "same_holdings v g" using release_all_holdings [of v] g by simp
  have ok_v: "heap_ok v" using r(1) by (simp add: v_def)
  show "res = PWF_OK" using g by simp
  show "heap_ok g" using h same_memory_ok [OF _ ok_v] by (simp add: same_holdings_def)
  show "faults g = faults f" "n_ports g = n_ports f" "held g = held f"
    using h r d(3) n by (simp_all add: same_holdings_def same_memory_def v_def u_def)
  assume i: "i < n_ports f"
  have "held_buf (get_port i u) = held_buf (get_port i f)" "port_queued i u = port_queued i f"
    using same_filter_held_buf [OF d(1) i] d(2) by (simp_all add: u_def)
  then show "held_buf (get_port i g) = None \<and> port_queued i g = port_queued i f + one (held_buf (get_port i f))"
    using h r(5) [of i] i n by (simp add: same_holdings_def v_def)
qed

section \<open>Destroying\<close>

definition freed :: "pwf_filter \<Rightarrow> nat set \<Rightarrow> nat \<Rightarrow> bool" where
  "freed f is a \<longleftrightarrow> (\<exists>i\<in>is. \<exists>s. block f i s = Some a)"

lemma heap_free_held:
  "(\<And>a. ptr = Some a \<Longrightarrow> heap f a \<noteq> None) \<Longrightarrow>
     heap_free ptr f = f\<lparr>heap := drop_block ptr (heap f)\<rparr>"
  by (cases ptr) (auto simp: heap_free_def drop_block_def)

text \<open>The loop that frees the ports meets no block twice.\<close>

lemma free_ports_spec:
  assumes ok: "heap_ok f"
  shows "distinct is \<Longrightarrow> \<forall>i\<in>set is. i < n_ports f \<Longrightarrow>
    faults (fold free_port is f) = faults f \<and> n_ports (fold free_port is f) = n_ports f \<and>
    (\<forall>j s. block (fold free_port is f) j s = block f j s) \<and>
    (\<forall>a. heap (fold free_port is f) a = (if freed f (set is) a then None else heap f a))"
proof (induction "is" rule: rev_induct)
  case Nil
  then show ?case by (simp add: freed_def)
next
  case (snoc i "is")
  define g where "g = fold free_port is f"
  have g: "faults g = faults f" "n_ports g = n_ports f" "\<And>j s. block g j s = block f j s"
    "\<And>a. heap g a = (if freed f (set is) a then None else heap f a)"
    using snoc by (auto simp: g_def)
  have i: "i < n_ports f" "i \<notin> set is" using snoc.prems by auto
  have uniq: "blocks_unique f" and bok: "blocks_ok f" using ok by (simp_all add: heap_ok_def)
  have live: "heap g a \<noteq> None" if "block f i s = Some a" for s a
  proof -
    have "\<not> freed f (set is) a"
    proof
      assume "freed f (set is) a"
      then obtain j t where j: "j \<in> set is" "block f j t = Some a" unfolding freed_def by blast
      then have "j = i" using blocks_uniqueD [OF uniq _ i(1) j(2) that] snoc.prems by auto
      with i j show False by simp
    qed
    moreover have "heap f a \<noteq> None" using blocks_okD(1) [OF bok i(1) that] by auto
    ultimately show ?thesis by (simp add: g(4))
  qed
  have ptrs: "pushed_data (get_port i g) = block f i False" "delivered_data (get_port i g) = block f i True"
    using g(3) [of i False] g(3) [of i True] by (simp_all add: block_def)
  let ?p = "block f i False" and ?d = "block f i True"
  have one: "heap_free ?p g = g\<lparr>heap := drop_block ?p (heap g)\<rparr>"
    by (rule heap_free_held) (use live in blast)
  have two: "heap_free ?d (g\<lparr>heap := drop_block ?p (heap g)\<rparr>) = g\<lparr>heap := drop_block ?d (drop_block ?p (heap g))\<rparr>"
  proof -
    have "drop_block ?p (heap g) a \<noteq> None" if "?d = Some a" for a
      using live [OF that] blocks_uniqueD [OF uniq i(1) i(1) that, of False]
      by (auto simp: drop_block_def split: option.split)
    then show ?thesis by (subst heap_free_held) auto
  qed
  have n: "n_ports (free_port i g) = n_ports g" and free: "free_port i g =
      map_port i pwf_filter_event_free_port (g\<lparr>heap := drop_block ?d (drop_block ?p (heap g))\<rparr>)"
    by (simp_all add: free_port_def ptrs one two)
  have same: "pushed_data (pwf_filter_event_free_port p) = pushed_data p" "delivered_data (pwf_filter_event_free_port p) = delivered_data p" for p
    by (simp_all add: pwf_filter_event_free_port_def)
  have blk: "block (free_port i g) j s = block f j s" for j s
    using i g(2) g(3) [of j s] by (cases s) (auto simp: free block_def get_port_map_port same)
  have hp: "heap (free_port i g) a = (if freed f (set (is @ [i])) a then None else heap f a)" for a
  proof -
    have "freed f (set (is @ [i])) a \<longleftrightarrow> freed f (set is) a \<or> ?p = Some a \<or> ?d = Some a"
      by (auto simp: freed_def) (metis (full_types))
    then show ?thesis by (auto simp: free drop_block_def g(4) split: option.splits)
  qed
  show ?case using g n blk hp by (simp add: g_def [symmetric] free)
qed

lemma free_all_ports:
  assumes "heap_ok f"
  shows "faults (fold free_port [0..<n_ports f] f) = faults f" "heap (fold free_port [0..<n_ports f] f) = Map.empty"
proof -
  note spec = free_ports_spec [OF assms, of "[0..<n_ports f]"]
  show "faults (fold free_port [0..<n_ports f] f) = faults f" using spec by simp
  have "heap (fold free_port [0..<n_ports f] f) a = None" for a
  proof (cases "heap f a")
    case None
    then show ?thesis using spec by simp
  next
    case (Some x)
    then have "\<exists>i<n_ports f. \<exists>s. block f i s = Some a" using assms by (simp add: heap_ok_def no_leak_def)
    then have "freed f (set [0..<n_ports f]) a" by (auto simp: freed_def)
    then show ?thesis using spec by simp
  qed
  then show "heap (fold free_port [0..<n_ports f] f) = Map.empty" by (rule ext)
qed

lemma fold_dispatch_same: "same_filter f (fold filter_dispatch evs f)"
  using buffers_loop.fold_inv [of f f evs] by (simp add: same_buffers_def)

lemma filter_teardown_frame:
  "faults (pwf_filter_teardown evs f) = faults f" "heap (pwf_filter_teardown evs f) = heap f"
proof -
  have d: "faults (destroy_pw_filter evs g) = faults g" "heap (destroy_pw_filter evs g) = heap g" for g
    using fold_dispatch_same [of "emit [Filter_destroy (pw_filter g)] g" evs]
    by (simp_all add: destroy_pw_filter_def Let_def same_filter_def)
  show "faults (pwf_filter_teardown evs f) = faults f" "heap (pwf_filter_teardown evs f) = heap f"
    by (simp_all add: pwf_filter_teardown_def Let_def d split: prod.split)
qed

lemma filter_destroy_spec:
  assumes go: "\<not> fst (pwf_filter_refuse_in_callback th True f)" and ok: "heap_ok f"
  shows "\<exists>g. filter_destroy th evs gl f = (True, g, pwf_pw_global_deinit gl) \<and> faults g = faults f \<and> heap g = Map.empty"
proof -
  have refuse: "pwf_filter_refuse_in_callback th True f = (False, f)" and go': "\<not> fst (pwf_filter_refuse_in_callback th False f)"
    using go by (auto simp: pwf_filter_refuse_in_callback_def Let_def)
  define f2 where "f2 = (if filter_state f = PWF_FILTER_STATE_RUNNING then snd (filter_stop th ([], []) False f)
      else pwf_filter_release_all_links f)"
  have f2: "heap_ok f2 \<and> faults f2 = faults f"
  proof (cases "filter_state f = PWF_FILTER_STATE_RUNNING")
    case True
    obtain res g where r: "filter_stop th ([], []) False f = (res, g)" by fastforce
    then show ?thesis using filter_stop_spec(2,3) [OF go' ok True r] True by (simp add: f2_def)
  next
    case False
    have h: "same_holdings f (pwf_filter_release_all_links f)" by (rule release_all_holdings)
    then show ?thesis using False same_memory_ok [OF _ ok] by (simp add: f2_def same_holdings_def)
  qed
  define f3 where "f3 = (if loop (conn f2) \<noteq> None
      then emit ([Loop_lock] @ snd (pwf_pw_registry_teardown (registry f2)) @ [Loop_unlock])
             (f2\<lparr>registry := fst (pwf_pw_registry_teardown (registry f2))\<rparr>) else f2)"
  have f3: "heap_ok f3" "faults f3 = faults f" using f2 by (simp_all add: f3_def)
  define f4 where "f4 = fold free_port [0..<n_ports f3] f3"
  have f4: "faults f4 = faults f" "heap f4 = Map.empty" using free_all_ports [OF f3(1)] f3(2) by (simp_all add: f4_def)
  have "filter_destroy th evs gl f =
    (True, (pwf_filter_teardown evs (f4\<lparr>filter_ports := growable_empty\<rparr>))\<lparr>filter_name := None\<rparr>, pwf_pw_global_deinit gl)"
    using refuse by (simp add: filter_destroy_def Let_def f2_def f3_def f4_def case_prod_beta)
  then show ?thesis using f4 by (simp add: filter_teardown_frame)
qed

end
