(* ===== verification/Pwf_Filter_Event_Facts.thy ===== *)
theory Pwf_Filter_Event_Facts
  imports Pwf_Filter_Delivery
begin

text \<open>
  Facts about event ports over several calls: events pushed to an input port are the next cycle's
  incoming events, and events pushed to an output port during the callback always fit the buffer they
  go out in.
\<close>

lemma pending_event_back:
  assumes "pushable ev" and "0 < event_size ev"
  shows "event_of_pending (pending_of_event ev) = ev"
proof -
  obtain d where d: "event_data ev = Some d" "length d = event_size ev"
    using assms(1) by (auto simp: pushable_def)
  have key: "(if event_kind ev = PWF_EVENT_PROPERTY then map_option fst (pwf_property_find_by_name (event_key ev)) else None)
      = event_key ev"
  proof (cases "event_kind ev = PWF_EVENT_PROPERTY")
    case True
    then obtain entry where "pwf_property_find_by_name (event_key ev) = Some entry"
      using assms(1) by (auto simp: pushable_def pwf_event_kind_key_valid_def)
    then show ?thesis using True find_by_name_key by simp
  next
    case False
    then show ?thesis using assms(1) by (auto simp: pushable_def pwf_event_kind_key_valid_def split: if_splits)
  qed
  show ?thesis
    using assms(2) d key by (intro pwf_event.equality) (simp_all add: event_of_pending_def pending_of_event_def)
qed

section \<open>Pushing an event\<close>

text \<open>A list of pushes to one port, each with what its allocations answer; the results in order.\<close>

fun push_events ::
    "(built_control list \<Rightarrow> nat) \<Rightarrow> pwf_thread \<Rightarrow> nat \<Rightarrow> (grow_answer \<times> bool \<times> pwf_event) list \<Rightarrow> pwf_filter \<Rightarrow>
     pwf_error list \<times> pwf_filter" where
  "push_events pod_size th i [] f = ([], f)"
| "push_events pod_size th i ((grow, ok, ev) # ps) f =
     (case pwf_filter_port_push_event pod_size grow ok th (Some i) (Some ev) f of
        (res, f1) \<Rightarrow> (case push_events pod_size th i ps f1 of (rs, f2) \<Rightarrow> (res # rs, f2)))"

definition accepted :: "pwf_error list \<Rightarrow> (grow_answer \<times> bool \<times> pwf_event) list \<Rightarrow> pwf_event list" where
  "accepted rs ps = map (\<lambda>(r, p). snd (snd p)) (filter (\<lambda>(r, p). r = PWF_OK) (zip rs ps))"

definition fits :: "(built_control list \<Rightarrow> nat) \<Rightarrow> pwf_filter_port \<Rightarrow> bool" where
  "fits pod_size p \<longleftrightarrow>
     items (pending_events p) = [] \<or> pod_size (pwf_filter_event_encode p) \<le> event_output_capacity p"

text \<open>What one push changes: the port's pending list, and only by an accepted event.\<close>

lemma push_event_port:
  assumes i: "i < n_ports f" and media: "port_media (get_port i f) = PWF_DATA_EVENT"
    and run: "pwf_filter_port_push_event pod_size grow ok th (Some i) (Some ev) f = (res, f')"
  shows "n_ports f' = n_ports f"
    and "\<exists>g. get_port i f' = (get_port i f)\<lparr>pending_events := g\<rparr> \<and>
           items g = items (pending_events (get_port i f)) @ (if res = PWF_OK then [pending_of_event ev] else [])"
    and "res = PWF_OK \<Longrightarrow> port_dir (get_port i f) = PWF_FILTER_PORT_OUTPUT \<Longrightarrow> fits pod_size (get_port i f')"
    and "held f' = held f"
proof -
  obtain staged p where a: "pwf_filter_pending_event_append grow ok ev (get_port i f) = (staged, p)" by fastforce
  note its = pending_append_items [OF a]
  obtain g where p: "p = (get_port i f)\<lparr>pending_events := g\<rparr>" using pending_append_frame [OF a] by blast
  let ?valid = "\<not> (event_size ev > 0 \<and> event_data ev = None) \<and> pwf_event_kind_key_valid (event_kind ev) (event_key ev)"
  let ?lock = "pwf_filter_processing th \<noteq> Some (filter_id f)"
  let ?big = "pod_size (pwf_filter_event_encode p) > event_output_capacity p"
  define port where "port = (if \<not> ?valid then get_port i f
      else if port_dir (get_port i f) = PWF_FILTER_PORT_OUTPUT \<and> staged \<and> ?big then pwf_filter_pending_event_pop_last p else p)"
  have f': "get_port i f' = port" "n_ports f' = n_ports f" "held f' = held f"
    and ok': "res = PWF_OK \<longleftrightarrow> ?valid \<and> staged \<and> \<not> (port_dir (get_port i f) = PWF_FILTER_PORT_OUTPUT \<and> ?big)"
    using run i media a
    by (auto simp: pwf_filter_port_push_event_def port_def Let_def get_port_map_port split: if_splits)
      (cases "port_dir (get_port i f)"; auto)+
  show "n_ports f' = n_ports f" "held f' = held f" using f' by simp_all
  have pop: "items (pending_events (pwf_filter_pending_event_pop_last p)) = items (pending_events (get_port i f))" if staged
    using pop_last_append [of grow ok ev "get_port i f" p] a that by simp
  show "\<exists>g. get_port i f' = (get_port i f)\<lparr>pending_events := g\<rparr> \<and>
           items g = items (pending_events (get_port i f)) @ (if res = PWF_OK then [pending_of_event ev] else [])"
  proof (cases "?valid")
    case False
    then show ?thesis using ok' f' by (intro exI [of _ "pending_events (get_port i f)"]) (auto simp: port_def)
  next
    case valid: True
    show ?thesis
    proof (cases "port_dir (get_port i f) = PWF_FILTER_PORT_OUTPUT \<and> staged \<and> ?big")
      case True
      then have "port = pwf_filter_pending_event_pop_last p" "res \<noteq> PWF_OK" using valid ok' by (auto simp: port_def)
      then show ?thesis using f'(1) pop True p
        by (intro exI [of _ "pending_events port"])
           (auto simp: pwf_filter_pending_event_pop_last_def intro: pwf_filter_port.equality)
    next
      case False
      then have "port = p" "res = PWF_OK \<longleftrightarrow> staged" using valid ok' by (auto simp: port_def)
      then show ?thesis using f'(1) its p by (intro exI [of _ g]) auto
    qed
  qed
  show "fits pod_size (get_port i f')" if "res = PWF_OK" "port_dir (get_port i f) = PWF_FILTER_PORT_OUTPUT"
    using that ok' f'(1) by (auto simp: fits_def port_def not_less)
qed

lemma fits_items:
  "items (pending_events q) = items (pending_events p) \<Longrightarrow> event_output_capacity q = event_output_capacity p \<Longrightarrow>
     fits pod_size q = fits pod_size p"
  by (simp add: fits_def pwf_filter_event_encode_def)

lemma push_events_port:
  assumes "i < n_ports f" and "port_media (get_port i f) = PWF_DATA_EVENT"
    and "push_events pod_size th i ps f = (rs, f')"
  shows "n_ports f' = n_ports f \<and> length rs = length ps \<and> held f' = held f \<and>
    (\<exists>g. get_port i f' = (get_port i f)\<lparr>pending_events := g\<rparr> \<and>
       items g = items (pending_events (get_port i f)) @ map pending_of_event (accepted rs ps)) \<and>
    (port_dir (get_port i f) = PWF_FILTER_PORT_OUTPUT \<longrightarrow> fits pod_size (get_port i f) \<longrightarrow> fits pod_size (get_port i f'))"
  using assms
proof (induction ps arbitrary: f rs)
  case Nil
  then show ?case
    by (auto simp: accepted_def intro: exI [of _ "pending_events (get_port i f)"])
next
  case (Cons p ps)
  obtain grow ok ev where p: "p = (grow, ok, ev)" by (metis prod_cases3)
  obtain res f1 where r1: "pwf_filter_port_push_event pod_size grow ok th (Some i) (Some ev) f = (res, f1)" by fastforce
  obtain rs1 f2 where r2: "push_events pod_size th i ps f1 = (rs1, f2)" by fastforce
  have rs: "rs = res # rs1" "f2 = f'" using Cons.prems(3) p r1 r2 by simp_all
  note r2 = r2 [unfolded rs(2)]
  note one = push_event_port [OF Cons.prems(1,2) r1]
  obtain g where g: "get_port i f1 = (get_port i f)\<lparr>pending_events := g\<rparr>"
    "items g = items (pending_events (get_port i f)) @ (if res = PWF_OK then [pending_of_event ev] else [])"
    using one(2) by blast
  have ih: "n_ports f' = n_ports f1 \<and> length rs1 = length ps \<and> held f' = held f1 \<and>
    (\<exists>g. get_port i f' = (get_port i f1)\<lparr>pending_events := g\<rparr> \<and>
       items g = items (pending_events (get_port i f1)) @ map pending_of_event (accepted rs1 ps)) \<and>
    (port_dir (get_port i f1) = PWF_FILTER_PORT_OUTPUT \<longrightarrow> fits pod_size (get_port i f1) \<longrightarrow> fits pod_size (get_port i f'))"
    by (rule Cons.IH [OF _ _ r2]) (use Cons.prems one g in simp_all)
  have fit: "fits pod_size (get_port i f1)" if "port_dir (get_port i f) = PWF_FILTER_PORT_OUTPUT" "fits pod_size (get_port i f)"
  proof (cases "res = PWF_OK")
    case True
    then show ?thesis using one(3) that by simp
  next
    case False
    then show ?thesis using that g fits_items [of "get_port i f1" "get_port i f"] by simp
  qed
  have acc: "accepted rs (p # ps) = (if res = PWF_OK then [ev] else []) @ accepted rs1 ps"
    by (simp add: accepted_def rs p)
  obtain g2 where g2: "get_port i f' = (get_port i f1)\<lparr>pending_events := g2\<rparr>"
    "items g2 = items (pending_events (get_port i f1)) @ map pending_of_event (accepted rs1 ps)" using ih by blast
  have "get_port i f' = (get_port i f)\<lparr>pending_events := g2\<rparr>" using g2(1) g(1) by simp
  moreover have "items g2 = items (pending_events (get_port i f)) @ map pending_of_event (accepted rs (p # ps))"
    using g2(2) g by (simp add: acc)
  moreover have "port_dir (get_port i f1) = port_dir (get_port i f)" using g by simp
  ultimately show ?case using ih one(1,4) fit rs(1) by (metis length_Cons)
qed

section \<open>Across a cycle\<close>

text \<open>An output port's cycle starts with nothing pending and the room of the buffer it got.\<close>

lemma begin_event_output_port:
  assumes i: "i < n_ports f" and run: "begin_event_output env i f = (c, g)"
  shows "items (pending_events (get_port i g)) = []"
    "event_output_capacity (get_port i g) = (case pc_dequeued c of Some d \<Rightarrow> unat (maxsize (first_data d)) | None \<Rightarrow> 0)"
    "port_media (get_port i g) = port_media (get_port i f)" "port_dir (get_port i g) = port_dir (get_port i f)"
    "n_ports g = n_ports f"
  using assms
  by (auto simp: begin_event_output_def Let_def get_port_map_port split: if_splits option.splits)

text \<open>An input port's cycle that sees staged events takes all of them, in order.\<close>

lemma load_items:
  "items (incoming_events (pwf_filter_event_load_delivering_as_incoming (\<lambda>_. True) p)) =
     map event_of_pending (items (delivering_events p))"
  by (simp add: pwf_filter_event_load_delivering_as_incoming_def fold_append_events)

lemma begin_event_input_staged:
  assumes "i < n_ports f" and "ce_staged env" and "ce_grow env = (\<lambda>_. True)" and "items (pending_events (get_port i f)) \<noteq> []"
    and "begin_event_input env i f = (c, g)"
  shows "items (incoming_events (get_port i g)) = map event_of_pending (items (pending_events (get_port i f)))"
    "port_media (get_port i g) = port_media (get_port i f)" "port_dir (get_port i g) = port_dir (get_port i f)"
    "pc_taken c = None"
proof -
  let ?p = "pwf_filter_event_take_pending (get_port i f)"
  have p: "items (delivering_events ?p) = items (pending_events (get_port i f))"
    "port_media ?p = port_media (get_port i f)" "port_dir ?p = port_dir (get_port i f)"
    by (simp_all add: pwf_filter_event_take_pending_def)
  have g: "c = \<lparr>pc_buffer = empty_buffer i, pc_dequeued = None, pc_taken = None\<rparr>"
    "g = map_port i (\<lambda>_. pwf_filter_event_load_delivering_as_incoming (\<lambda>_. True) ?p) f"
    using assms p by (auto simp: begin_event_input_def Let_def)
  have "get_port i g = pwf_filter_event_load_delivering_as_incoming (\<lambda>_. True) ?p" using assms(1) g by (simp add: get_port_map_port)
  then show "items (incoming_events (get_port i g)) = map event_of_pending (items (pending_events (get_port i f)))"
    "port_media (get_port i g) = port_media (get_port i f)" "port_dir (get_port i g) = port_dir (get_port i f)"
    using load_items [of ?p] p by (simp_all add: pwf_filter_event_load_delivering_as_incoming_def)
  show "pc_taken c = None" using g by simp
qed

text \<open>What the accessors answer on an input port.\<close>

lemma get_event_all:
  assumes "port_media (get_port i f) = PWF_DATA_EVENT" and "port_dir (get_port i f) = PWF_FILTER_PORT_INPUT"
  shows "pwf_filter_port_get_event_count (Some i) f = length (items (incoming_events (get_port i f)))"
    and "k < length (items (incoming_events (get_port i f))) \<Longrightarrow>
      pwf_filter_port_get_event (Some i) k True f = (PWF_OK, Some (items (incoming_events (get_port i f)) ! k))"
  using assms by (simp_all add: pwf_filter_port_get_event_count_def pwf_filter_port_get_event_def)

end
