(* ===== verification/Pwf_Filter_Properties.thy ===== *)
theory Pwf_Filter_Properties
  imports Pwf_Filter_Lifetime Pwf_Filter_Event_Facts
begin

text \<open>
  What filters promise: pushed data reaches one cycle unchanged and no push disturbs what a callback
  reads, buffers are neither lost nor returned twice, holds, sequence numbers, events, lost sources,
  stopping and destroying.
\<close>

section \<open>A concrete filter\<close>

definition in_port :: pwf_filter_port where
  "in_port = port_zero\<lparr>port_dir := PWF_FILTER_PORT_INPUT, port_media := PWF_DATA_AUDIO, hold_enabled := True\<rparr>"

definition event_port :: pwf_filter_port where
  "event_port = port_zero\<lparr>port_dir := PWF_FILTER_PORT_INPUT, port_media := PWF_DATA_EVENT\<rparr>"

definition demo :: pwf_filter where
  "demo = filter_zero\<lparr>conn := conn_zero\<lparr>loop := Some 1, core := True, pw_context := True\<rparr>, filter_id := 3,
     filter_state := PWF_FILTER_STATE_RUNNING, process_cb := True, filter_error_cb := True, pw_filter := Some 6,
     filter_ports := \<lparr>items = [in_port, event_port], capacity = 4\<rparr>\<rparr>"

definition quiet_env :: cycle_env where
  "quiet_env = \<lparr>ce_staged = True, ce_alloc_ok = True, ce_dequeue = (\<lambda>i. None), ce_grow = (\<lambda>i. True), ce_pod_size = (\<lambda>cs. 0)\<rparr>"

definition idle_app :: process_callback where
  "idle_app th bufs f = (bufs, f)"

lemma demo_ports: "n_ports demo = 2" "get_port 0 demo = in_port" "get_port 1 demo = event_port"
  "get_port (Suc 0) demo = event_port"
  by (simp_all add: demo_def n_ports_def get_port_def)

lemma below_two: "i < (2::nat) \<longleftrightarrow> i = 0 \<or> i = 1"
  by auto

lemma demo_heap_ok: "heap_ok demo"
proof -
  have "heap demo = Map.empty" by (simp add: demo_def filter_zero_def)
  moreover have "block demo i s = None \<and> block_size demo i s = 0" if "i < 2" for i s
    using that by (auto simp: below_two block_def block_size_def demo_ports in_port_def event_port_def port_zero_def)
  moreover have "port_mem_ok (get_port i demo)" if "i < 2" for i
    using that by (auto simp: below_two port_mem_ok_def hold_in_block_def demo_ports in_port_def event_port_def port_zero_def)
  ultimately show ?thesis by (simp add: heap_ok_def blocks_ok_def blocks_unique_def no_leak_def demo_ports)
qed

lemma demo_push:
  "\<exists>f'. filter_push_port_data (Some 50) (Some (3, 0)) (Some [1, 2, 3]) 3 77 demo = (PWF_OK, f')"
proof -
  have p: "port_dir in_port = PWF_FILTER_PORT_INPUT" "port_media in_port = PWF_DATA_AUDIO" "pushed_capacity in_port = 0"
    by (simp_all add: in_port_def port_zero_def)
  show ?thesis by (simp add: filter_push_port_data_def demo_ports p Let_def) (simp add: demo_def)
qed

section \<open>Pushed data\<close>

text \<open>C4: functional. Data pushed to an input port is what the next cycle that sees the push hands to
  the callback: the same bytes, size and timestamp, marked fresh, and no longer pending afterwards. The
  push happens to a filter whose ports' blocks are in order and gets a free block from \<open>realloc\<close>.\<close>

theorem push_reaches_callback:
  assumes "heap_ok f" and "i < n_ports f" and "data_input (get_port i f)" and "grown_ok grown i f"
    and "0 < n" and "n \<le> length d" and "ce_staged env"
    and push: "filter_push_port_data grown (Some (filter_id f, i)) (Some d) n pts f = (PWF_OK, f1)"
    and cycle: "begin_ports env [0..<n_ports f] f1 = (cs, f2)"
  shows "\<exists>a bytes. pb_data (pc_buffer (cs ! i)) = Some (Heap a) \<and> heap f2 a = Some bytes \<and> take n bytes = take n d \<and>
    pb_size (pc_buffer (cs ! i)) = n \<and> pb_pts (pc_buffer (cs ! i)) = pts \<and> pb_fresh (pc_buffer (cs ! i)) \<and>
    \<not> pushed_pending (get_port i f2)"
proof -
  note p = filter_push_spec [OF assms(1,2,4,6) push]
  obtain ptr cap where st: "get_port i f1 = stage_push ptr cap n pts (get_port i f)"
    and "n > 0 \<longrightarrow> (\<exists>a bytes. ptr = Some a \<and> heap f1 a = Some bytes \<and> take n bytes = take n d)"
    using p(6) by blast
  then obtain a bytes where a: "ptr = Some a" "heap f1 a = Some bytes" "take n bytes = take n d" using assms(5) by blast
  note cycle' = cycle [folded p(3)]
  have i: "i < n_ports f1" using assms(2) p(3) by simp
  obtain t t' where t: "n_ports t = n_ports f1" "port_view i t = port_view i f1" "begin_port env i t = (cs ! i, t')"
    "port_view i f2 = port_view i t'" using begin_ports_turn [OF cycle' i] by metis
  let ?t = "map_port i (\<lambda>p. p\<lparr>port_dmabuf_buf := None\<rparr>) t"
  have gp: "get_port i t = get_port i f1" using t(2) by (simp add: port_view_def)
  have "data_input (get_port i t)" using assms(3) st gp by (simp add: data_input_def stage_push_def)
  then have run: "begin_input env i ?t = (cs ! i, t')" using begin_port_input [of i t env] t i by simp
  have port: "pushed_pending (get_port i ?t)" "pushed_data (get_port i ?t) = Some a" "pushed_size (get_port i ?t) = n"
    "pushed_pts (get_port i ?t) = pts"
    using i t(1) gp st a by (simp_all add: get_port_map_port stage_push_def)
  have it: "i < n_ports ?t" using i t(1) by simp
  have "heap f2 = heap f1" by (rule begin_ports_heap_ok(3) [OF cycle' p(1)])
  moreover have "get_port i f2 = get_port i t'" using t(4) by (simp add: port_view_def)
  ultimately show ?thesis
    using begin_input_pushed [OF it assms(7) port(1) run] port a by auto
qed

theorem push_reaches_callback_witness:
  "\<exists>f1 cs f2. filter_push_port_data (Some 50) (Some (3, 0)) (Some [1, 2, 3]) 3 77 demo = (PWF_OK, f1) \<and>
     begin_ports quiet_env [0..<2] f1 = (cs, f2) \<and> pb_size (pc_buffer (cs ! 0)) = 3"
proof -
  obtain f1 where push: "filter_push_port_data (Some 50) (Some (3, 0)) (Some [1, 2, 3]) 3 77 demo = (PWF_OK, f1)"
    using demo_push by blast
  obtain cs f2 where cycle: "begin_ports quiet_env [0..<2] f1 = (cs, f2)" by fastforce
  have g: "grown_ok (Some 50) 0 demo" by (simp add: grown_ok_def demo_def filter_zero_def)
  have d: "data_input (get_port 0 demo)" by (simp add: data_input_def demo_ports in_port_def)
  have f: "filter_id demo = 3" by (simp add: demo_def)
  have "pb_size (pc_buffer (cs ! 0)) = 3"
    using push_reaches_callback [where f = demo and i = 0 and d = "[1, 2, 3]" and n = 3 and env = quiet_env,
        OF demo_heap_ok _ d g _ _ _ _ cycle [folded demo_ports(1)]] push
    by (auto simp: f demo_ports quiet_env_def)
  with push cycle show ?thesis by blast
qed

text \<open>C22: safety. A push in the middle of a cycle, or of a hold, writes no block the data thread owns: every
  port's delivered block is the same block with the same bytes, so what the callback reads through
  its pointers does not change; and the push itself writes only where it may.\<close>

theorem push_leaves_delivered_data:
  assumes "heap_ok f" and "i < n_ports f" and "grown_ok grown i f" and "n \<le> length d"
    and "filter_push_port_data grown (Some (owner, i)) (Some d) n pts f = (PWF_OK, f')"
  shows "heap_ok f' \<and> faults f' = faults f \<and>
    (\<forall>j<n_ports f. delivered_data (get_port j f') = delivered_data (get_port j f) \<and>
       (\<forall>a. delivered_data (get_port j f) = Some a \<longrightarrow> heap f' a = heap f a))"
  using filter_push_spec(1,2,4,5) [OF assms] by (simp add: block_def)

theorem push_leaves_delivered_data_witness:
  "\<exists>f'. filter_push_port_data (Some 50) (Some (3, 0)) (Some [1, 2, 3]) 3 77 demo = (PWF_OK, f') \<and> faults f' = []"
proof -
  obtain f' where push: "filter_push_port_data (Some 50) (Some (3, 0)) (Some [1, 2, 3]) 3 77 demo = (PWF_OK, f')"
    using demo_push by blast
  have g: "grown_ok (Some 50) 0 demo" by (simp add: grown_ok_def demo_def filter_zero_def)
  have "faults f' = faults demo"
    using push_leaves_delivered_data [OF demo_heap_ok _ g _ push] by (simp add: demo_ports)
  then show ?thesis using push by (simp add: demo_def filter_zero_def)
qed

section \<open>Buffers\<close>

text \<open>C5: invariant. No buffer is lost or returned twice: over a whole cycle, what a port has given back to
  PipeWire and what it holds grow by exactly the buffer it took. The buffers of event and output
  ports are mapped.\<close>

theorem cycle_buffers_balance:
  assumes "n_ports f \<le> PWF_FILTER_STACK_PORTS \<or> ce_alloc_ok env"
    and "i < n_ports f" and "mapped_pool env i (get_port i f)" and "app_keeps_buffers app"
    and "pwf_filter_on_process env app th f = ((cs, outs), g)"
  shows "port_queued i g + one (held_buf (get_port i g)) =
    port_queued i f + one (held_buf (get_port i f)) + dequeued_id (pc_taken (cs ! i))"
  using assms by (rule cycle_conserves)

definition mapped_data :: spa_data where
  "mapped_data = \<lparr>d_type = SPA_DATA_MemPtr, d_fd = 0, mapoffset = 0, maxsize = 64, d_data = Some 900,
     chunk = Some \<lparr>chunk_offset = 0, chunk_size = 16, chunk_stride = 4\<rparr>\<rparr>"

definition feeding_env :: cycle_env where
  "feeding_env = quiet_env\<lparr>ce_dequeue := (\<lambda>i. if i = 0 then Some \<lparr>buf_id = 7,
     buffer = \<lparr>datas = [mapped_data], header_pts = Some 5\<rparr>, requested = 0, b_size = 0, controls = None\<rparr> else None)\<rparr>"

theorem cycle_buffers_balance_witness:
  "\<exists>cs outs g. pwf_filter_on_process feeding_env idle_app app_thread demo = ((cs, outs), g) \<and>
     port_queued 0 g + one (held_buf (get_port 0 g)) = dequeued_id (pc_taken (cs ! 0))"
proof -
  obtain cs outs g where run: "pwf_filter_on_process feeding_env idle_app app_thread demo = ((cs, outs), g)"
    by (metis prod.exhaust)
  have app: "app_keeps_buffers idle_app" by (simp add: app_keeps_buffers_def idle_app_def)
  have pool: "mapped_pool feeding_env 0 (get_port 0 demo)" by (simp add: mapped_pool_def demo_ports in_port_def port_zero_def)
  have start: "port_queued 0 demo = {#}" "held_buf (get_port 0 demo) = None"
    by (simp_all add: port_queued_def demo_def filter_zero_def map_filter_simps demo_ports [unfolded demo_def] in_port_def port_zero_def get_port_def)
  show ?thesis using run cycle_buffers_balance [OF _ _ pool app run] start
    by (auto simp: demo_ports PWF_FILTER_STACK_PORTS_def)
qed

section \<open>Holds and sequence numbers\<close>

text \<open>C21: functional. A port's sequence number is the one in its buffer and counts the cycles that had
  something new: it advances by one in those and stays in the others.\<close>

theorem sequence_counts_fresh:
  assumes "i < n_ports f" and "data_input (get_port i f)"
    and run: "begin_ports env [0..<n_ports f] f = (cs, f1)"
  shows "pb_seq (pc_buffer (cs ! i)) = update_seq (get_port i f1) \<and>
    update_seq (get_port i f1) = update_seq (get_port i f) + (if pb_fresh (pc_buffer (cs ! i)) then 1 else 0)"
proof -
  obtain t t' where t: "n_ports t = n_ports f" "port_view i t = port_view i f" "begin_port env i t = (cs ! i, t')"
    "port_view i f1 = port_view i t'" using begin_ports_turn [OF run assms(1)] by metis
  let ?t = "map_port i (\<lambda>p. p\<lparr>port_dmabuf_buf := None\<rparr>) t"
  have "begin_input env i ?t = (cs ! i, t')"
    using begin_port_input [of i t env] t assms(1,2) by (simp add: port_view_def)
  from begin_input_seq [OF _ this] t assms(1) show ?thesis by (simp add: port_view_def get_port_map_port)
qed

theorem sequence_counts_fresh_witness:
  "\<exists>cs f1. begin_ports feeding_env [0..<2] demo = (cs, f1) \<and> pb_seq (pc_buffer (cs ! 0)) = update_seq (get_port 0 f1)"
proof -
  obtain cs f1 where run: "begin_ports feeding_env [0..<2] demo = (cs, f1)" by fastforce
  have d: "data_input (get_port 0 demo)" by (simp add: data_input_def demo_ports in_port_def)
  show ?thesis using sequence_counts_fresh [OF _ d run [folded demo_ports(1)]] run by (simp add: demo_ports)
qed


lemma demo_feeds: "pb_fresh (pc_buffer (fst (begin_ports feeding_env [0..<2] demo) ! 0))"
proof -
  have two: "[0..<2] = [0, 1::nat]" by (simp add: upt_rec)
  have b: "begin_port feeding_env 0 demo = begin_input feeding_env 0 (map_port 0 (\<lambda>p. p\<lparr>port_dmabuf_buf := None\<rparr>) demo)"
    by (rule begin_port_input) (simp_all add: demo_ports data_input_def in_port_def)
  have p: "get_port 0 (map_port 0 (\<lambda>p. p\<lparr>port_dmabuf_buf := None\<rparr>) demo) = in_port"
    by (simp add: get_port_map_port demo_ports in_port_def port_zero_def)
  have "pb_fresh (pc_buffer (fst (begin_port feeding_env 0 demo)))"
    unfolding b
    by (simp add: begin_input_def input_source_def p in_port_def port_zero_def Let_def feeding_env_def quiet_env_def
        pwf_filter_input_buffer_present_def data_present_def first_data_def mapped_data_def hold_new_def split: option.split)
  then show ?thesis by (simp add: two case_prod_beta)
qed


section \<open>Stopping and destroying\<close>

lemma go_ahead:
  "pwf_filter_processing th \<noteq> Some (filter_id f) \<Longrightarrow> on_loop th = None \<Longrightarrow> \<not> fst (pwf_filter_refuse_in_callback th b f)"
  by (cases "loop (conn f)") (auto simp: pwf_filter_refuse_in_callback_def Let_def)

text \<open>C24: safety. Stopping a running filter, draining or not and whatever the loop thread dispatches meanwhile,
  returns every buffer a port held, once, leaves none held, and leaves the lock and the ports' blocks
  in order.\<close>

theorem stop_returns_held_buffers:
  assumes "pwf_filter_processing th \<noteq> Some (filter_id f)" and "on_loop th = None" and "heap_ok f"
    and "filter_state f = PWF_FILTER_STATE_RUNNING" and "i < n_ports f"
    and "filter_stop th sched drain f = (res, g)"
  shows "res = PWF_OK \<and> held_buf (get_port i g) = None \<and>
    port_queued i g = port_queued i f + one (held_buf (get_port i f)) \<and> heap_ok g \<and> held g = held f"
  using filter_stop_spec [OF go_ahead [OF assms(1,2)] assms(3,4,6)] assms(5) by simp

definition holding :: pwf_filter where
  "holding = demo\<lparr>filter_ports := \<lparr>items = [in_port\<lparr>held_buf := Some 7, has_held := True, held_data := Some (Mapped 900)\<rparr>],
     capacity = 4\<rparr>\<rparr>"

lemma holding_heap_ok: "heap_ok holding"
  by (simp add: holding_def demo_def filter_zero_def heap_ok_def blocks_ok_def blocks_unique_def no_leak_def block_def
      block_size_def n_ports_def get_port_def port_mem_ok_def hold_in_block_def in_port_def port_zero_def)

theorem stop_returns_held_buffers_witness:
  "held_buf (get_port 0 (snd (filter_stop app_thread ([[FEv_drained]], []) True holding))) = None"
proof -
  obtain res g where run: "filter_stop app_thread ([[FEv_drained]], []) True holding = (res, g)" by fastforce
  have "filter_state holding = PWF_FILTER_STATE_RUNNING" "n_ports holding = 1"
    by (simp_all add: holding_def demo_def n_ports_def)
  then show ?thesis using stop_returns_held_buffers [OF _ _ holding_heap_ok _ _ run, of 0] run by (simp add: app_thread_def)
qed

text \<open>Destroying a filter frees every block its ports own exactly once: none is left allocated
  and no block is freed or read after it was freed.\<close>

theorem destroy_frees_blocks_once:
  assumes "pwf_filter_processing th \<noteq> Some (filter_id f)" and "on_loop th = None" and "heap_ok f"
  shows "\<exists>g. filter_destroy th evs gl f = (True, g, pwf_pw_global_deinit gl) \<and> faults g = faults f \<and> heap g = Map.empty"
  using filter_destroy_spec [OF go_ahead [OF assms(1,2)] assms(3)] .

theorem destroy_frees_blocks_once_witness:
  "\<exists>f' g. filter_push_port_data (Some 50) (Some (3, 0)) (Some [1, 2, 3]) 3 77 demo = (PWF_OK, f') \<and>
     filter_destroy app_thread [] pw_global_start f' = (True, g, pwf_pw_global_deinit pw_global_start) \<and> heap g = Map.empty"
proof -
  obtain f' where push: "filter_push_port_data (Some 50) (Some (3, 0)) (Some [1, 2, 3]) 3 77 demo = (PWF_OK, f')"
    using demo_push by blast
  have g: "grown_ok (Some 50) 0 demo" by (simp add: grown_ok_def demo_def filter_zero_def)
  have ok: "heap_ok f'" using filter_push_spec(1) [OF demo_heap_ok _ g _ push] by (simp add: demo_ports)
  show ?thesis using destroy_frees_blocks_once [OF _ _ ok, of app_thread "[]" pw_global_start] push
    by (auto simp: app_thread_def)
qed

section \<open>Events\<close>


definition note_on :: pwf_event where
  "note_on = \<lparr>event_offset = 4, event_kind = PWF_EVENT_MIDI, event_key = None, event_data = Some [144, 60, 127], event_size = 3\<rparr>"

lemma note_on_pushable: "pushable note_on" "0 < event_size note_on"
  by (simp_all add: pushable_def pwf_event_kind_key_valid_def note_on_def)


text \<open>C25: bounds. However many events the callback pushes to an output port, what goes out fits the buffer the
  cycle took for it: the encoded sequence is empty or at most as long as the buffer, and it holds
  exactly the accepted events.\<close>

theorem output_events_fit:
  assumes i: "i < n_ports f" and media: "port_media (get_port i f) = PWF_DATA_EVENT"
    and dir: "port_dir (get_port i f) = PWF_FILTER_PORT_OUTPUT"
    and start: "begin_event_output env i f = (c, f1)" and push: "push_events pod_size th i ps f1 = (rs, f2)"
    and ended: "end_port env i (pc_dequeued c) buf f2 = (out, f3)" and got: "pc_dequeued c = Some d"
  shows "\<exists>q. out = Some q \<and> out_events q = concat (map (encode_event \<circ> pending_of_event) (accepted rs ps)) \<and>
    (accepted rs ps = [] \<or> pod_size (out_events q) \<le> unat (maxsize (first_data d)))"
proof -
  note b = begin_event_output_port [OF i start]
  have i1: "i < n_ports f1" and m1: "port_media (get_port i f1) = PWF_DATA_EVENT"
    and d1: "port_dir (get_port i f1) = PWF_FILTER_PORT_OUTPUT" using b i media dir by simp_all
  note p = push_events_port [OF i1 m1 push]
  obtain g where g: "get_port i f2 = (get_port i f1)\<lparr>pending_events := g\<rparr>"
    "items g = map pending_of_event (accepted rs ps)" using p b(1) by auto
  have fit: "fits pod_size (get_port i f2)" using p d1 b(1) by (simp add: fits_def)
  have enc: "pwf_filter_event_encode (get_port i f2) = concat (map (encode_event \<circ> pending_of_event) (accepted rs ps))"
    using g by (simp add: pwf_filter_event_encode_def)
  have cap: "event_output_capacity (get_port i f2) = unat (maxsize (first_data d))" using g b(2) got by simp
  have "out = Some \<lparr>out_port = i, out_size = out_chunk d (ce_pod_size env (pwf_filter_event_encode (get_port i f2))),
      out_events = pwf_filter_event_encode (get_port i f2)\<rparr>"
    using ended got g m1 d1 by (auto simp: end_port_def pwf_filter_event_finish_output_def Let_def split: prod.splits)
  then show ?thesis using fit enc cap g by (auto simp: fits_def)
qed

definition event_out :: pwf_filter where
  "event_out = demo\<lparr>filter_ports := \<lparr>items = [port_zero\<lparr>port_dir := PWF_FILTER_PORT_OUTPUT, port_media := PWF_DATA_EVENT\<rparr>],
     capacity = 4\<rparr>\<rparr>"

theorem output_events_fit_witness:
  "\<exists>c f1 rs f2 out f3. begin_event_output feeding_env 0 event_out = (c, f1) \<and>
     push_events (\<lambda>cs. 16 + 24 * length cs) app_thread 0 [(\<lambda>_. True, True, note_on), (\<lambda>_. True, True, note_on), (\<lambda>_. True, True, note_on)] f1
       = (rs, f2) \<and>
     end_port feeding_env 0 (pc_dequeued c) (empty_buffer 0) f2 = (out, f3) \<and> out \<noteq> None"
proof -
  obtain c f1 where a: "begin_event_output feeding_env 0 event_out = (c, f1)" by fastforce
  obtain rs f2 where p: "push_events (\<lambda>cs. 16 + 24 * length cs) app_thread 0
      [(\<lambda>_. True, True, note_on), (\<lambda>_. True, True, note_on), (\<lambda>_. True, True, note_on)] f1 = (rs, f2)" by fastforce
  obtain out f3 where e: "end_port feeding_env 0 (pc_dequeued c) (empty_buffer 0) f2 = (out, f3)" by fastforce
  have port: "0 < n_ports event_out" "port_media (get_port 0 event_out) = PWF_DATA_EVENT"
    "port_dir (get_port 0 event_out) = PWF_FILTER_PORT_OUTPUT"
    by (simp_all add: event_out_def n_ports_def get_port_def)
  obtain d where "pc_dequeued c = Some d"
    using a by (auto simp: begin_event_output_def Let_def feeding_env_def data_present_def first_data_def mapped_data_def)
  from output_events_fit [OF port a p e this] show ?thesis using a p e by blast
qed



section \<open>Lost sources, settings and refusals\<close>



lemma unat_period: "unat (ucast (w :: u32) :: u64) = unat w"
  using unat_u32_bound [of w] by (simp add: unsigned_ucast_eq take_bit_nat_eq_self)

text \<open>The period hint becomes a number of samples at 48 kHz, rounded down but never zero, without
  overflow for any period the API takes.\<close>

theorem period_hint_exact:
  "unat (pwf_filter_period_hint_num period) = max 1 (unat period * 48000 div 1000000000)"
proof -
  have p: "unat period < 2 ^ 32" by (rule unat_u32_bound)
  then have "unat (ucast period * 48000 :: u64) = unat period * 48000"
    by (simp add: unat_word_ariths unat_period)
  then have q: "unat (ucast period * 48000 div 1000000000 :: u64) = unat period * 48000 div 1000000000"
    by (simp add: unat_div)
  have small: "unat period * 48000 div 1000000000 < 2 ^ 32" using p by simp
  have "unat (ucast (w :: u64) :: u32) = unat w" if "unat w < 2 ^ 32" for w
    using that by (simp add: unsigned_ucast_eq take_bit_nat_eq_self)
  then show ?thesis using q small by (simp add: pwf_filter_period_hint_num_def Let_def word_less_nat_alt max_def)
qed

text \<open>From inside the filter's own callback, starting, stopping and destroying it are refused and
  leave only a logged error.\<close>

theorem filter_refused_in_callback:
  assumes "pwf_filter_processing th = Some (filter_id f)"
  shows "filter_start th ans f = (PWF_ERR_IN_CALLBACK, emit [Log PWF_LOG_ERROR] f) \<and>
    filter_stop th sched drain f = (PWF_ERR_IN_CALLBACK, emit [Log PWF_LOG_ERROR] f) \<and>
    filter_destroy th evs gl f = (False, emit [Log PWF_LOG_ERROR] f, gl)"
  using assms by (simp add: filter_start_def filter_stop_def filter_destroy_def pwf_filter_refuse_in_callback_def Let_def)

theorem filter_refused_in_callback_witness:
  "fst (filter_start (app_thread\<lparr>pwf_filter_processing := Some 3\<rparr>) 0 demo) = PWF_ERR_IN_CALLBACK"
  using filter_refused_in_callback [of "app_thread\<lparr>pwf_filter_processing := Some 3\<rparr>" demo 0] by (simp add: demo_def)

end
