(* ===== verification/Pwf_Filter_Port_Link.thy ===== *)
theory Pwf_Filter_Port_Link
  imports Pwf_Filter_Lifetime Pwf_Video_Enum
begin

text \<open>
  \<^verbatim>\<open>src/pwf_filter_port_link.c\<close>: finding the node and port a target string names, reading a node's
  formats, linking an input port to it and undoing the link. The link's event handler and the
  release of links are in \<open>Pwf_Filter_State\<close>, since starting and stopping a filter needs them.
\<close>

definition PWF_OWN_PORT_ATTEMPTS :: nat where "PWF_OWN_PORT_ATTEMPTS = 100"

definition PWF_TARGET_PORT_ATTEMPTS :: nat where "PWF_TARGET_PORT_ATTEMPTS = 10"

definition PWF_MAX_TARGET_PORTS :: nat where "PWF_MAX_TARGET_PORTS = 64"

section \<open>Targets\<close>

definition str_is_all_digits :: "string \<Rightarrow> bool" where
  "str_is_all_digits s \<longleftrightarrow> s \<noteq> [] \<and> list_all is_digit s"

text \<open>A node by serial when the string is all digits, by name otherwise; 0 when there is none.\<close>

definition find_target_node :: "pwf_pw_registry \<Rightarrow> string \<Rightarrow> u32" where
  "find_target_node reg s =
     (if str_is_all_digits s then pwf_pw_registry_find_node_by_serial reg (c_strtoull s)
      else pwf_pw_registry_find_node_by_name reg s)"

definition pwf_resolve_target_node :: "pwf_pw_registry \<Rightarrow> string \<Rightarrow> u32 \<times> string option" where
  "pwf_resolve_target_node reg t =
     (let nid = find_target_node reg t in
      if nid \<noteq> 0 then (nid, None)
      else case c_strrchr (CHR '':'') t of
          None \<Rightarrow> (0, None)
        | Some (node_part, port_part) \<Rightarrow>
            if node_part = [] \<or> port_part = [] then (0, None)
            else if 256 \<le> length node_part then (0, None)
            else
              let nid2 = find_target_node reg node_part in
              if nid2 = 0 then (0, None) else (nid2, Some port_part))"

text \<open>The retries: \<open>left\<close> is the number of attempts still allowed, and what each sync is answered.\<close>

fun pick_attempts :: "(nat \<Rightarrow> filter_event sync_env) \<Rightarrow> u32 \<Rightarrow> nat \<Rightarrow> pwf_filter \<Rightarrow> u32 \<times> pwf_filter" where
  "pick_attempts env nid 0 f = (0, f)"
| "pick_attempts env nid (Suc left) f =
     (case pwf_pw_registry_list_ports (registry f) nid SPA_DIRECTION_OUTPUT True PWF_MAX_TARGET_PORTS of
        (n, outs) \<Rightarrow>
          if 0 < n
          then (port_id (hd (the outs)), if 1 < n then emit [Log PWF_LOG_DEBUG] f else f)
          else case pwf_pw_registry_sync filter_dispatch (env left) f of
              (res, f1) \<Rightarrow> if res < 0 then (0, f1) else pick_attempts env nid left f1)"

definition pwf_pick_target_port :: "(nat \<Rightarrow> filter_event sync_env) \<Rightarrow> u32 \<Rightarrow> pwf_filter \<Rightarrow> u32 \<times> pwf_filter" where
  "pwf_pick_target_port env nid = pick_attempts env nid PWF_TARGET_PORT_ATTEMPTS"

text \<open>The node and the port; both 0 when nothing matches.\<close>

definition pwf_resolve_target ::
    "(nat \<Rightarrow> filter_event sync_env) \<Rightarrow> string \<Rightarrow> pwf_filter \<Rightarrow> (u32 \<times> u32) \<times> pwf_filter" where
  "pwf_resolve_target env t f =
     (case pwf_resolve_target_node (registry f) t of
        (nid, part) \<Rightarrow>
          if nid = 0 then ((0, 0), f)
          else case part of
              None \<Rightarrow> (case pwf_pick_target_port env nid f of (pid, f1) \<Rightarrow> ((nid, pid), f1))
            | Some name \<Rightarrow>
                let pid = pwf_pw_registry_find_port (registry f) nid name SPA_DIRECTION_OUTPUT in
                if pid = 0 then ((0, 0), f) else ((nid, pid), f))"

definition pwf_filter_get_target_video_formats ::
    "pwf_thread \<Rightarrow> bool \<Rightarrow> filter_event sync_env \<Rightarrow> filter_event sync_env \<Rightarrow> nat option \<Rightarrow>
     (spa_param_type \<times> enum_format_param option) list \<Rightarrow> string option \<Rightarrow>
     pwf_video_format_info list option \<Rightarrow> nat \<Rightarrow> bool \<Rightarrow> pwf_filter option \<Rightarrow>
     (pwf_error \<times> nat \<times> pwf_video_format_info list option) \<times> pwf_filter option" where
  "pwf_filter_get_target_video_formats th got env env2 node params t out out_len has_found h =
     (if \<not> has_found then ((PWF_ERR_INVALID_ARG, 0, out), h)
      else on_handle (PWF_ERR_INVALID_ARG, 0, out)
        (\<lambda>f. case t of
           None \<Rightarrow> ((PWF_ERR_INVALID_ARG, 0, out), f)
         | Some name \<Rightarrow>
             (case pwf_filter_refuse_in_callback th True f of
                (True, f1) \<Rightarrow> ((PWF_ERR_IN_CALLBACK, 0, out), f1)
              | (False, f1) \<Rightarrow>
                  (case pwf_pw_registry_bind filter_dispatch got env f1 of
                     (res, f2) \<Rightarrow>
                       if res < 0 then ((pwf_pw_error_from_sync res, 0, out), f2)
                       else
                         let nid = fst (pwf_resolve_target_node (registry f2) name) in
                         if nid = 0 then ((PWF_ERR_NOT_FOUND, 0, out), emit [Log PWF_LOG_WARNING] f2)
                         else pwf_pw_enum_video_formats filter_dispatch env2 node params nid out out_len
                                has_found f2))) h)"

section \<open>Our own port\<close>

text \<open>
  One attempt: what \<open>pw_filter_get_node_id\<close> answers, the events the loop thread dispatches during
  the \<open>usleep\<close>, and the sync after it.
\<close>

record own_attempt =
  oa_node_id :: u32
  oa_sleep :: "filter_event list"
  oa_sync :: "filter_event sync_env"

fun own_attempts :: "(nat \<Rightarrow> own_attempt) \<Rightarrow> nat \<Rightarrow> nat \<Rightarrow> pwf_filter \<Rightarrow> u32 \<times> pwf_filter" where
  "own_attempts env i 0 f = (0, f)"
| "own_attempts env i (Suc left) f =
     (let nid = oa_node_id (env left);
          f1 = (if nid \<noteq> SPA_ID_INVALID
                then map_port i (\<lambda>p. p\<lparr>own_global_id := pwf_pw_registry_find_port (registry f) nid
                                                          (pw_port_name p) SPA_DIRECTION_INPUT\<rparr>) f
                else f)
      in if nid \<noteq> SPA_ID_INVALID \<and> own_global_id (get_port i f1) \<noteq> 0 then (own_global_id (get_port i f1), f1)
         else case pwf_pw_registry_sync filter_dispatch (oa_sync (env left)) (fold filter_dispatch (oa_sleep (env left)) f1) of
             (res, f2) \<Rightarrow> if res < 0 then (0, f2) else own_attempts env i left f2)"

definition pwf_resolve_own_port_id :: "(nat \<Rightarrow> own_attempt) \<Rightarrow> nat \<Rightarrow> pwf_filter \<Rightarrow> u32 \<times> pwf_filter" where
  "pwf_resolve_own_port_id env i f =
     (if own_global_id (get_port i f) \<noteq> 0 then (own_global_id (get_port i f), f)
      else own_attempts env i PWF_OWN_PORT_ATTEMPTS f)"

section \<open>Linking\<close>

text \<open>What the outside answers over a whole link request.\<close>

record port_link_env =
  pl_got_registry :: bool
  pl_bind :: "filter_event sync_env"
  pl_pick :: "nat \<Rightarrow> filter_event sync_env"
  pl_own :: "nat \<Rightarrow> own_attempt"
  pl_node_id :: u32
  pl_props_ok :: bool
  pl_proxy :: "nat option"
  pl_sched :: "filter_event schedule"

definition port_link_props :: "u32 \<Rightarrow> u32 \<Rightarrow> u32 \<Rightarrow> u32 \<Rightarrow> (string \<times> string) list" where
  "port_link_props inn inp outn outp =
     [(''link.input.node'', id_string inn), (''link.input.port'', id_string inp),
      (''link.output.node'', id_string outn)] @
     (if outp \<noteq> 0 then [(''link.output.port'', id_string outp)] else [])"

definition wait_done :: "nat \<Rightarrow> pwf_filter \<Rightarrow> bool" where
  "wait_done i f = (case link_wait (get_port i f) of Some (fin, _) \<Rightarrow> fin | None \<Rightarrow> False)"

text \<open>From the creation of the link on, the caller holding the lock: the wait and its outcome.\<close>

definition await_link :: "nat \<Rightarrow> nat \<Rightarrow> filter_event schedule \<Rightarrow> pwf_filter \<Rightarrow> pwf_error \<times> pwf_filter" where
  "await_link i proxy sched f =
     (let f1 = map_port i (\<lambda>p. p\<lparr>port_link_proxy := Some proxy, link_state_seen_active := False, link_lost := False,
                                 link_wait := Some (False, PWF_ERR_CONNECT_FAILED)\<rparr>) f
      in case loop_wait (wait_done i) filter_dispatch (fst sched) (snd sched) f1 of
           (settled, f2) \<Rightarrow>
             let (fin, res) = the (link_wait (get_port i f2));
                 res1 = (if settled then res else PWF_ERR_TIMEOUT);
                 f3 = map_port i (\<lambda>p. p\<lparr>link_wait := None\<rparr>) f2;
                 result = (if fin then res1 else PWF_ERR_TIMEOUT)
             in (result, if failed result then pwf_filter_port_link_release i f3 else f3))"

definition create_port_link ::
    "port_link_env \<Rightarrow> nat \<Rightarrow> u32 \<Rightarrow> u32 \<Rightarrow> u32 \<Rightarrow> pwf_filter \<Rightarrow> pwf_error \<times> pwf_filter" where
  "create_port_link env i own_port_id target_node_id target_port_id f =
     (if \<not> pl_props_ok env then (PWF_ERR_NO_MEMORY, f)
      else
        let f1 = emit [Loop_lock, Link_create (port_link_props (pl_node_id env) own_port_id target_node_id target_port_id)] f
        in case pl_proxy env of
             None \<Rightarrow> (PWF_ERR_CONNECT_FAILED, emit [Loop_unlock, Log PWF_LOG_ERROR] f1)
           | Some proxy \<Rightarrow>
               (case await_link i proxy (pl_sched env) f1 of
                  (result, f2) \<Rightarrow>
                    (result, emit ([Loop_unlock] @ (if failed result then [Log PWF_LOG_WARNING] else [])) f2)))"

definition port_link ::
    "pwf_thread \<Rightarrow> port_link_env \<Rightarrow> nat \<Rightarrow> string option \<Rightarrow> pwf_filter \<Rightarrow> pwf_error \<times> pwf_filter" where
  "port_link th env i t f =
     (case t of
        None \<Rightarrow> (PWF_ERR_INVALID_ARG, f)
      | Some name \<Rightarrow>
          if name = [] then (PWF_ERR_INVALID_ARG, f)
          else if port_dir (get_port i f) \<noteq> PWF_FILTER_PORT_INPUT then (PWF_ERR_INVALID_ARG, f)
          else case pwf_filter_refuse_in_callback th True f of
              (True, f1) \<Rightarrow> (PWF_ERR_IN_CALLBACK, f1)
            | (False, f1) \<Rightarrow>
                if port_link_proxy (get_port i f1) \<noteq> None then (PWF_ERR_INVALID_ARG, f1)
                else if filter_state f1 \<noteq> PWF_FILTER_STATE_RUNNING then (PWF_ERR_NOT_CONFIGURED, f1)
                else case pwf_pw_registry_bind filter_dispatch (pl_got_registry env) (pl_bind env) f1 of
                    (res, f2) \<Rightarrow>
                      if res < 0 then (pwf_pw_error_from_sync res, f2)
                      else case pwf_resolve_target (pl_pick env) name f2 of
                          ((nid, pid), f3) \<Rightarrow>
                            if nid = 0 then (PWF_ERR_NOT_FOUND, emit [Log PWF_LOG_WARNING] f3)
                            else case pwf_resolve_own_port_id (pl_own env) i f3 of
                                (own, f4) \<Rightarrow>
                                  if own = 0 then (PWF_ERR_CONNECT_FAILED, emit [Log PWF_LOG_WARNING] f4)
                                  else create_port_link env i own nid pid f4)"

definition pwf_filter_port_link ::
    "pwf_thread \<Rightarrow> port_link_env \<Rightarrow> nat option \<Rightarrow> string option \<Rightarrow> pwf_filter \<Rightarrow> pwf_error \<times> pwf_filter" where
  "pwf_filter_port_link th env port t f =
     (case port of None \<Rightarrow> (PWF_ERR_INVALID_ARG, f) | Some i \<Rightarrow> port_link th env i t f)"

definition pwf_filter_port_unlink :: "pwf_thread \<Rightarrow> nat option \<Rightarrow> pwf_filter \<Rightarrow> pwf_error \<times> pwf_filter" where
  "pwf_filter_port_unlink th port f =
     (case port of
        None \<Rightarrow> (PWF_ERR_INVALID_ARG, f)
      | Some i \<Rightarrow>
          if port_dir (get_port i f) \<noteq> PWF_FILTER_PORT_INPUT then (PWF_ERR_INVALID_ARG, f)
          else case pwf_filter_refuse_in_callback th False f of
              (True, f1) \<Rightarrow> (PWF_ERR_IN_CALLBACK, f1)
            | (False, f1) \<Rightarrow>
                if port_link_proxy (get_port i f1) = None then (PWF_ERR_NOT_CONFIGURED, f1)
                else (PWF_OK, emit [Loop_unlock] (pwf_filter_port_link_release i (emit [Loop_lock] f1))))"

end
