(* ===== verification/Pwf_Filter_Link_Facts.thy ===== *)
theory Pwf_Filter_Link_Facts
  imports Pwf_Filter_Port_Link
begin

text \<open>
  What linking a port changes: the port's own link fields and nothing else of the filter. The facts
  follow a link request through its lookups and waits, up to the outcome of the negotiation.
\<close>

section \<open>Filters that differ in their ports' link fields\<close>

text \<open>\<open>same_filter\<close> with a coarser view of a port.\<close>

definition same_upto :: "(pwf_filter_port \<Rightarrow> 'v) \<Rightarrow> pwf_filter \<Rightarrow> pwf_filter \<Rightarrow> bool" where
  "same_upto view f0 f \<longleftrightarrow>
     filter_id f = filter_id f0 \<and> filter_name f = filter_name f0 \<and> filter_state f = filter_state f0 \<and>
     process_cb f = process_cb f0 \<and> filter_error_cb f = filter_error_cb f0 \<and> pw_filter f = pw_filter f0 \<and>
     period_hint_ns f = period_hint_ns f0 \<and> heap f = heap f0 \<and> faults f = faults f0 \<and>
     capacity (filter_ports f) = capacity (filter_ports f0) \<and> n_ports f = n_ports f0 \<and>
     (\<forall>i<n_ports f0. view (get_port i f) = view (get_port i f0))"

lemma same_upto_refl [simp]: "same_upto view f f"
  by (simp add: same_upto_def)

lemma same_upto_trans: "same_upto view a b \<Longrightarrow> same_upto view b c \<Longrightarrow> same_upto view a c"
  by (simp add: same_upto_def)

lemma same_filter_upto:
  "same_filter f g \<Longrightarrow> (\<And>p q. port_core p = port_core q \<Longrightarrow> view p = view q) \<Longrightarrow> same_upto view f g"
  unfolding same_upto_def same_filter_def by blast

lemma same_upto_emit [simp]: "same_upto view f (emit cs g) = same_upto view f g"
  by (simp add: same_upto_def)

lemma same_upto_map_port:
  "i < n_ports f \<Longrightarrow> view (u (get_port i f)) = view (get_port i f) \<Longrightarrow> same_upto view f (map_port i u f)"
  by (simp add: same_upto_def get_port_map_port)

text \<open>A port without its link fields, the id of its own global included.\<close>

definition link_core :: "pwf_filter_port \<Rightarrow> pwf_filter_port" where
  "link_core p = (port_core p)\<lparr>own_global_id := 0, port_link_proxy := None\<rparr>"

text \<open>The same, where the link itself stays as it is.\<close>

definition own_core :: "pwf_filter_port \<Rightarrow> pwf_filter_port" where
  "own_core p = (port_core p)\<lparr>own_global_id := 0\<rparr>"

lemma link_core_own: "own_core p = own_core q \<Longrightarrow> link_core p = link_core q"
proof -
  have "link_core r = (own_core r)\<lparr>port_link_proxy := None\<rparr>" for r
    by (simp add: link_core_def own_core_def)
  then show "own_core p = own_core q \<Longrightarrow> link_core p = link_core q" by simp
qed

lemma same_filter_own: "same_filter f g \<Longrightarrow> same_upto own_core f g"
  by (rule same_filter_upto) (simp_all add: own_core_def)

lemma same_own_links: "same_upto own_core f g \<Longrightarrow> same_upto link_core f g"
  unfolding same_upto_def using link_core_own by blast

lemma same_own_proxy:
  assumes "same_upto own_core f g" and "j < n_ports f"
  shows "port_link_proxy (get_port j g) = port_link_proxy (get_port j f)"
proof -
  have "port_link_proxy (own_core (get_port j g)) = port_link_proxy (own_core (get_port j f))"
    using assms by (simp add: same_upto_def)
  then show ?thesis by (simp add: own_core_def port_core_def)
qed

lemma same_links_memory: "same_upto link_core f g \<Longrightarrow> same_memory f g"
proof -
  have "mem_fields p = mem_fields (link_core p)" for p
    by (simp add: link_core_def port_core_def mem_fields_def)
  then show "same_upto link_core f g \<Longrightarrow> same_memory f g"
    unfolding same_upto_def same_memory_def by metis
qed

text \<open>Whether a link call is blocked on a port, across any wait.\<close>

interpretation filter_waiting: client_inv filter_dispatch "\<lambda>f. (link_wait (get_port k f) = None) = b" for k b
  by unfold_locales (simp_all add: filter_dispatch_wait)

interpretation filter_own: client_inv filter_dispatch "same_upto own_core f0" for f0
proof
  fix c e
  assume "same_upto own_core f0 c"
  then show "same_upto own_core f0 (filter_dispatch e c)"
    using filter_dispatch_keeps same_filter_own same_upto_trans by blast
qed (simp_all add: same_upto_def n_ports_def get_port_def)

section \<open>The lookups\<close>

text \<open>Up to the creation of the link, a request only binds the registry, waits and learns ids.\<close>

definition waited :: "pwf_filter \<Rightarrow> pwf_filter \<Rightarrow> bool" where
  "waited f g \<longleftrightarrow>
     same_upto own_core f g \<and> held g = held f \<and> loop (conn g) = loop (conn f) \<and> core (conn g) = core (conn f) \<and>
     (registry_ok (registry f) \<longrightarrow> registry_ok (registry g)) \<and>
     (\<forall>k. (link_wait (get_port k g) = None) = (link_wait (get_port k f) = None))"

lemma waited_refl [simp]: "waited f f"
  by (simp add: waited_def)

lemma waited_trans: "waited f g \<Longrightarrow> waited g h \<Longrightarrow> waited f h"
  unfolding waited_def using same_upto_trans by metis

lemma waited_emit [simp]: "lock_depth cs = 0 \<Longrightarrow> waited f (emit cs g) = waited f g"
  by (simp add: waited_def)

lemma waited_ports: "waited f g \<Longrightarrow> n_ports g = n_ports f"
  by (simp add: waited_def same_upto_def)

lemma dispatch_waited: "waited f (filter_dispatch e f)"
  using filter_dispatch_keeps [of f e]
  by (simp add: waited_def same_filter_own same_client_def filter_dispatch_wait)

lemma fold_dispatch_waited: "waited f (fold filter_dispatch evs f)"
proof (induction evs arbitrary: f)
  case (Cons e evs)
  then show ?case using dispatch_waited waited_trans by fastforce
qed simp

lemma sync_waited:
  assumes "pwf_pw_registry_sync filter_dispatch env f = (r, g)"
  shows "waited f g"
  using filter_own.registry_sync_inv [OF _ assms, of f] filter_loop.registry_sync_spec(1) [OF assms]
    filter_waiting.registry_sync_inv [OF refl assms]
  by (simp add: waited_def same_client_def)

lemma bind_waited:
  assumes "pwf_pw_registry_bind filter_dispatch got env f = (r, g)"
  shows "waited f g"
  using filter_own.bind_inv [OF _ assms, of f] filter_loop.bind_spec(1-3, 6) [OF assms]
    filter_waiting.bind_inv [OF refl assms]
  by (simp add: waited_def)

lemma pick_waited:
  assumes "pick_attempts env nid k f = (p, g)"
  shows "waited f g"
  using assms
proof (induction k arbitrary: f)
  case (Suc k)
  obtain r h where s: "pwf_pw_registry_sync filter_dispatch (env k) f = (r, h)" by fastforce
  show ?case using Suc sync_waited [OF s] s
    by (auto simp: list_ports_eq intro: waited_trans split: if_splits)
qed simp

text \<open>The port picked: the first of the node's output ports in ordinal order, if they have arrived.\<close>

lemma pick_port:
  assumes "pick_attempts env nid k f = (p, g)" and "p \<noteq> 0"
  shows "node_ports (registry g) nid SPA_DIRECTION_OUTPUT \<noteq> [] \<and>
    p = port_id (hd (sort_key ordinal (take PWF_MAX_TARGET_PORTS (node_ports (registry g) nid SPA_DIRECTION_OUTPUT))))"
  using assms
proof (induction k arbitrary: f)
  case (Suc k)
  obtain r h where s: "pwf_pw_registry_sync filter_dispatch (env k) f = (r, h)" by fastforce
  show ?case
  proof (cases "node_ports (registry f) nid SPA_DIRECTION_OUTPUT = []")
    case True
    then show ?thesis using Suc s by (simp add: list_ports_eq split: if_splits)
  next
    case False
    then show ?thesis using Suc.prems by (auto simp: list_ports_eq split: if_splits)
  qed
qed simp

lemma resolve_waited:
  assumes "pwf_resolve_target env t f = (p, g)"
  shows "waited f g"
  using assms pick_waited
  by (auto simp: pwf_resolve_target_def pwf_pick_target_port_def Let_def split: prod.splits if_splits option.splits)

lemma own_id_waited:
  "i < n_ports f \<Longrightarrow> waited f (map_port i (\<lambda>p. p\<lparr>own_global_id := u p\<rparr>) f)"
  by (auto simp: waited_def own_core_def port_core_def get_port_map_port intro!: same_upto_map_port)

lemma own_attempts_waited:
  assumes "own_attempts env i k f = (p, g)" and "i < n_ports f"
  shows "waited f g"
  using assms
proof (induction k arbitrary: f)
  case (Suc k)
  define f1 where "f1 = (if oa_node_id (env k) \<noteq> SPA_ID_INVALID
      then map_port i (\<lambda>p. p\<lparr>own_global_id := pwf_pw_registry_find_port (registry f) (oa_node_id (env k))
                               (pw_port_name p) SPA_DIRECTION_INPUT\<rparr>) f else f)"
  have f1: "waited f f1" using own_id_waited [OF Suc.prems(2)] by (simp add: f1_def)
  obtain r h where s: "pwf_pw_registry_sync filter_dispatch (oa_sync (env k)) (fold filter_dispatch (oa_sleep (env k)) f1) = (r, h)"
    by fastforce
  have h: "waited f h" using f1 fold_dispatch_waited sync_waited [OF s] waited_trans by blast
  have "i < n_ports h" using waited_ports [OF h] Suc.prems(2) by simp
  moreover have "own_attempts env i (Suc k) f =
      (if oa_node_id (env k) \<noteq> SPA_ID_INVALID \<and> own_global_id (get_port i f1) \<noteq> 0 then (own_global_id (get_port i f1), f1)
       else if r < 0 then (0, h) else own_attempts env i k h)"
    unfolding own_attempts.simps Let_def f1_def [symmetric] s by simp
  ultimately show ?case using Suc.prems(1) Suc.IH [of h] h f1 waited_trans by (auto split: if_splits)
qed simp

lemma own_port_waited:
  "pwf_resolve_own_port_id env i f = (p, g) \<Longrightarrow> i < n_ports f \<Longrightarrow> waited f g"
  by (auto simp: pwf_resolve_own_port_id_def own_attempts_waited split: if_splits)

section \<open>The negotiation\<close>

text \<open>What an event says about the link of port \<open>i\<close>, if it decides it.\<close>

definition link_answer :: "nat \<Rightarrow> filter_event \<Rightarrow> pwf_error option" where
  "link_answer i e =
     (case e of
        FEv_link_info j state_changed st \<Rightarrow>
          if j \<noteq> i \<or> \<not> state_changed then None
          else if st = PW_LINK_STATE_PAUSED \<or> st = PW_LINK_STATE_ACTIVE then Some PWF_OK
          else if st = PW_LINK_STATE_ERROR \<or> st = PW_LINK_STATE_UNLINKED then Some PWF_ERR_INVALID_FORMAT
          else None
      | _ \<Rightarrow> None)"

definition link_answers :: "nat \<Rightarrow> filter_event list \<Rightarrow> pwf_error list" where
  "link_answers i evs = List.map_filter (link_answer i) evs"

text \<open>The last word of the first wake-up that has one.\<close>

definition negotiated :: "nat \<Rightarrow> filter_event list list \<Rightarrow> pwf_error" where
  "negotiated i wakes =
     (case dropWhile (\<lambda>w. link_answers i w = []) wakes of
        [] \<Rightarrow> PWF_ERR_TIMEOUT
      | w # _ \<Rightarrow> last (link_answers i w))"

text \<open>A link being negotiated.\<close>

definition negotiating :: "nat \<Rightarrow> pwf_filter \<Rightarrow> bool" where
  "negotiating i f \<longleftrightarrow> i < n_ports f \<and> port_link_proxy (get_port i f) \<noteq> None \<and> link_wait (get_port i f) \<noteq> None"

lemma dispatch_negotiating: "negotiating i f \<Longrightarrow> negotiating i (filter_dispatch e f)"
  using dispatch_waited [of f e] same_own_proxy [of f "filter_dispatch e f" i] waited_ports [of f "filter_dispatch e f"]
  by (auto simp: negotiating_def waited_def)

lemma fold_negotiating: "negotiating i f \<Longrightarrow> negotiating i (fold filter_dispatch evs f)"
  by (induction evs arbitrary: f) (auto simp: dispatch_negotiating)

lemma claim_wait_all:
  assumes "i < n_ports f"
  shows "link_wait (get_port k (snd (pwf_filter_claim_source_loss i f))) = link_wait (get_port k f)"
  using assms by (simp add: pwf_filter_claim_source_loss_def get_port_map_port)

lemma dispatch_answer:
  assumes "negotiating i f"
  shows "link_wait (get_port i (filter_dispatch e f)) =
    (case link_answer i e of Some r \<Rightarrow> Some (True, r) | None \<Rightarrow> link_wait (get_port i f))"
proof (cases e)
  case (FEv_param_changed port prm param)
  then show ?thesis by (auto simp: link_answer_def param_changed_wait)
next
  case (FEv_link_info j ch st)
  show ?thesis
  proof (cases "j = i")
    case True
    with assms FEv_link_info show ?thesis
      by (auto simp: negotiating_def link_answer_def pwf_filter_link_on_info_def Let_def get_port_map_port)
  next
    case False
    obtain b g where c: "pwf_filter_claim_source_loss j
        (map_port j (\<lambda>p. p\<lparr>link_state_seen_active := False, link_lost := True\<rparr>) f) = (b, g)" by fastforce
    have "j < n_ports f \<Longrightarrow> link_wait (get_port i g) = link_wait (get_port i f)"
      using claim_wait [OF _ c, of i] False by (simp add: get_port_map_port)
    with False c FEv_link_info show ?thesis
      by (cases b)
         (auto simp: link_answer_def pwf_filter_link_on_info_def call_filter_error_cb_def Let_def get_port_map_port)
  qed
qed (simp_all add: link_answer_def pwf_filter_on_drained_def)

lemma fold_answer:
  assumes "negotiating i f"
  shows "link_wait (get_port i (fold filter_dispatch evs f)) =
    (if link_answers i evs = [] then link_wait (get_port i f) else Some (True, last (link_answers i evs)))"
proof (induction evs rule: rev_induct)
  case (snoc e evs)
  then show ?case
    by (simp add: dispatch_answer [OF fold_negotiating [OF assms]] link_answers_def map_filter_def
        split: option.split)
qed (simp add: link_answers_def map_filter_def)

lemma wait_answer:
  assumes "negotiating i f" and "link_wait (get_port i f) = Some (False, x)"
    and "loop_wait (wait_done i) filter_dispatch wakes late f = (b, g)"
  shows "negotiating i g \<and>
    (case dropWhile (\<lambda>w. link_answers i w = []) wakes of
       [] \<Rightarrow> \<not> b
     | w # _ \<Rightarrow> b \<and> link_wait (get_port i g) = Some (True, last (link_answers i w)))"
  using assms
proof (induction wakes arbitrary: f)
  case Nil
  then show ?case by (auto simp: wait_done_def fold_negotiating)
next
  case (Cons w wakes)
  let ?f = "fold filter_dispatch w f"
  have n: "negotiating i ?f" by (rule fold_negotiating) (rule Cons.prems)
  have run: "loop_wait (wait_done i) filter_dispatch wakes late ?f = (b, g)"
    using Cons.prems(3) by (simp add: wait_done_def [of i f] Cons.prems(2))
  show ?case
  proof (cases "link_answers i w = []")
    case True
    then have "link_wait (get_port i ?f) = Some (False, x)"
      using fold_answer [OF Cons.prems(1), of w] Cons.prems(2) by simp
    with Cons.IH [OF n _ run] True show ?thesis by simp
  next
    case False
    then have d: "link_wait (get_port i ?f) = Some (True, last (link_answers i w))"
      using fold_answer [OF Cons.prems(1), of w] by simp
    then have "wait_done i ?f" by (simp add: wait_done_def)
    with run have "b" "g = ?f" by auto
    with False d n show ?thesis by simp
  qed
qed

text \<open>The loop thread's callbacks take no lock and destroy no proxy.\<close>

definition counted :: "pw_call \<Rightarrow> 'a pwf_client_scheme \<Rightarrow> nat" where
  "counted c f = count_list (calls f) c"

lemma counted_emit: "counted c (emit cs f) = counted c f + count_list cs c"
  by (simp add: counted_def)

lemma counted_update [simp]:
  "counted c (map_port i u f) = counted c f" "counted c (f\<lparr>conn := x\<rparr>) = counted c f" "counted c (f\<lparr>registry := r\<rparr>) = counted c f"
  by (simp_all add: counted_def)

lemma destroyed_map_port [simp]: "destroyed q (map_port i u f) = destroyed q f"
  by (simp add: destroyed_def)

lemma claim_counted: "pwf_filter_claim_source_loss i f = (b, g) \<Longrightarrow> counted c g = counted c f"
  by (auto simp: pwf_filter_claim_source_loss_def split: if_splits)

lemma dispatch_counted:
  assumes "c = Loop_lock \<or> c = Proxy_destroy q"
  shows "counted c (filter_dispatch e f) = counted c f"
proof -
  have ne: "Log n \<noteq> c" "Loop_signal \<noteq> c" "Port_error_callback k err \<noteq> c" "Filter_update_params k params \<noteq> c"
    for n k err params using assms by auto
  show ?thesis
  proof (cases e)
    case (FEv_param_changed port prm param)
    show ?thesis
    proof (cases port)
      case None
      then show ?thesis using FEv_param_changed by (simp add: pwf_filter_on_param_changed_def)
    next
      case (Some i)
      obtain b g where cl: "pwf_filter_claim_source_loss i f = (b, g)" by fastforce
      have "counted c (pwf_filter_on_param_changed port prm param f) = counted c f"
        using Some cl claim_counted [OF cl, of c]
        by (cases b)
           (auto simp: pwf_filter_on_param_changed_def filter_callback_defs Let_def counted_emit ne
            split: option.split port_config.split prod.split)
      then show ?thesis using FEv_param_changed by simp
    qed
  next
    case (FEv_link_info i ch st)
    let ?down = "map_port i (\<lambda>p. p\<lparr>link_state_seen_active := False, link_lost := True\<rparr>) f"
    obtain b g where cl: "pwf_filter_claim_source_loss i ?down = (b, g)" by fastforce
    have "counted c (pwf_filter_link_on_info i ch st f) = counted c f"
      using cl claim_counted [OF cl, of c]
      by (cases b) (auto simp: pwf_filter_link_on_info_def call_filter_error_cb_def Let_def counted_emit ne)
    then show ?thesis using FEv_link_info by simp
  qed (auto simp: pwf_filter_on_drained_def counted_emit ne, auto simp: counted_def)
qed

lemma dispatch_destroyed: "destroyed q (filter_dispatch e f) = destroyed q f"
  using dispatch_counted [of "Proxy_destroy q" q e f] by (simp add: destroyed_def counted_def)

interpretation destroyed_loop: loop_client filter_dispatch "\<lambda>f. destroyed q f = n" for q n
  by unfold_locales (simp add: dispatch_destroyed)

text \<open>Each round trip to the server takes the loop lock once.\<close>

abbreviation locks_taken :: "'a pwf_client_scheme \<Rightarrow> nat" where
  "locks_taken \<equiv> counted Loop_lock"

interpretation locks_loop: loop_client filter_dispatch "\<lambda>f. locks_taken f = n" for n
  by unfold_locales (use dispatch_counted [of Loop_lock] in simp)

text \<open>The link's release, seen from its port.\<close>

lemma release_port:
  assumes "i < n_ports f"
  shows "same_upto link_core f (pwf_filter_port_link_release i f)"
    "port_link_proxy (get_port i (pwf_filter_port_link_release i f)) = None"
    "link_wait (get_port j (pwf_filter_port_link_release i f)) = link_wait (get_port j f)"
    "j \<noteq> i \<Longrightarrow> get_port j (pwf_filter_port_link_release i f) = get_port j f"
    "port_link_proxy (get_port i f) \<noteq> None \<Longrightarrow> loss_reported (get_port i (pwf_filter_port_link_release i f))"
    "destroyed q (pwf_filter_port_link_release i f) =
       destroyed q f + (if port_link_proxy (get_port i f) = Some q then 1 else 0)"
  using assms
  by (auto simp: pwf_filter_port_link_release_def same_upto_def get_port_map_port link_core_def port_core_def
      destroyed_emit split: option.split)

lemma await_link_spec:
  assumes i: "i < n_ports f" and run: "await_link i proxy sched f = (r, g)"
  shows "r = negotiated i (fst sched)" "same_upto link_core f g" "held g = held f"
    "loop (conn g) = loop (conn f)" "core (conn g) = core (conn f)"
    "registry_ok (registry f) \<Longrightarrow> registry_ok (registry g)"
    "link_wait (get_port i g) = None"
    "j \<noteq> i \<Longrightarrow> (link_wait (get_port j g) = None) = (link_wait (get_port j f) = None)"
    "port_link_proxy (get_port i g) = (if failed r then None else Some proxy)"
    "j < n_ports f \<Longrightarrow> j \<noteq> i \<Longrightarrow> port_link_proxy (get_port j g) = port_link_proxy (get_port j f)"
    "destroyed q g = destroyed q f + (if failed r \<and> q = proxy then 1 else 0)"
proof -
  define f1 where "f1 = map_port i (\<lambda>p. p\<lparr>port_link_proxy := Some proxy, link_state_seen_active := False,
      link_lost := False, link_wait := Some (False, PWF_ERR_CONNECT_FAILED)\<rparr>) f"
  obtain b f2 where w: "loop_wait (wait_done i) filter_dispatch (fst sched) (snd sched) f1 = (b, f2)" by fastforce
  have n1: "negotiating i f1" and w1: "link_wait (get_port i f1) = Some (False, PWF_ERR_CONNECT_FAILED)"
    and i1: "i < n_ports f1" using i by (simp_all add: f1_def negotiating_def get_port_map_port)
  note ans = wait_answer [OF n1 w1 w]
  define f3 where "f3 = map_port i (\<lambda>p. p\<lparr>link_wait := None\<rparr>) f2"
  obtain fin res where fr: "link_wait (get_port i f2) = Some (fin, res)" using ans by (auto simp: negotiating_def)
  have s12: "same_filter f1 f2" by (rule filter_same.wait_inv_pair [OF _ w]) simp
  have c12: "same_client f1 f2" by (rule filter_loop.same.wait_inv_pair [OF _ w]) simp
  have d12: "destroyed q f2 = destroyed q f1" by (rule destroyed_loop.wait_inv_pair [OF _ w]) simp
  have w12: "(link_wait (get_port k f2) = None) = (link_wait (get_port k f1) = None)" for k
    by (rule filter_waiting.wait_inv_pair [OF _ w]) simp
  have i2: "i < n_ports f2" "i < n_ports f3" using s12 i1 by (simp_all add: same_filter_def f3_def)
  have proxy3: "port_link_proxy (get_port j f3) = port_link_proxy (get_port j f1)" if "j < n_ports f" for j
    using same_own_proxy [OF same_filter_own [OF s12], of j] that i i2 by (auto simp: f3_def f1_def get_port_map_port)
  have run3: "g = (if failed r then pwf_filter_port_link_release i f3 else f3)"
    and r: "r = (if fin then if b then res else PWF_ERR_TIMEOUT else PWF_ERR_TIMEOUT)"
    using run w fr by (auto simp: await_link_def Let_def f1_def f3_def)
  show "r = negotiated i (fst sched)" using ans r fr
    by (cases "dropWhile (\<lambda>w. link_answers i w = []) (fst sched)")
       (auto simp: negotiated_def simp del: dropWhile_eq_Nil_conv)
  have s13: "same_upto link_core f f3"
  proof -
    have "same_upto link_core f f1"
      using i by (auto simp: f1_def link_core_def port_core_def intro!: same_upto_map_port)
    moreover have "same_upto link_core f1 f2" by (rule same_own_links [OF same_filter_own [OF s12]])
    moreover have "same_upto link_core f2 f3"
      using i2 by (auto simp: f3_def link_core_def port_core_def intro!: same_upto_map_port)
    ultimately show ?thesis using same_upto_trans by blast
  qed
  note rel = release_port [OF i2(2)]
  show "same_upto link_core f g" using s13 rel(1) same_upto_trans run3 by auto
  show "held g = held f" "loop (conn g) = loop (conn f)" "core (conn g) = core (conn f)"
    "registry_ok (registry f) \<Longrightarrow> registry_ok (registry g)"
    using c12 run3 release_frame [OF i2(2)] by (auto simp: same_client_def f1_def f3_def)
  show "link_wait (get_port i g) = None"
    using run3 rel(3) [of i] i2(1) by (simp add: f3_def get_port_map_port)
  show "(link_wait (get_port j g) = None) = (link_wait (get_port j f) = None)" if "j \<noteq> i"
    using run3 rel(3) [of j] i2(1) i w12 [of j] that by (simp add: f3_def f1_def get_port_map_port)
  have p3: "port_link_proxy (get_port i f3) = Some proxy" using proxy3 [OF i] i by (simp add: f1_def get_port_map_port)
  then show "port_link_proxy (get_port i g) = (if failed r then None else Some proxy)"
    using run3 rel(2) by simp
  show "port_link_proxy (get_port j g) = port_link_proxy (get_port j f)" if "j < n_ports f" "j \<noteq> i"
    using run3 rel(4) [of j] proxy3 [of j] that i by (simp add: f1_def get_port_map_port)
  show "destroyed q g = destroyed q f + (if failed r \<and> q = proxy then 1 else 0)"
    using run3 rel(6) [of q] p3 d12 by (auto simp: f1_def f3_def)
qed

section \<open>A whole request\<close>

text \<open>What linking one port promises the rest of the filter.\<close>

definition link_frame :: "nat \<Rightarrow> pwf_filter \<Rightarrow> pwf_filter \<Rightarrow> bool" where
  "link_frame i f g \<longleftrightarrow>
     same_upto link_core f g \<and> held g = held f \<and> loop (conn g) = loop (conn f) \<and> core (conn g) = core (conn f) \<and>
     (registry_ok (registry f) \<longrightarrow> registry_ok (registry g)) \<and>
     (\<forall>k. link_wait (get_port k f) = None \<longrightarrow> link_wait (get_port k g) = None) \<and>
     (\<forall>j<n_ports f. j \<noteq> i \<longrightarrow> port_link_proxy (get_port j g) = port_link_proxy (get_port j f))"

lemma waited_link_frame: "waited f g \<Longrightarrow> link_frame i f g"
  using same_own_proxy [of f g] by (simp add: waited_def link_frame_def same_own_links)

lemma link_frame_trans: "waited f g \<Longrightarrow> link_frame i g h \<Longrightarrow> link_frame i f h"
  using waited_link_frame [of f g i] same_upto_trans
  by (auto simp: link_frame_def same_upto_def)

lemma link_frame_emit: "link_frame i f g \<Longrightarrow> lock_depth cs = 0 \<Longrightarrow> link_frame i f (emit cs g)"
  by (simp add: link_frame_def)

lemma create_port_link_spec:
  assumes i: "i < n_ports f" and proxy: "pl_proxy env = Some proxy" and props: "pl_props_ok env"
    and run: "create_port_link env i own nid pid f = (r, g)"
  shows "link_frame i f g" "r = negotiated i (fst (pl_sched env))" "link_wait (get_port i g) = None"
    "port_link_proxy (get_port i g) = (if failed r then None else Some proxy)"
    "destroyed q g = destroyed q f + (if failed r \<and> q = proxy then 1 else 0)"
proof -
  define f1 where "f1 = emit [Loop_lock, Link_create (port_link_props (pl_node_id env) own nid pid)] f"
  obtain g1 where a: "await_link i proxy (pl_sched env) f1 = (r, g1)"
    and g: "g = emit ([Loop_unlock] @ (if failed r then [Log PWF_LOG_WARNING] else [])) g1"
    using run proxy props by (auto simp: create_port_link_def Let_def f1_def split: prod.splits)
  have i1: "i < n_ports f1" using i by (simp add: f1_def)
  note s = await_link_spec [OF i1 a]
  show "r = negotiated i (fst (pl_sched env))" "link_wait (get_port i g) = None"
    "port_link_proxy (get_port i g) = (if failed r then None else Some proxy)"
    "destroyed q g = destroyed q f + (if failed r \<and> q = proxy then 1 else 0)"
    using s(1,7,9) s(11) [of q] by (simp_all add: g f1_def destroyed_emit)
  have u: "same_upto link_core f g1" using s(2) by (simp add: f1_def same_upto_def)
  have w: "link_wait (get_port k g1) = None" if "link_wait (get_port k f) = None" for k
    using s(7) s(8) [of k] that by (cases "k = i") (auto simp: f1_def)
  have p: "port_link_proxy (get_port j g1) = port_link_proxy (get_port j f)" if "j < n_ports f" "j \<noteq> i" for j
    using s(10) [of j] that by (simp add: f1_def)
  show "link_frame i f g"
    using u s(3-6) w p by (simp add: link_frame_def g f1_def)
qed

text \<open>A request that fails before its link exists leaves the port as it was.\<close>

lemma create_port_link_frame:
  assumes i: "i < n_ports f" and run: "create_port_link env i own nid pid f = (r, g)"
  shows "link_frame i f g \<and>
    port_link_proxy (get_port i g) = (if r = PWF_OK then pl_proxy env
       else if pl_proxy env \<noteq> None \<and> pl_props_ok env then None else port_link_proxy (get_port i f)) \<and>
    (r = PWF_OK \<longrightarrow> pl_proxy env \<noteq> None)"
proof (cases "pl_props_ok env \<and> pl_proxy env \<noteq> None")
  case True
  then obtain proxy where p: "pl_props_ok env" "pl_proxy env = Some proxy" by auto
  show ?thesis using create_port_link_spec(1,4) [OF i p(2,1) run] p by auto
next
  case False
  then show ?thesis using run
    by (cases "pl_props_ok env"; cases "pl_proxy env") (auto simp: create_port_link_def Let_def link_frame_def)
qed

lemma port_link_spec:
  assumes i: "i < n_ports f" and run: "port_link th env i t f = (r, g)"
  shows "link_frame i f g \<and>
    (r = PWF_OK \<longrightarrow> port_link_proxy (get_port i f) = None \<and> pl_proxy env \<noteq> None \<and>
       port_link_proxy (get_port i g) = pl_proxy env) \<and>
    (r \<noteq> PWF_OK \<longrightarrow> port_link_proxy (get_port i g) = port_link_proxy (get_port i f))"
proof -
  obtain b f1 where rf: "pwf_filter_refuse_in_callback th True f = (b, f1)" by fastforce
  then have "f1 = f \<or> f1 = emit [Log PWF_LOG_ERROR] f"
    by (auto simp: pwf_filter_refuse_in_callback_def Let_def split: if_splits)
  then have w1: "waited f f1" by auto
  obtain res f2 where bd: "pwf_pw_registry_bind filter_dispatch (pl_got_registry env) (pl_bind env) f1 = (res, f2)"
    by fastforce
  have w2: "waited f f2" by (rule waited_trans [OF w1 bind_waited [OF bd]])
  obtain nid pid f3 where rt: "pwf_resolve_target (pl_pick env) (the t) f2 = ((nid, pid), f3)"
    by (metis surj_pair)
  have w3: "waited f f3" by (rule waited_trans [OF w2 resolve_waited [OF rt]])
  have i3: "i < n_ports f3" using waited_ports [OF w3] i by simp
  obtain own f4 where ow: "pwf_resolve_own_port_id (pl_own env) i f3 = (own, f4)" by fastforce
  have w4: "waited f f4" by (rule waited_trans [OF w3 own_port_waited [OF ow i3]])
  have err: "pwf_pw_error_from_sync x \<noteq> PWF_OK" for x by (simp add: pwf_pw_error_from_sync_def)
  have "(r \<noteq> PWF_OK \<and> waited f g) \<or>
      (port_link_proxy (get_port i f1) = None \<and> create_port_link env i own nid pid f4 = (r, g))"
    using run rf bd rt ow w1 w2 w3 w4 err by (auto simp: port_link_def split: option.splits if_splits bool.splits)
  then show ?thesis
  proof (elim disjE conjE)
    assume "r \<noteq> PWF_OK" and w: "waited f g"
    then show ?thesis using waited_link_frame [OF w, of i] same_own_proxy [of f g i] i by (simp add: waited_def)
  next
    assume none: "port_link_proxy (get_port i f1) = None" and run4: "create_port_link env i own nid pid f4 = (r, g)"
    have i4: "i < n_ports f4" using waited_ports [OF w4] i by simp
    have "port_link_proxy (get_port i f) = None" "port_link_proxy (get_port i f4) = None"
      using none w1 w4 same_own_proxy [of f f1 i] same_own_proxy [of f f4 i] i by (simp_all add: waited_def)
    then show ?thesis using create_port_link_frame [OF i4 run4] link_frame_trans [OF w4] by auto
  qed
qed

end
