(* ===== verification/Pwf_Filter_Run.thy ===== *)
theory Pwf_Filter_Run
  imports Pwf_Filter_Link_Facts
begin

text \<open>
  Filters over time: the application's calls, the loop thread's events and the data thread's cycles
  in any order, from creation on, and the state they keep. A cycle's callback may push data and
  events; the other calls refuse to run inside it.
\<close>

section \<open>The state a filter keeps\<close>

text \<open>
  Between calls no link request is pending, no events are being delivered, only a running filter's
  input ports are linked, and nothing is held before the first start.
\<close>

definition port_ok :: "pwf_filter_state \<Rightarrow> pwf_filter_port \<Rightarrow> bool" where
  "port_ok st p \<longleftrightarrow>
     link_wait p = None \<and> items (delivering_events p) = [] \<and>
     (port_link_proxy p \<noteq> None \<longrightarrow> st = PWF_FILTER_STATE_RUNNING \<and> port_dir p = PWF_FILTER_PORT_INPUT) \<and>
     (st = PWF_FILTER_STATE_CREATED \<longrightarrow> \<not> has_held p \<and> held_buf p = None)"

definition filter_ok :: "pwf_filter \<Rightarrow> bool" where
  "filter_ok f \<longleftrightarrow>
     loop (conn f) \<noteq> None \<and> core (conn f) \<and> pw_filter f \<noteq> None \<and> process_cb f \<and> held f = 0 \<and> faults f = [] \<and>
     registry_ok (registry f) \<and> growable_ok (filter_ports f) \<and> heap_ok f \<and>
     (filter_state f \<noteq> PWF_FILTER_STATE_CREATED \<longrightarrow> 0 < n_ports f) \<and>
     (\<forall>i<n_ports f. port_ok (filter_state f) (get_port i f))"

text \<open>The part of it that is not about ports, as a relation.\<close>

definition stays :: "pwf_filter \<Rightarrow> pwf_filter \<Rightarrow> bool" where
  "stays f g \<longleftrightarrow>
     loop (conn g) = loop (conn f) \<and> core (conn g) = core (conn f) \<and> pw_filter g = pw_filter f \<and>
     process_cb g = process_cb f \<and> held g = held f \<and> faults g = faults f \<and>
     (registry_ok (registry f) \<longrightarrow> registry_ok (registry g)) \<and>
     capacity (filter_ports g) = capacity (filter_ports f) \<and> n_ports g = n_ports f"

lemma stays_refl [simp]: "stays f f"
  by (simp add: stays_def)

lemma stays_trans: "stays f g \<Longrightarrow> stays g h \<Longrightarrow> stays f h"
  by (simp add: stays_def)

lemma stays_emit [simp]: "lock_depth cs = 0 \<Longrightarrow> stays f (emit cs g) = stays f g"
  by (simp add: stays_def)

lemma stays_map_port [simp]: "stays f (map_port i u g) = stays f g"
  by (simp add: stays_def)

lemma stays_state [simp]: "stays f (g\<lparr>filter_state := st\<rparr>) = stays f g"
  by (simp add: stays_def n_ports_def)

lemma filter_ok_stays:
  assumes "filter_ok f" and "stays f g" and "heap_ok g"
    and "filter_state g \<noteq> PWF_FILTER_STATE_CREATED \<Longrightarrow> 0 < n_ports f"
    and "\<And>i. i < n_ports f \<Longrightarrow> port_ok (filter_state f) (get_port i f) \<Longrightarrow> port_ok (filter_state g) (get_port i g)"
  shows "filter_ok g"
  using assms by (simp add: filter_ok_def stays_def growable_ok_def n_ports_def)

lemma port_ok_core:
  assumes "port_core p = port_core q" and "(link_wait p = None) = (link_wait q = None)"
  shows "port_ok st p = port_ok st q"
proof -
  have "port_link_proxy (port_core p) = port_link_proxy (port_core q)"
    "delivering_events (port_core p) = delivering_events (port_core q)"
    "port_dir (port_core p) = port_dir (port_core q)" "has_held (port_core p) = has_held (port_core q)"
    "held_buf (port_core p) = held_buf (port_core q)" by (simp_all add: assms(1))
  then show ?thesis using assms(2) by (simp add: port_ok_def port_core_def)
qed

lemma same_client_stays: "same_filter f g \<Longrightarrow> same_client f g \<Longrightarrow> stays f g"
  by (simp add: stays_def same_filter_def same_client_def)

section \<open>The loop thread's events\<close>

lemma filter_dispatch_ok:
  assumes "filter_ok f"
  shows "filter_ok (filter_dispatch e f)"
proof (rule filter_ok_stays [OF assms])
  note k = filter_dispatch_keeps [of f e]
  show "stays f (filter_dispatch e f)" using k same_client_stays by blast
  have "heap_ok f" using assms by (simp add: filter_ok_def)
  then show "heap_ok (filter_dispatch e f)" using k same_filter_memory same_memory_ok by blast
  have st: "filter_state (filter_dispatch e f) = filter_state f" using k by (simp add: same_filter_def)
  then show "0 < n_ports f" if "filter_state (filter_dispatch e f) \<noteq> PWF_FILTER_STATE_CREATED"
    using assms that by (simp add: filter_ok_def)
  show "port_ok (filter_state (filter_dispatch e f)) (get_port i (filter_dispatch e f))"
    if "i < n_ports f" "port_ok (filter_state f) (get_port i f)" for i
    using port_ok_core [of "get_port i (filter_dispatch e f)" "get_port i f"] k that
    by (simp add: same_filter_def filter_dispatch_wait)
qed

section \<open>Ports\<close>

text \<open>A new port has no block yet, so the discipline of the blocks is not concerned.\<close>

lemma add_port_heap_ok:
  assumes ok: "heap_ok f" and p: "pushed_data p = None" "pushed_capacity p = 0" "delivered_data p = None"
      "delivered_capacity p = 0" "port_mem_ok p"
    and g: "items (filter_ports g) = items (filter_ports f) @ [p]" "heap g = heap f"
  shows "heap_ok g"
proof -
  have n: "n_ports g = Suc (n_ports f)" by (simp add: n_ports_def g)
  have old: "get_port i g = get_port i f" if "i < n_ports f" for i
    using that by (simp add: get_port_def g n_ports_def nth_append)
  have new: "get_port (n_ports f) g = p" by (simp add: get_port_def g n_ports_def)
  have side: "block g i s = (if i < n_ports f then block f i s else None)"
    "block_size g i s = (if i < n_ports f then block_size f i s else 0)" if "i < n_ports g" for i s
  proof -
    have "i < n_ports f \<or> i = n_ports f" using that n by auto
    then show "block g i s = (if i < n_ports f then block f i s else None)"
      "block_size g i s = (if i < n_ports f then block_size f i s else 0)"
      using p old new by (auto simp: block_def block_size_def)
  qed
  have "blocks_ok g" unfolding blocks_ok_def
  proof (intro allI impI)
    fix i s assume i: "i < n_ports g"
    have "blocks_ok f" using ok by (simp add: heap_ok_def)
    then show "case block g i s of None \<Rightarrow> block_size g i s = 0 |
      Some a \<Rightarrow> \<exists>bs. heap g a = Some bs \<and> length bs = block_size g i s"
      using side [OF i, of s] blocks_okD [of f i s] g
      by (cases "i < n_ports f") (auto simp: blocks_ok_def split: option.split)
  qed
  moreover have "blocks_unique g" unfolding blocks_unique_def
  proof (intro allI impI)
    fix i j s t a
    assume "i < n_ports g" "j < n_ports g" "block g i s = Some a" "block g j t = Some a"
    then show "i = j \<and> s = t" using ok side blocks_uniqueD [of f i j s a t]
      by (auto simp: heap_ok_def split: if_splits)
  qed
  moreover have "no_leak g" unfolding no_leak_def
  proof (intro allI impI)
    fix a assume "heap g a \<noteq> None"
    then obtain i s where i: "i < n_ports f" "block f i s = Some a" using ok by (auto simp: heap_ok_def no_leak_def g)
    then have "i < n_ports g" by (simp add: n)
    then show "\<exists>i<n_ports g. \<exists>s. block g i s = Some a" using side [of i s] i by auto
  qed
  moreover have "port_mem_ok (get_port i g)" if "i < n_ports g" for i
    using that n old new p(5) ok by (cases "i = n_ports f") (auto simp: heap_ok_def)
  ultimately show ?thesis by (simp add: heap_ok_def)
qed

text \<open>A port that adding may produce.\<close>

definition fresh_port :: "pwf_filter_port \<Rightarrow> bool" where
  "fresh_port p \<longleftrightarrow>
     pushed_data p = None \<and> pushed_capacity p = 0 \<and> delivered_data p = None \<and> delivered_capacity p = 0 \<and>
     \<not> pushed_pending p \<and> \<not> has_held p \<and> held_buf p = None \<and> port_link_proxy p = None \<and> link_wait p = None \<and>
     items (delivering_events p) = []"

lemma add_port_common_emits:
  assumes "pwf_filter_add_port_common env dir params mb f = (q, f1)"
  shows "f1 = f \<or> (\<exists>cs. lock_depth cs = 0 \<and> f1 = emit cs f)"
proof (cases "ap_props_ok env")
  case True
  let ?add = "Filter_add_port (if dir = PWF_FILTER_PORT_INPUT then SPA_DIRECTION_INPUT else SPA_DIRECTION_OUTPUT)
    mb [(''port.name'', c_snprintf 24 (''pwf_port_'' @ c_decimal (n_ports f)))] params"
  have "f1 = emit [Loop_lock, ?add, Loop_unlock] f"
    using assms True by (simp add: pwf_filter_add_port_common_def Let_def)
  moreover have "lock_depth [Loop_lock, ?add, Loop_unlock] = 0" by simp
  ultimately show ?thesis by blast
qed (use assms in \<open>simp add: pwf_filter_add_port_common_def Let_def\<close>)

lemma finish_add_port_ok:
  assumes ok: "filter_ok f" and created: "filter_state f = PWF_FILTER_STATE_CREATED"
    and fresh: "\<And>name. fresh_port (set_fields (port_zero\<lparr>pw_port_name := name\<rparr>))"
    and run: "finish_add_port env set_fields (pwf_filter_add_port_common env dir params mb f) = (r, g)"
  shows "filter_ok g"
proof -
  obtain q f1 where c: "pwf_filter_add_port_common env dir params mb f = (q, f1)" by fastforce
  have f1: "f1 = f \<or> (\<exists>cs. lock_depth cs = 0 \<and> f1 = emit cs f)"
    using c add_port_common_emits by blast
  have ok1: "filter_ok f1" "filter_state f1 = PWF_FILTER_STATE_CREATED"
    using f1 ok created by (auto simp: filter_ok_def)
  show ?thesis
  proof (cases q)
    case None
    then show ?thesis using run c ok1 by (simp add: finish_add_port_def)
  next
    case (Some p)
    have p: "fresh_port (set_fields p)"
      using c Some fresh by (auto simp: pwf_filter_add_port_common_def Let_def split: if_splits)
    obtain b gr where a: "growable_append 4 (ap_grow_ok env) (set_fields p) (filter_ports f1) = (b, gr)" by fastforce
    have g: "g = f1\<lparr>filter_ports := gr\<rparr>"
      using run c Some a by (cases b) (auto simp: finish_add_port_def pwf_filter_add_port_to_list_def)
    show ?thesis
    proof (cases b)
      case False
      then show ?thesis using growable_append_failed [of 4 "ap_grow_ok env" "set_fields p" "filter_ports f1"] a g ok1 by simp
    next
      case True
      have items: "items (filter_ports g) = items (filter_ports f1) @ [set_fields p]"
        using growable_append_items [of 4 "ap_grow_ok env" "set_fields p" "filter_ports f1"] a True g by simp
      have gr: "growable_ok gr"
        using growable_append_ok [of "filter_ports f1" 4 "ap_grow_ok env" "set_fields p"] a ok1 by (simp add: filter_ok_def)
      have "heap_ok g"
        using add_port_heap_ok [of f1 "set_fields p" g] ok1 p items g
        by (simp add: filter_ok_def fresh_port_def port_mem_ok_def hold_in_block_def)
      moreover have "port_ok (filter_state g) (get_port i g)" if "i < n_ports g" for i
        using that ok1 p items g
        by (auto simp: filter_ok_def port_ok_def fresh_port_def n_ports_def get_port_def nth_append less_Suc_eq)
      moreover have "held g = held f1" by (simp add: g)
      ultimately show ?thesis using ok1 gr g by (simp add: filter_ok_def)
    qed
  qed
qed

section \<open>Steps that leave the links alone\<close>

text \<open>What links and staged deliveries need of a port.\<close>

definition port_links where
  "port_links p = (port_dir p, port_media p, delivering_events p, port_link_proxy p, link_wait p)"

definition same_run :: "pwf_filter \<Rightarrow> pwf_filter \<Rightarrow> bool" where
  "same_run f g \<longleftrightarrow>
     stays f g \<and> filter_state g = filter_state f \<and> (\<forall>i<n_ports f. port_links (get_port i g) = port_links (get_port i f))"

lemma same_run_refl [simp]: "same_run f f"
  by (simp add: same_run_def)

lemma same_run_ports: "same_run f g \<Longrightarrow> n_ports g = n_ports f"
  by (simp add: same_run_def stays_def)

lemma same_run_trans: "same_run f g \<Longrightarrow> same_run g h \<Longrightarrow> same_run f h"
  using stays_trans by (auto simp: same_run_def stays_def)

lemma same_run_emit [simp]: "lock_depth cs = 0 \<Longrightarrow> same_run f (emit cs g) = same_run f g"
  by (simp add: same_run_def)

lemma same_run_map_port:
  "i < n_ports f \<Longrightarrow> port_links (u (get_port i f)) = port_links (get_port i f) \<Longrightarrow> same_run f (map_port i u f)"
  by (simp add: same_run_def get_port_map_port)

lemma stays_heap [simp]: "stays f (g\<lparr>heap := h\<rparr>) = stays f g"
  by (simp add: stays_def)

lemma same_run_heap [simp]: "same_run f (g\<lparr>heap := h\<rparr>) = same_run f g"
  by (simp add: same_run_def)

text \<open>A port that had no delivery under way and held nothing stays well formed.\<close>

lemma filter_ok_run:
  assumes "filter_ok f" and "same_run f g" and "heap_ok g"
    and "\<And>i. i < n_ports f \<Longrightarrow> filter_state f = PWF_FILTER_STATE_CREATED \<Longrightarrow> \<not> has_held (get_port i f) \<Longrightarrow>
       held_buf (get_port i f) = None \<Longrightarrow> \<not> has_held (get_port i g) \<and> held_buf (get_port i g) = None"
  shows "filter_ok g"
proof (rule filter_ok_stays [OF assms(1)])
  show "stays f g" "heap_ok g" using assms by (simp_all add: same_run_def)
  show "0 < n_ports f" if "filter_state g \<noteq> PWF_FILTER_STATE_CREATED" using assms(1,2) that by (simp add: filter_ok_def same_run_def)
  show "port_ok (filter_state g) (get_port i g)" if "i < n_ports f" "port_ok (filter_state f) (get_port i f)" for i
  proof -
    have "port_links (get_port i g) = port_links (get_port i f)" "filter_state g = filter_state f"
      using assms(2) that(1) by (simp_all add: same_run_def)
    then show ?thesis using that assms(4) [OF that(1)] by (auto simp: port_ok_def port_links_def)
  qed
qed

section \<open>Pushes\<close>

datatype filter_push =
    Push_data "nat option" "(nat \<times> nat) option" "byte list option" nat int
  | Push_event "built_control list \<Rightarrow> nat" grow_answer bool "nat option" "pwf_event option"

fun push_call :: "pwf_thread \<Rightarrow> filter_push \<Rightarrow> pwf_filter \<Rightarrow> pwf_error \<times> pwf_filter" where
  "push_call th (Push_data grown port data n pts) f = filter_push_port_data grown port data n pts f"
| "push_call th (Push_event pod_size grow ok port ev) f = pwf_filter_port_push_event pod_size grow ok th port ev f"

text \<open>What the caller and \<open>realloc\<close> owe: a port of the filter, as many bytes as said, a free block.\<close>

fun push_ok :: "filter_push \<Rightarrow> pwf_filter \<Rightarrow> bool" where
  "push_ok (Push_data grown port data n pts) f =
     ((case port of None \<Rightarrow> True | Some (owner, i) \<Rightarrow> owner \<noteq> filter_id f \<or> i < n_ports f \<and> grown_ok grown i f) \<and>
      (case data of None \<Rightarrow> True | Some d \<Rightarrow> n \<le> length d))"
| "push_ok (Push_event pod_size grow ok port ev) f = port_in_range port f"

definition run_push :: "pwf_thread \<Rightarrow> filter_push \<Rightarrow> pwf_filter \<Rightarrow> pwf_filter" where
  "run_push th p f = snd (push_call th p f)"

fun pushes_ok :: "pwf_thread \<Rightarrow> filter_push list \<Rightarrow> pwf_filter \<Rightarrow> bool" where
  "pushes_ok th [] f = True"
| "pushes_ok th (p # ps) f = (push_ok p f \<and> pushes_ok th ps (run_push th p f))"

definition hold_fields where "hold_fields p = (has_held p, held_buf p)"

text \<open>A push keeps the blocks and everything the links and the holds need.\<close>

definition push_keeps :: "pwf_filter \<Rightarrow> pwf_filter \<Rightarrow> bool" where
  "push_keeps f g \<longleftrightarrow>
     same_run f g \<and> (heap_ok f \<longrightarrow> heap_ok g) \<and> (\<forall>i<n_ports f. hold_fields (get_port i g) = hold_fields (get_port i f))"

lemma push_keeps_refl [simp]: "push_keeps f f"
  by (simp add: push_keeps_def)

lemma push_keeps_trans: "push_keeps f g \<Longrightarrow> push_keeps g h \<Longrightarrow> push_keeps f h"
  using same_run_trans [of f g h] same_run_ports [of f g] by (auto simp: push_keeps_def)

lemma push_data_keeps:
  assumes ok: "push_ok (Push_data grown port data n pts) f" and heap: "heap_ok f"
    and run: "filter_push_port_data grown port data n pts f = (r, g)"
  shows "push_keeps f g"
proof (cases "r = PWF_OK")
  case False
  then have "g = f \<or> g = emit [Log PWF_LOG_ERROR] f"
    using run by (auto simp: filter_push_port_data_def Let_def split: option.splits prod.splits if_splits)
  then show ?thesis by (auto simp: push_keeps_def)
next
  case True
  obtain owner i where p: "port = Some (owner, i)"
    using run True by (cases port) (auto simp: filter_push_port_data_def)
  then have own: "owner = filter_id f" using run True by (auto simp: filter_push_port_data_def split: if_splits)
  then have i: "i < n_ports f" "grown_ok grown i f" using ok p by simp_all
  define d where "d = (case data of None \<Rightarrow> [] | Some d \<Rightarrow> d)"
  have n: "n \<le> length d" "data = None \<Longrightarrow> n = 0"
    using run True p ok by (auto simp: filter_push_port_data_def d_def split: if_splits option.splits)
  have run': "filter_push_port_data grown (Some (owner, i)) (Some d) n pts f = (PWF_OK, g)"
    using run True p n by (cases data) (simp_all add: filter_push_port_data_def d_def Let_def split: if_splits)
  have "same_run f g \<and> (\<forall>j<n_ports f. hold_fields (get_port j g) = hold_fields (get_port j f))"
    using i(1) by (cases rule: push_result [OF heap i n(1) run'])
      (auto simp: same_run_map_port stage_push_def port_links_def hold_fields_def get_port_map_port)
  moreover have "heap_ok g" by (rule filter_push_spec(1) [OF heap i n(1) run'])
  ultimately show ?thesis by (simp add: push_keeps_def)
qed

lemma push_event_keeps:
  assumes ok: "port_in_range port f" and heap: "heap_ok f"
    and run: "pwf_filter_port_push_event pod_size grow ok' th port ev f = (r, g)"
  shows "push_keeps f g"
proof -
  have map: "push_keeps f (map_port i (\<lambda>_. p) f)"
    if "i < n_ports f" "\<exists>q. p = (get_port i f)\<lparr>pending_events := q\<rparr>" for i p
  proof -
    from that(2) obtain q where q: "p = (get_port i f)\<lparr>pending_events := q\<rparr>" by blast
    have "port_mem_ok (get_port i f)" using heap that(1) by (simp add: heap_ok_def)
    then have "heap_ok (map_port i (\<lambda>_. p) f)" using heap that(1) q
      by (intro map_port_heap_ok) (simp_all add: port_mem_ok_def hold_in_block_def)
    then show ?thesis using that(1) q
      by (auto simp: push_keeps_def port_links_def hold_fields_def get_port_map_port intro!: same_run_map_port)
  qed
  have g: "g = f \<or> (\<exists>i p. i < n_ports f \<and> (\<exists>q. p = (get_port i f)\<lparr>pending_events := q\<rparr>) \<and>
      (g = map_port i (\<lambda>_. p) f \<or> g = emit [Loop_lock, Loop_unlock] (map_port i (\<lambda>_. p) f)))"
  proof (cases "\<exists>i e. port = Some i \<and> ev = Some e \<and> g \<noteq> f")
    case False
    then have "g = f \<or> port = None \<or> ev = None" by (cases port; cases ev) simp_all
    moreover have "g = f" if "port = None \<or> ev = None"
      using run that by (cases port; cases ev) (simp_all add: pwf_filter_port_push_event_def)
    ultimately show ?thesis by blast
  next
    case True
    then obtain i e where ie: "port = Some i" "ev = Some e" "g \<noteq> f" by blast
    then have i: "i < n_ports f" using ok by (simp add: port_in_range_def)
    obtain staged p where a: "pwf_filter_pending_event_append grow ok' e (get_port i f) = (staged, p)" by fastforce
    obtain q where q: "p = (get_port i f)\<lparr>pending_events := q\<rparr>" using pending_append_frame [OF a] by blast
    have pop: "\<exists>q. pwf_filter_pending_event_pop_last p = (get_port i f)\<lparr>pending_events := q\<rparr>"
      by (auto simp: pwf_filter_pending_event_pop_last_def q)
    have two: "emit [c] (map_port i u (emit [b] f)) = emit [b, c] (map_port i u f)" for b c u
      by (simp add: emit_def map_port_def get_port_def)
    have "\<exists>p'. (p' = p \<or> p' = pwf_filter_pending_event_pop_last p) \<and>
        (g = map_port i (\<lambda>_. p') f \<or> g = emit [Loop_lock, Loop_unlock] (map_port i (\<lambda>_. p') f))"
      using run ie i a
      by (auto simp: pwf_filter_port_push_event_def Let_def map_port_compose comp_def two split: if_splits)
    then show ?thesis using i q pop by blast
  qed
  then consider "g = f"
    | i p where "i < n_ports f" "\<exists>q. p = (get_port i f)\<lparr>pending_events := q\<rparr>" "g = map_port i (\<lambda>_. p) f"
    | i p where "i < n_ports f" "\<exists>q. p = (get_port i f)\<lparr>pending_events := q\<rparr>"
        "g = emit [Loop_lock, Loop_unlock] (map_port i (\<lambda>_. p) f)"
    by blast
  then show ?thesis
  proof cases
    case (3 i p)
    then show ?thesis using map [of i p] by (simp add: push_keeps_def)
  qed (use map in simp_all)
qed

lemma run_push_keeps:
  assumes "push_ok p f" and "heap_ok f"
  shows "push_keeps f (run_push th p f)"
proof (cases p)
  case (Push_data grown port data n pts)
  then show ?thesis using assms push_data_keeps [of grown port data n pts f]
    by (cases "filter_push_port_data grown port data n pts f") (simp add: run_push_def)
next
  case (Push_event pod_size grow ok port ev)
  then show ?thesis using assms push_event_keeps [of port f pod_size grow ok th ev]
    by (cases "pwf_filter_port_push_event pod_size grow ok th port ev f") (simp add: run_push_def)
qed

lemma pushes_keep:
  "pushes_ok th ps f \<Longrightarrow> heap_ok f \<Longrightarrow> push_keeps f (fold (run_push th) ps f)"
proof (induction ps arbitrary: f)
  case (Cons p ps)
  have one: "push_keeps f (run_push th p f)" using Cons.prems by (simp add: run_push_keeps)
  then have "push_keeps (run_push th p f) (fold (run_push th) ps (run_push th p f))"
    using Cons by (simp add: push_keeps_def)
  then show ?case using push_keeps_trans [OF one] by simp
qed simp

end
