(* ===== verification/Pwf_Filter_Calls.thy ===== *)
theory Pwf_Filter_Calls
  imports Pwf_Filter_Run Pwf_Filter_Event_Facts
begin

text \<open>
  The calls of a filter's life, each keeping \<open>filter_ok\<close>, and the runs they make up. A cycle's
  callback is a list of pushes and the sizes it writes into the output buffers.
\<close>

section \<open>Cycles\<close>

lemma check_datas_full:
  "(\<forall>d. b = Some d \<longrightarrow> datas (buffer d) \<noteq> []) \<Longrightarrow> check_datas b f = f"
  by (cases b) (simp_all add: check_datas_def)

text \<open>Every buffer the pool hands out has a plane.\<close>

definition pool_ok :: "cycle_env \<Rightarrow> bool" where
  "pool_ok env \<longleftrightarrow> (\<forall>i d. ce_dequeue env i = Some d \<longrightarrow> datas (buffer d) \<noteq> [])"

text \<open>What a cycle leaves of a port while deliveries are under way.\<close>

definition cycle_links where
  "cycle_links p = (port_dir p, port_media p, port_link_proxy p, link_wait p)"

definition cycling :: "pwf_filter \<Rightarrow> pwf_filter \<Rightarrow> bool" where
  "cycling f g \<longleftrightarrow>
     stays f g \<and> filter_state g = filter_state f \<and> (\<forall>i<n_ports f. cycle_links (get_port i g) = cycle_links (get_port i f))"

lemma cycling_refl [simp]: "cycling f f"
  by (simp add: cycling_def)

lemma cycling_ports: "cycling f g \<Longrightarrow> n_ports g = n_ports f"
  by (simp add: cycling_def stays_def)

lemma cycling_trans: "cycling f g \<Longrightarrow> cycling g h \<Longrightarrow> cycling f h"
  using stays_trans by (auto simp: cycling_def stays_def)

lemma cycling_emit [simp]: "lock_depth cs = 0 \<Longrightarrow> cycling f (emit cs g) = cycling f g"
  by (simp add: cycling_def)

lemma cycling_map_port:
  "i < n_ports f \<Longrightarrow> cycle_links (u (get_port i f)) = cycle_links (get_port i f) \<Longrightarrow> cycling f (map_port i u f)"
  by (simp add: cycling_def get_port_map_port)

lemma cycling_map_after:
  assumes "cycling f g" and "i < n_ports f" and "\<And>p. cycle_links (u p) = cycle_links p"
  shows "cycling f (map_port i u g)"
  using cycling_trans [OF assms(1) cycling_map_port [of i g u]] assms cycling_ports [OF assms(1)] by simp

lemma same_run_cycling: "same_run f g \<Longrightarrow> cycling f g"
  by (auto simp: same_run_def cycling_def port_links_def cycle_links_def)

lemma input_source_cycling:
  assumes "i < n_ports f" and "input_source env i f = (b, c, g)"
  shows "cycling f g"
  using assms
  by (auto simp: input_source_def Let_def swap_pushed_def cycle_links_def intro!: cycling_map_port
      split: if_splits option.splits)

lemma begin_input_cycling:
  assumes i: "i < n_ports f" and run: "begin_input env i f = (c, g)"
  shows "cycling f g"
proof -
  obtain b c0 f1 where src: "input_source env i f = (b, c0, f1)" by (metis prod_cases3)
  have f1: "cycling f f1" by (rule input_source_cycling [OF i src])
  have up: "cycling f (map_port i (\<lambda>p. p\<lparr>update_seq := update_seq p + 1\<rparr>) f1)"
    by (rule cycling_map_after [OF f1 i]) (simp add: cycle_links_def)
  show ?thesis using run src i f1 up
    by (cases b)
       (auto simp: begin_input_def hold_new_def Let_def cycle_links_def intro!: cycling_map_after
        split: if_splits option.splits)
qed

lemma begin_port_cycling:
  assumes i: "i < n_ports f" and pool: "pool_ok env" and run: "begin_port env i f = (c, g)"
  shows "cycling f g"
proof -
  let ?f = "map_port i (\<lambda>p. p\<lparr>port_dmabuf_buf := None\<rparr>) f"
  have f1: "cycling f ?f" by (rule cycling_map_port [OF i]) (simp add: cycle_links_def)
  have check: "check_datas (ce_dequeue env i) h = h" for h :: pwf_filter using pool by (simp add: pool_ok_def check_datas_full)
  have n: "i < n_ports ?f" using i by simp
  consider "begin_event_input env i ?f = (c, g)" | "begin_event_output env i ?f = (c, g)"
    | "begin_input env i ?f = (c, g)" | "begin_output env i ?f = (c, g)"
    using run by (auto simp: begin_port_def Let_def split: if_splits)
  then have "cycling ?f g"
  proof cases
    case 1
    have load: "cycle_links (pwf_filter_event_load_delivering_as_incoming gr p) = cycle_links p"
      "cycle_links (pwf_filter_event_take_pending p) = cycle_links p"
      "cycle_links (pwf_filter_event_decode gr k cs p) = cycle_links p" for gr p k cs
      by (auto simp: cycle_links_def pwf_filter_event_load_delivering_as_incoming_def
          pwf_filter_event_take_pending_def pwf_filter_event_decode_def Let_def split: option.split)
    define p1 where "p1 = (if ce_staged env \<and> items (pending_events (get_port i ?f)) \<noteq> []
      then pwf_filter_event_take_pending (get_port i ?f) else get_port i ?f)"
    have p1: "cycle_links p1 = cycle_links (get_port i ?f)" by (simp add: p1_def load)
    have base: "cycling ?f (map_port i (\<lambda>_. p1) ?f)" by (rule cycling_map_port [OF n p1])
    have after: "cycling ?f (map_port i u (map_port i (\<lambda>_. p1) ?f))" if "\<And>p. cycle_links (u p) = cycle_links p" for u
      by (rule cycling_map_after [OF base n that])
    have loaded: "cycling ?f (map_port i (\<lambda>_. pwf_filter_event_load_delivering_as_incoming (ce_grow env) p1) ?f)"
      by (rule cycling_map_port [OF n]) (simp add: load p1)
    show ?thesis
    proof (cases "items (delivering_events p1) = []")
      case False
      then show ?thesis using 1 loaded by (simp add: begin_event_input_def Let_def p1_def [symmetric])
    next
      case True
      let ?clear = "\<lambda>p. p\<lparr>incoming_events := (incoming_events p)\<lparr>items := []\<rparr>\<rparr>"
      have clear: "cycling ?f (map_port i ?clear (map_port i (\<lambda>_. p1) ?f))"
        by (rule after) (simp add: cycle_links_def)
      show ?thesis
      proof (cases "ce_dequeue env i")
        case None
        then show ?thesis using 1 True check clear by (simp add: begin_event_input_def Let_def p1_def [symmetric])
      next
        case (Some d)
        have "cycling ?f (map_port i (pwf_filter_event_decode (ce_grow env) (chunk_bytes d) (controls d)) (map_port i (\<lambda>_. p1) ?f))"
          by (rule after) (simp add: load)
        then show ?thesis using 1 True check [unfolded Some] Some clear
          by (cases "data_present d") (simp_all add: begin_event_input_def Let_def p1_def [symmetric])
      qed
    qed
  next
    case 2
    let ?h = "map_port i (\<lambda>p. p\<lparr>pending_events := (pending_events p)\<lparr>items := []\<rparr>\<rparr>) ?f"
    have h: "cycling ?f ?h" by (rule cycling_map_port [OF n]) (simp add: cycle_links_def)
    have "cycling ?f (map_port i (\<lambda>p. p\<lparr>event_output_capacity := m\<rparr>) ?h)" for m
      by (rule cycling_map_after [OF h n]) (simp add: cycle_links_def)
    then show ?thesis using 2 check by (auto simp: begin_event_output_def Let_def split: option.splits if_splits)
  next
    case 3
    then show ?thesis using begin_input_cycling [OF n] by blast
  next
    case 4
    then show ?thesis using check by (auto simp: begin_output_def Let_def split: option.splits if_splits)
  qed
  with f1 show ?thesis by (rule cycling_trans)
qed

lemma begin_ports_cycling:
  "pool_ok env \<Longrightarrow> \<forall>i\<in>set is. i < n_ports f \<Longrightarrow> begin_ports env is f = (cs, g) \<Longrightarrow> cycling f g"
proof (induction "is" arbitrary: f cs)
  case (Cons i "is")
  obtain c f1 where one: "begin_port env i f = (c, f1)" by fastforce
  obtain cs1 where rest: "begin_ports env is f1 = (cs1, g)"
    using Cons.prems(3) one by (auto split: prod.splits)
  have f1: "cycling f f1" using Cons.prems by (intro begin_port_cycling [OF _ _ one]) simp_all
  then have "cycling f1 g" using Cons cycling_ports [OF f1] rest by simp
  with f1 show ?case by (rule cycling_trans)
qed simp

lemma end_port_cycling:
  assumes i: "i < n_ports f"
  shows "cycling f (snd (end_port env i b buf f))"
proof -
  have fields: "cycle_links (pwf_filter_event_clear_delivering p) = cycle_links p"
    "cycle_links (pwf_filter_event_clear_pending p) = cycle_links p"
    "cycle_links (snd (pwf_filter_event_finish_output p)) = cycle_links p" for p
    by (simp_all add: cycle_links_def pwf_filter_event_clear_delivering_def pwf_filter_event_clear_pending_def
        pwf_filter_event_finish_output_def)
  have out: "cycling f (map_port i (\<lambda>_. snd (pwf_filter_event_finish_output (get_port i f))) f)"
    by (rule cycling_map_port [OF i]) (simp add: fields)
  show ?thesis using i fields out
    by (auto simp: end_port_def Let_def case_prod_beta intro!: cycling_map_port split: option.split)
qed

lemma end_ports_cycling:
  "\<forall>x\<in>set xs. fst x < n_ports f \<Longrightarrow> end_ports env xs f = (outs, g) \<Longrightarrow> cycling f g"
proof (induction xs arbitrary: f outs)
  case (Cons x xs)
  obtain i b buf where x: "x = (i, b, buf)" by (metis prod_cases3)
  obtain q f1 where one: "end_port env i b buf f = (q, f1)" by fastforce
  obtain outs1 where rest: "end_ports env xs f1 = (outs1, g)"
    using Cons.prems(2) one by (auto simp: x split: prod.splits)
  have f1: "cycling f f1" using end_port_cycling [of i f env b buf] one Cons.prems(1) by (simp add: x)
  then have "cycling f1 g" using Cons.IH [OF _ rest] cycling_ports [OF f1] Cons.prems(1) by simp
  with f1 show ?case by (rule cycling_trans)
qed simp

text \<open>Events under delivery are an event input port's, and its end of the cycle drops them.\<close>

definition event_input :: "pwf_filter_port \<Rightarrow> bool" where
  "event_input p \<longleftrightarrow> port_media p = PWF_DATA_EVENT \<and> port_dir p = PWF_FILTER_PORT_INPUT"

lemma begin_port_delivering:
  assumes i: "i < n_ports f" and "\<not> event_input (get_port i f)" and run: "begin_port env i f = (c, g)"
  shows "delivering_events (get_port i g) = delivering_events (get_port i f)"
proof (cases "port_media (get_port i f) = PWF_DATA_EVENT \<or> port_dir (get_port i f) = PWF_FILTER_PORT_OUTPUT")
  case True
  then show ?thesis using assms
    by (cases "ce_dequeue env i")
       (auto simp: begin_port_def begin_event_output_def begin_output_def event_input_def Let_def get_port_map_port
        split: if_splits)
next
  case False
  let ?f = "map_port i (\<lambda>p. p\<lparr>port_dmabuf_buf := None\<rparr>) f"
  have b: "begin_input env i ?f = (c, g)"
    using run i False by (cases "port_dir (get_port i f)") (auto simp: begin_port_def Let_def get_port_map_port)
  obtain b0 c0 f1 where src: "input_source env i ?f = (b0, c0, f1)" by (metis prod_cases3)
  have n: "i < n_ports f1" using input_source_only [OF _ src] i by (simp add: only_port_def)
  have f1: "delivering_events (get_port i f1) = delivering_events (get_port i ?f)"
    using src i by (auto simp: input_source_def Let_def swap_pushed_def get_port_map_port split: if_splits option.splits)
  show ?thesis using b src f1 n i
    by (cases b0) (auto simp: begin_input_def hold_new_def Let_def get_port_map_port split: if_splits option.splits)
qed

lemma end_port_delivering:
  assumes "i < n_ports f"
  shows "items (delivering_events (get_port i (snd (end_port env i b buf f)))) =
    (if event_input (get_port i f) then [] else items (delivering_events (get_port i f)))"
  using assms
  by (auto simp: end_port_def Let_def event_input_def get_port_map_port pwf_filter_event_clear_delivering_def
      pwf_filter_event_clear_pending_def pwf_filter_event_finish_output_def split: option.split prod.split)

text \<open>An application as a list of pushes; \<open>sizes\<close> is what it writes into the ports' buffers.\<close>

definition push_app :: "filter_push list \<Rightarrow> (nat \<Rightarrow> nat) \<Rightarrow> process_callback" where
  "push_app ps sizes th bufs f = (map (\<lambda>b. b\<lparr>pb_size := sizes (pb_port b)\<rparr>) bufs, fold (run_push th) ps f)"

lemma on_process_ok:
  assumes ok: "filter_ok f" and started: "filter_state f \<noteq> PWF_FILTER_STATE_CREATED" and pool: "pool_ok env"
    and pushes: "pushes_ok (th\<lparr>pwf_filter_processing := Some (filter_id f)\<rparr>) ps (snd (begin_ports env [0..<n_ports f] f))"
    and run: "pwf_filter_on_process env (push_app ps sizes) th f = ((cs, outs), g)"
  shows "filter_ok g"
proof (cases "n_ports f \<le> PWF_FILTER_STACK_PORTS \<or> ce_alloc_ok env")
  case False
  then show ?thesis using run ok by (auto simp: pwf_filter_on_process_def split: if_splits)
next
  case room: True
  have pos: "0 < n_ports f" using ok started by (simp add: filter_ok_def)
  obtain f1 bufs f2 where b: "begin_ports env [0..<n_ports f] f = (cs, f1)"
    and a: "(if process_cb f1 then push_app ps sizes (th\<lparr>pwf_filter_processing := Some (filter_id f1)\<rparr>) (map pc_buffer cs) f1
      else (map pc_buffer cs, f1)) = (bufs, f2)"
    and e: "end_ports env (zip [0..<n_ports f] (zip (map pc_dequeued cs) bufs)) f2 = (outs, g)"
    by (rule on_process_parts [OF pos room run])
  have heap: "heap_ok f" using ok by (simp add: filter_ok_def)
  note h1 = begin_ports_heap_ok [OF b heap]
  have c1: "cycling f f1" by (rule begin_ports_cycling [OF pool _ b]) simp
  have len: "length cs = n_ports f" using begin_ports_turn [OF b pos] by metis
  have id1: "filter_id f1 = filter_id f"
  proof -
    obtain t t' where t: "n_ports t = n_ports f" "port_view 0 t = port_view 0 f" "begin_port env 0 t = (cs ! 0, t')"
      "port_view 0 f1 = port_view 0 t'" using begin_ports_turn [OF b pos] by metis
    then show ?thesis using begin_port_only [of 0 t env] pos by (simp add: only_port_def port_view_def)
  qed
  have k2: "push_keeps f1 f2 \<and> length bufs = n_ports f"
    using a pushes_keep [OF _ h1(1), of "th\<lparr>pwf_filter_processing := Some (filter_id f)\<rparr>" ps] pushes b len id1
    by (auto simp: push_app_def split: if_splits)
  then have c2: "cycling f f2" using cycling_trans [OF c1] same_run_cycling by (auto simp: push_keeps_def)
  have n2: "n_ports f2 = n_ports f" using cycling_ports [OF c2] .
  have h2: "heap_ok f2" using k2 h1 by (simp add: push_keeps_def)
  have h3: "heap_ok g"
    by (rule end_ports_heap_ok [of env f2 "map pc_dequeued cs" bufs outs]) (use e n2 len k2 h2 in simp_all)
  have c3: "cycling f g"
    by (rule cycling_trans [OF c2 end_ports_cycling [OF _ e]]) (auto simp: n2 dest: set_zip_leftD)
  show ?thesis
  proof (rule filter_ok_stays [OF ok])
    show "stays f g" "heap_ok g" "0 < n_ports f" using c3 h3 pos by (simp_all add: cycling_def)
    fix i assume i: "i < n_ports f" and pok: "port_ok (filter_state f) (get_port i f)"
    obtain t t' where t: "n_ports t = n_ports f" "port_view i t = port_view i f"
      "begin_port env i t = (cs ! i, t')" "port_view i f1 = port_view i t'"
      using begin_ports_turn [OF b i] by metis
    obtain u where u: "n_ports u = n_ports f" "port_view i u = port_view i f2"
      "port_view i g = port_view i (snd (end_port env i (map pc_dequeued cs ! i) (bufs ! i) u))"
      using end_ports_turn [OF e i n2] len k2 by (metis length_map)
    have same: "cycle_links (get_port i g) = cycle_links (get_port i f)" "cycle_links (get_port i f2) = cycle_links (get_port i f)"
      using c3 c2 i by (simp_all add: cycling_def)
    have ev: "event_input (get_port i u) = event_input (get_port i f)"
      using same(2) u(2) by (simp add: event_input_def cycle_links_def port_view_def)
    have "items (delivering_events (get_port i g)) = []"
    proof (cases "event_input (get_port i f)")
      case True
      then show ?thesis using u end_port_delivering [of i u env] i ev by (simp add: port_view_def)
    next
      case False
      then have "delivering_events (get_port i t') = delivering_events (get_port i f)"
        using begin_port_delivering [OF _ _ t(3)] t i by (simp add: port_view_def)
      moreover have "delivering_events (get_port i f2) = delivering_events (get_port i f1)"
        using k2 i cycling_ports [OF c1] by (simp add: push_keeps_def same_run_def port_links_def)
      ultimately show ?thesis using u t end_port_delivering [of i u env] i ev False pok
        by (simp add: port_view_def port_ok_def)
    qed
    then show "port_ok (filter_state g) (get_port i g)"
      using pok same(1) c3 started by (auto simp: port_ok_def cycling_def cycle_links_def)
  qed
qed

end
