(* ===== verification/Pwf_Filter_Runs.thy ===== *)
theory Pwf_Filter_Runs
  imports Pwf_Filter_Calls
begin

text \<open>
  Filters over time: the application's calls, the loop thread's events and the data thread's cycles
  in any order, from creation on; every one of them keeps \<open>filter_ok\<close>.
\<close>

section \<open>Waiting calls\<close>

lemma waited_ok:
  assumes ok: "filter_ok f" and w: "waited f g"
  shows "filter_ok g"
proof -
  have own: "own_core (get_port i g) = own_core (get_port i f)" if "i < n_ports f" for i
    using w that by (simp add: waited_def same_upto_def)
  have flds: "port_dir p = port_dir (own_core p)" "delivering_events p = delivering_events (own_core p)"
    "port_link_proxy p = port_link_proxy (own_core p)" "has_held p = has_held (own_core p)"
    "held_buf p = held_buf (own_core p)" for p
    by (simp_all add: own_core_def port_core_def)
  have "stays f g" using w by (simp add: waited_def same_upto_def stays_def)
  moreover have "same_memory f g" using w same_own_links same_links_memory by (auto simp: waited_def)
  ultimately show ?thesis
  proof (intro filter_ok_stays [OF ok])
    assume "same_memory f g"
    then show "heap_ok g" using ok same_memory_ok by (auto simp: filter_ok_def)
  next
    show "0 < n_ports f" if "filter_state g \<noteq> PWF_FILTER_STATE_CREATED"
      using that ok w by (simp add: filter_ok_def waited_def same_upto_def)
    fix i assume i: "i < n_ports f" and p: "port_ok (filter_state f) (get_port i f)"
    have "link_wait (get_port i g) = None" using w p by (simp add: waited_def port_ok_def)
    moreover have "filter_state g = filter_state f" using w by (simp add: waited_def same_upto_def)
    ultimately show "port_ok (filter_state g) (get_port i g)"
      using p unfolding port_ok_def flds [of "get_port i f"] flds [of "get_port i g"] own [OF i] by simp
  qed
qed

lemma sync_locked_waited:
  assumes "pwf_pw_core_sync_locked filter_dispatch env f = (r, g)"
  shows "waited f g"
  using filter_own.sync_inv_pair [OF _ assms, of f] filter_loop.sync_same [of f env]
    filter_waiting.sync_inv_pair [OF refl assms] assms
  by (simp add: waited_def same_client_def)

lemma enum_formats_waited:
  assumes "pwf_pw_enum_video_formats filter_dispatch env node params nid out n hf f = (r, g)"
  shows "waited f g"
proof -
  obtain x h where s: "pwf_pw_core_sync_locked filter_dispatch env (emit [Loop_lock] f) = (x, h)" by fastforce
  have h: "waited (emit [Loop_lock] f) h" by (rule sync_locked_waited [OF s])
  have out: "waited f (emit (cs @ [Loop_unlock] @ ds) h)" if "lock_depth cs = 0" "lock_depth ds = 0" for cs ds
    using h that by (simp add: waited_def same_upto_def)
  have two: "emit ds (emit cs c) = emit (cs @ ds) c" for ds cs and c :: pwf_filter by (simp add: emit_def)
  show ?thesis
  proof (cases "hf \<and> core (conn f) \<and> bound (registry f) \<and> nid \<noteq> 0 \<and> node \<noteq> None")
    case False
    then show ?thesis using assms
      by (cases node) (auto simp: pwf_pw_enum_video_formats_def Let_def two split: if_splits)
  next
    case True
    then obtain proxy where "node = Some proxy" by auto
    then have "g = emit [Proxy_destroy proxy, Loop_unlock] h \<or> g = emit [Proxy_destroy proxy, Loop_unlock, Log PWF_LOG_ERROR] h"
      using assms s True by (auto simp: pwf_pw_enum_video_formats_def Let_def two split: if_splits prod.splits)
    then show ?thesis using out [of "[Proxy_destroy proxy]" "[]"] out [of "[Proxy_destroy proxy]" "[Log PWF_LOG_ERROR]"] by auto
  qed
qed

lemma refuse_emits:
  "pwf_filter_refuse_in_callback th b f = (r, g) \<Longrightarrow> g = (if r then emit [Log PWF_LOG_ERROR] f else f)"
  by (auto simp: pwf_filter_refuse_in_callback_def Let_def)

lemma formats_ok:
  assumes ok: "filter_ok f"
    and run: "pwf_filter_get_target_video_formats th got env env2 node params t out n hf (Some f) = (r, Some g)"
  shows "filter_ok g"
proof -
  obtain b f1 where rf: "pwf_filter_refuse_in_callback th True f = (b, f1)" by fastforce
  have w1: "waited f f1" using refuse_emits [OF rf] by simp
  obtain res f2 where bd: "pwf_pw_registry_bind filter_dispatch got env f1 = (res, f2)" by fastforce
  have w2: "waited f f2" by (rule waited_trans [OF w1 bind_waited [OF bd]])
  let ?nid = "fst (pwf_resolve_target_node (registry f2) (the t))"
  obtain q h where en: "pwf_pw_enum_video_formats filter_dispatch env2 node params ?nid out n hf f2 = (q, h)" by fastforce
  have w3: "waited f h" by (rule waited_trans [OF w2 enum_formats_waited [OF en]])
  have "waited f g"
    using run rf bd en w1 w2 w3
    by (cases b) (auto simp: pwf_filter_get_target_video_formats_def on_handle_def Let_def split: if_splits option.splits)
  then show ?thesis by (rule waited_ok [OF ok])
qed

section \<open>Links\<close>

lemma link_frame_ok:
  assumes ok: "filter_ok f" and fr: "link_frame i f g"
    and proxy: "port_link_proxy (get_port i g) \<noteq> None \<Longrightarrow> port_link_proxy (get_port i f) \<noteq> None \<or>
      filter_state f = PWF_FILTER_STATE_RUNNING \<and> port_dir (get_port i f) = PWF_FILTER_PORT_INPUT"
  shows "filter_ok g"
proof (rule filter_ok_stays [OF ok])
  have core: "link_core (get_port j g) = link_core (get_port j f)" if "j < n_ports f" for j
    using fr that by (simp add: link_frame_def same_upto_def)
  have flds: "port_dir p = port_dir (link_core p)" "delivering_events p = delivering_events (link_core p)"
    "has_held p = has_held (link_core p)" "held_buf p = held_buf (link_core p)" for p
    by (simp_all add: link_core_def port_core_def)
  have state: "filter_state g = filter_state f" using fr by (simp add: link_frame_def same_upto_def)
  show "stays f g" using fr by (simp add: link_frame_def same_upto_def stays_def)
  have "same_memory f g" using fr same_links_memory by (auto simp: link_frame_def)
  then show "heap_ok g" using ok same_memory_ok by (auto simp: filter_ok_def)
  show "0 < n_ports f" if "filter_state g \<noteq> PWF_FILTER_STATE_CREATED" using that ok state by (simp add: filter_ok_def)
  fix j assume j: "j < n_ports f" and p: "port_ok (filter_state f) (get_port j f)"
  have "link_wait (get_port j g) = None" using fr p by (simp add: link_frame_def port_ok_def)
  moreover have "port_dir (get_port j g) = port_dir (get_port j f)" "delivering_events (get_port j g) = delivering_events (get_port j f)"
    "has_held (get_port j g) = has_held (get_port j f)" "held_buf (get_port j g) = held_buf (get_port j f)"
    using flds [of "get_port j g"] flds [of "get_port j f"] core [OF j] by simp_all
  moreover have "port_link_proxy (get_port j g) \<noteq> None \<Longrightarrow>
      filter_state f = PWF_FILTER_STATE_RUNNING \<and> port_dir (get_port j f) = PWF_FILTER_PORT_INPUT"
    using fr p proxy j by (cases "j = i") (auto simp: link_frame_def port_ok_def)
  ultimately show "port_ok (filter_state g) (get_port j g)" using p state by (simp add: port_ok_def)
qed

lemma port_link_ok:
  assumes ok: "filter_ok f" and i: "i < n_ports f" and run: "port_link th env i t f = (r, g)"
  shows "filter_ok g"
proof (rule link_frame_ok [OF ok])
  note spec = port_link_spec [OF i run]
  show "link_frame i f g" using spec by simp
  assume "port_link_proxy (get_port i g) \<noteq> None"
  moreover have "filter_state f = PWF_FILTER_STATE_RUNNING \<and> port_dir (get_port i f) = PWF_FILTER_PORT_INPUT" if "r = PWF_OK"
  proof -
    obtain b f1 where rf: "pwf_filter_refuse_in_callback th True f = (b, f1)" by fastforce
    show ?thesis using run rf refuse_emits [OF rf] that
      by (auto simp: port_link_def split: option.splits if_splits)
  qed
  ultimately show "port_link_proxy (get_port i f) \<noteq> None \<or>
      filter_state f = PWF_FILTER_STATE_RUNNING \<and> port_dir (get_port i f) = PWF_FILTER_PORT_INPUT"
    using spec by (cases "r = PWF_OK") auto
qed

text \<open>Releasing one link.\<close>

lemma release_port_links:
  assumes "i < n_ports f"
  shows "stays f (pwf_filter_port_link_release i f)" "filter_state (pwf_filter_port_link_release i f) = filter_state f"
    "hold_fields (get_port j (pwf_filter_port_link_release i f)) = hold_fields (get_port j f)"
    "port_links (get_port j (pwf_filter_port_link_release i f)) =
       (let (d, m, ev, q, w) = port_links (get_port j f) in (d, m, ev, if j = i then None else q, w))"
  using assms
  by (auto simp: pwf_filter_port_link_release_def get_port_map_port port_links_def hold_fields_def Let_def
      split: option.split)

lemma release_ports_links:
  assumes "\<forall>i\<in>set is. i < n_ports f"
  shows "stays f (fold pwf_filter_port_link_release is f) \<and>
    filter_state (fold pwf_filter_port_link_release is f) = filter_state f \<and>
    (\<forall>j. hold_fields (get_port j (fold pwf_filter_port_link_release is f)) = hold_fields (get_port j f) \<and>
       port_links (get_port j (fold pwf_filter_port_link_release is f)) =
       (let (d, m, ev, q, w) = port_links (get_port j f) in (d, m, ev, if j \<in> set is then None else q, w)))"
  using assms
proof (induction "is" arbitrary: f)
  case (Cons i "is")
  let ?g = "pwf_filter_port_link_release i f"
  have i: "i < n_ports f" using Cons.prems by simp
  note one = release_port_links [OF i]
  have "n_ports ?g = n_ports f" using one(1) by (simp add: stays_def)
  then show ?case using Cons.IH [of ?g] Cons.prems one stays_trans [OF one(1)]
    by (auto simp: Let_def split: prod.splits)
qed simp

lemma unlink_ok:
  assumes ok: "filter_ok f" and i: "\<forall>i. port = Some i \<longrightarrow> i < n_ports f" and run: "pwf_filter_port_unlink th port f = (r, g)"
  shows "filter_ok g"
proof -
  obtain b f1 where rf: "pwf_filter_refuse_in_callback th False f = (b, f1)" by fastforce
  note e = refuse_emits [OF rf]
  have ok_emit: "filter_ok (emit cs f)" if "lock_depth cs = 0" for cs
    by (rule filter_ok_stays [OF ok]) (use ok that in \<open>simp_all add: filter_ok_def\<close>)
  show ?thesis
  proof (cases "g = f \<or> g = emit [Log PWF_LOG_ERROR] f")
    case True
    then show ?thesis using ok ok_emit [of "[Log PWF_LOG_ERROR]"] by auto
  next
    case False
    then obtain i where p: "port = Some i" and g: "g = emit [Loop_unlock] (pwf_filter_port_link_release i (emit [Loop_lock] f))"
      using run rf e by (cases port; cases b) (auto simp: pwf_filter_port_unlink_def split: if_splits)
    have n: "i < n_ports f" using i p by simp
    note rel = release_port_links [of i "emit [Loop_lock] f"]
    have "stays f g" using rel(1) n by (simp add: g stays_def)
    moreover have "heap_ok g"
      using ok release_frame(1,4,5) [of i "emit [Loop_lock] f"] n
        same_memory_ok [of f "pwf_filter_port_link_release i (emit [Loop_lock] f)"]
      by (simp add: g filter_ok_def same_memory_def)
    moreover have st: "filter_state g = filter_state f" using rel(2) n by (simp add: g)
    ultimately show ?thesis
    proof (intro filter_ok_stays [OF ok])
      show "0 < n_ports f" using n by simp
      fix j assume "j < n_ports f" "port_ok (filter_state f) (get_port j f)"
      then show "port_ok (filter_state g) (get_port j g)"
        using rel(3,4) [of j] n st
        by (auto simp: port_ok_def port_links_def hold_fields_def g Let_def split: if_splits)
    qed
  qed
qed

section \<open>Stopping and starting\<close>

lemma drained_waited: "waited (emit [Loop_lock] f) (drained_filter sched drain f)"
proof -
  let ?u = "emit [Filter_flush (pw_filter f)] ((emit [Loop_lock] f)\<lparr>filter_drained := False\<rparr>)"
  obtain b t where w: "loop_wait filter_drained filter_dispatch (fst sched) (snd sched) ?u = (b, t)" by fastforce
  have u: "waited (emit [Loop_lock] f) ?u" by (simp add: waited_def same_upto_def)
  have "waited ?u t"
    using filter_own.wait_inv_pair [OF _ w, of ?u] filter_loop.same.wait_inv_pair [OF _ w, of ?u]
      filter_waiting.wait_inv_pair [OF refl w]
    by (simp add: waited_def same_client_def)
  then have "waited (emit [Loop_lock] f) t" by (rule waited_trans [OF u])
  then show ?thesis using w by (cases b) (simp_all add: drained_filter_def)
qed

lemma hold_reset_run: "same_run f (hold_reset f)"
proof -
  have one: "same_run g (reset_hold i g)" if "i < n_ports g" for i g
    using that by (auto simp: reset_hold_def same_run_def get_port_map_port port_links_def split: option.split)
  have "same_run f (hold_reset f) \<and> n_ports (hold_reset f) = n_ports f"
    unfolding hold_reset_def
    by (rule fold_ports [where P = "same_run f"]) (use one same_run_trans same_run_ports in auto)
  then show ?thesis ..
qed

lemma stop_ok:
  assumes ok: "filter_ok f" and run: "filter_stop th sched drain f = (r, g)"
  shows "filter_ok g"
proof -
  obtain b f1 where rf: "pwf_filter_refuse_in_callback th drain f = (b, f1)" by fastforce
  note e = refuse_emits [OF rf]
  show ?thesis
  proof (cases "b \<or> filter_state f \<noteq> PWF_FILTER_STATE_RUNNING")
    case True
    then show ?thesis using run rf e waited_ok [OF ok, of "emit [Log PWF_LOG_ERROR] f"] ok
      by (auto simp: filter_stop_eq split: if_splits)
  next
    case False
    define t where "t = drained_filter sched drain f"
    define u where "u = emit [Filter_set_active (pw_filter t) False] t"
    define v where "v = emit [Loop_unlock] ((hold_reset u)\<lparr>filter_state := PWF_FILTER_STATE_STOPPED\<rparr>)"
    have g: "g = pwf_filter_release_all_links v"
      using run rf e False by (auto simp: filter_stop_eq Let_def t_def u_def v_def)
    have go: "\<not> fst (pwf_filter_refuse_in_callback th drain f)" using rf False by simp
    have heap: "heap_ok g" using filter_stop_spec(2) [OF go _ _ run] ok False by (simp add: filter_ok_def)
    have w: "waited (emit [Loop_lock] f) u" using drained_waited [of f sched drain] by (simp add: u_def t_def)
    have n: "n_ports u = n_ports f" using waited_ports [OF w] by simp
    have s1: "loop (conn u) = loop (conn f)" "held u = held f + 1" "core (conn u) = core (conn f)" "pw_filter u = pw_filter f"
      "process_cb u = process_cb f" "faults u = faults f" "registry_ok (registry f) \<Longrightarrow> registry_ok (registry u)"
      "capacity (filter_ports u) = capacity (filter_ports f)"
      using w by (simp_all add: waited_def same_upto_def)
    note hr = hold_reset_run [of u]
    have sv: "stays f v" using hr s1 n by (simp add: v_def same_run_def stays_def n_ports_def)
    have nv: "n_ports v = n_ports f" using sv by (simp add: stays_def)
    have some: "loop (conn v) \<noteq> None" using sv ok by (simp add: stays_def filter_ok_def)
    let ?l = "emit [Loop_lock] v"
    have rel: "stays ?l (fold pwf_filter_port_link_release [0..<n_ports v] ?l)"
      "filter_state (fold pwf_filter_port_link_release [0..<n_ports v] ?l) = PWF_FILTER_STATE_STOPPED"
      "j < n_ports v \<Longrightarrow> port_links (get_port j (fold pwf_filter_port_link_release [0..<n_ports v] ?l)) =
        (let (d, m, ev, q, w) = port_links (get_port j v) in (d, m, ev, None, w))" for j
      using release_ports_links [of "[0..<n_ports v]" ?l] by (simp_all add: v_def Let_def split: prod.splits)
    have g': "g = emit [Loop_unlock] (fold pwf_filter_port_link_release [0..<n_ports v] ?l)"
      using some by (auto simp: g pwf_filter_release_all_links_def)
    have "stays f g" using rel(1) sv by (simp add: g' stays_def)
    then show ?thesis
    proof (rule filter_ok_stays [OF ok _ heap])
      show "0 < n_ports f" using ok False by (simp add: filter_ok_def)
      fix j assume j: "j < n_ports f" and p: "port_ok (filter_state f) (get_port j f)"
      have "port_links (get_port j v) = port_links (get_port j u)" using hr j n by (simp add: v_def same_run_def)
      moreover have "port_dir (get_port j u) = port_dir (get_port j f)"
        "delivering_events (get_port j u) = delivering_events (get_port j f)"
      proof -
        have "own_core (get_port j u) = own_core (get_port j f)" using w j by (simp add: waited_def same_upto_def)
        moreover have "port_dir p = port_dir (own_core p)" "delivering_events p = delivering_events (own_core p)" for p
          by (simp_all add: own_core_def port_core_def)
        ultimately show "port_dir (get_port j u) = port_dir (get_port j f)"
          "delivering_events (get_port j u) = delivering_events (get_port j f)" by metis+
      qed
      moreover have "link_wait (get_port j u) = None" using w p by (simp add: waited_def port_ok_def)
      ultimately show "port_ok (filter_state g) (get_port j g)"
        using rel(2) rel(3) [of j] j nv p by (simp add: g' port_ok_def port_links_def)
    qed
  qed
qed

lemma start_ok:
  assumes ok: "filter_ok f" and run: "filter_start th ans f = (r, g)"
  shows "filter_ok g"
proof -
  obtain b f1 where rf: "pwf_filter_refuse_in_callback th False f = (b, f1)" by fastforce
  note e = refuse_emits [OF rf]
  have quiet: "filter_ok (emit cs f)" if "lock_depth cs = 0" for cs
    by (rule waited_ok [OF ok]) (simp add: that)
  have running: "filter_ok ((emit cs f)\<lparr>filter_state := PWF_FILTER_STATE_RUNNING\<rparr>)"
    if "lock_depth cs = 0" "0 < n_ports f" for cs
    by (rule filter_ok_stays [OF ok]) (use ok that in \<open>auto simp: filter_ok_def port_ok_def\<close>)
  have hint: "\<exists>cs. lock_depth cs = 0 \<and> pwf_filter_apply_period_hint h = emit cs h" for h
  proof (cases "period_hint_ns h = 0")
    case True
    then show ?thesis by (intro exI [of _ "[]"]) (simp add: pwf_filter_apply_period_hint_def)
  next
    case False
    then show ?thesis unfolding pwf_filter_apply_period_hint_def by (auto intro!: exI)
  qed
  have two: "emit ds (emit cs c) = emit (cs @ ds) c" for ds cs and c :: pwf_filter by (simp add: emit_def)
  obtain cs where h: "lock_depth cs = 0" "pwf_filter_apply_period_hint (emit [Loop_lock] f) = emit cs (emit [Loop_lock] f)"
    using hint by blast
  show ?thesis
    using run rf e quiet running h ok
    by (cases b) (auto simp: filter_start_def Let_def two split: if_splits)
qed

section \<open>Settings and ports\<close>

lemma set_hold_ok:
  assumes ok: "filter_ok f" and i: "\<forall>i. port = Some i \<longrightarrow> i < n_ports f" and run: "pwf_filter_port_set_hold port b f = (r, g)"
  shows "filter_ok g"
proof (cases "g = f")
  case False
  then obtain i where p: "port = Some i" "filter_state f = PWF_FILTER_STATE_CREATED"
    and g: "g = map_port i (\<lambda>p. p\<lparr>hold_enabled := b\<rparr>) f"
    using run by (cases port) (auto simp: pwf_filter_port_set_hold_def split: if_splits)
  have n: "i < n_ports f" using i p by simp
  then have "port_ok PWF_FILTER_STATE_CREATED (get_port i f)" "port_mem_ok (get_port i f)" "heap_ok f"
    using ok p by (auto simp: filter_ok_def heap_ok_def)
  then have heap: "heap_ok g" unfolding g using n
    by (intro map_port_heap_ok) (simp_all add: port_mem_ok_def hold_in_block_def port_ok_def)
  have "same_run f g" unfolding g by (rule same_run_map_port [OF n]) (simp add: port_links_def)
  then show ?thesis by (rule filter_ok_run [OF ok _ heap]) (auto simp: g n get_port_map_port)
qed (use ok in simp)

lemma fresh_set [intro]:
  "fresh_port (port_zero\<lparr>pw_port_name := name, port_dir := d, port_media := m, port_config := c, port_use_dmabuf := b\<rparr>)"
  by (simp add: fresh_port_def port_zero_def growable_empty_def)

lemma add_ports_ok:
  assumes ok: "filter_ok f"
  shows "filter_add_audio_port env dir acfg f = (r, g) \<Longrightarrow> filter_ok g"
    "filter_add_signal_port env dir f = (r, g) \<Longrightarrow> filter_ok g"
    "filter_add_event_port env dir f = (r, g) \<Longrightarrow> filter_ok g"
    "filter_add_video_port_ex env dir vcfg opts f = (r, g) \<Longrightarrow> filter_ok g"
  using ok
  by (auto simp: filter_add_audio_port_def filter_add_signal_port_def filter_add_event_port_def
      filter_add_video_port_ex_def Let_def fresh_port_def port_zero_def growable_empty_def
      split: option.splits if_splits elim!: finish_add_port_ok [rotated 3])

lemma period_hint_ok:
  assumes ok: "filter_ok f" and run: "filter_set_period_hint n f = (r, g)"
  shows "filter_ok g"
proof -
  have "filter_ok (f\<lparr>period_hint_ns := n\<rparr>) = filter_ok f"
    by (simp add: filter_ok_def held_def n_ports_def get_port_def heap_ok_def blocks_ok_def blocks_unique_def
        no_leak_def block_def block_size_def cong: option.case_cong)
  then show ?thesis using ok run by (auto simp: filter_set_period_hint_def split: if_splits)
qed

lemma error_callback_ok: "filter_ok (f\<lparr>filter_error_cb := b\<rparr>) = filter_ok f"
  by (simp add: filter_ok_def held_def n_ports_def get_port_def heap_ok_def blocks_ok_def blocks_unique_def
      no_leak_def block_def block_size_def cong: option.case_cong)

section \<open>Runs\<close>

datatype filter_op =
    Filter_event filter_event
  | Filter_error_callback bool
  | Filter_period_hint u32
  | Filter_audio_port add_port_env pwf_filter_port_direction "pwf_audio_config option"
  | Filter_signal_port add_port_env pwf_filter_port_direction
  | Filter_event_port add_port_env pwf_filter_port_direction
  | Filter_video_port add_port_env pwf_filter_port_direction "pwf_video_config option" "pwf_port_memory option"
  | Filter_hold "nat option" bool
  | Filter_push pwf_thread filter_push
  | Filter_start pwf_thread int
  | Filter_stop pwf_thread "filter_event schedule" bool
  | Filter_formats pwf_thread bool "filter_event sync_env" "filter_event sync_env" "nat option"
      "(spa_param_type \<times> enum_format_param option) list" "string option"
      "pwf_video_format_info list option" nat bool
  | Filter_link pwf_thread port_link_env "nat option" "string option"
  | Filter_unlink pwf_thread "nat option"
  | Filter_cycle cycle_env pwf_thread "filter_push list" "nat \<Rightarrow> nat"

text \<open>The filter after a call; results are not kept.\<close>

fun filter_call :: "filter_op \<Rightarrow> pwf_filter \<Rightarrow> pwf_filter" where
  "filter_call (Filter_event e) f = filter_dispatch e f"
| "filter_call (Filter_error_callback b) f = f\<lparr>filter_error_cb := b\<rparr>"
| "filter_call (Filter_period_hint n) f = snd (filter_set_period_hint n f)"
| "filter_call (Filter_audio_port env dir cfg) f = snd (filter_add_audio_port env dir cfg f)"
| "filter_call (Filter_signal_port env dir) f = snd (filter_add_signal_port env dir f)"
| "filter_call (Filter_event_port env dir) f = snd (filter_add_event_port env dir f)"
| "filter_call (Filter_video_port env dir cfg opts) f = snd (filter_add_video_port_ex env dir cfg opts f)"
| "filter_call (Filter_hold port b) f = snd (pwf_filter_port_set_hold port b f)"
| "filter_call (Filter_push th p) f = run_push th p f"
| "filter_call (Filter_start th ans) f = snd (filter_start th ans f)"
| "filter_call (Filter_stop th sched drain) f = snd (filter_stop th sched drain f)"
| "filter_call (Filter_formats th got env env2 node params t out n hf) f =
     the (snd (pwf_filter_get_target_video_formats th got env env2 node params t out n hf (Some f)))"
| "filter_call (Filter_link th env port t) f = snd (pwf_filter_port_link th env port t f)"
| "filter_call (Filter_unlink th port) f = snd (pwf_filter_port_unlink th port f)"
| "filter_call (Filter_cycle env th ps sizes) f = snd (pwf_filter_on_process env (push_app ps sizes) th f)"

text \<open>
  What a call relies on: port handles of this filter, \<open>realloc\<close> and the pool behaving as documented,
  and cycles only once the filter has been started.
\<close>

fun op_ok :: "filter_op \<Rightarrow> pwf_filter \<Rightarrow> bool" where
  "op_ok (Filter_hold port b) f = port_in_range port f"
| "op_ok (Filter_push th p) f = push_ok p f"
| "op_ok (Filter_link th env port t) f = port_in_range port f"
| "op_ok (Filter_unlink th port) f = port_in_range port f"
| "op_ok (Filter_cycle env th ps sizes) f =
     (filter_state f \<noteq> PWF_FILTER_STATE_CREATED \<and> pool_ok env \<and>
      pushes_ok (th\<lparr>pwf_filter_processing := Some (filter_id f)\<rparr>) ps (snd (begin_ports env [0..<n_ports f] f)))"
| "op_ok _ f = True"

inductive filter_runs :: "pwf_filter \<Rightarrow> filter_op list \<Rightarrow> pwf_filter \<Rightarrow> bool" where
  filter_run_nil: "filter_runs f [] f"
| filter_run_cons: "op_ok op f \<Longrightarrow> filter_runs (filter_call op f) ops g \<Longrightarrow> filter_runs f (op # ops) g"

inductive_simps filter_runs_simps [simp]:
  "filter_runs f [] g"
  "filter_runs f (op # ops) g"

lemma push_ok_ok:
  assumes ok: "filter_ok f" and p: "push_ok p f"
  shows "filter_ok (run_push th p f)"
proof -
  have heap: "heap_ok f" using ok by (simp add: filter_ok_def)
  note k = run_push_keeps [OF p heap, of th]
  have "hold_fields (get_port i (run_push th p f)) = hold_fields (get_port i f)" if "i < n_ports f" for i
    using k that by (simp add: push_keeps_def)
  then show ?thesis using k heap by (intro filter_ok_run [OF ok]) (auto simp: push_keeps_def hold_fields_def)
qed

lemma filter_call_ok:
  assumes ok: "filter_ok f" and v: "op_ok op f"
  shows "filter_ok (filter_call op f)"
proof (cases op)
  case (Filter_event e)
  then show ?thesis using filter_dispatch_ok [OF ok] by simp
next
  case (Filter_error_callback b)
  then show ?thesis using ok by (simp add: error_callback_ok)
next
  case (Filter_period_hint n)
  then show ?thesis using period_hint_ok [OF ok, of n] by (cases "filter_set_period_hint n f") simp
next
  case (Filter_audio_port env dir cfg)
  then show ?thesis using add_ports_ok(1) [OF ok, of env dir cfg] by (cases "filter_add_audio_port env dir cfg f") simp
next
  case (Filter_signal_port env dir)
  then show ?thesis using add_ports_ok(2) [OF ok, of env dir] by (cases "filter_add_signal_port env dir f") simp
next
  case (Filter_event_port env dir)
  then show ?thesis using add_ports_ok(3) [OF ok, of env dir] by (cases "filter_add_event_port env dir f") simp
next
  case (Filter_video_port env dir cfg opts)
  then show ?thesis using add_ports_ok(4) [OF ok, of env dir cfg opts]
    by (cases "filter_add_video_port_ex env dir cfg opts f") simp
next
  case (Filter_hold port b)
  then show ?thesis using set_hold_ok [OF ok, of port b] v
    by (cases "pwf_filter_port_set_hold port b f") (auto simp: port_in_range_def split: option.splits)
next
  case (Filter_push th p)
  then show ?thesis using push_ok_ok [OF ok] v by simp
next
  case (Filter_start th ans)
  then show ?thesis using start_ok [OF ok, of th ans] by (cases "filter_start th ans f") simp
next
  case (Filter_stop th sched drain)
  then show ?thesis using stop_ok [OF ok, of th sched drain] by (cases "filter_stop th sched drain f") simp
next
  case (Filter_formats th got env env2 node params t out n hf)
  obtain r h where "pwf_filter_get_target_video_formats th got env env2 node params t out n hf (Some f) = (r, h)" by fastforce
  moreover have "h \<noteq> None" using calculation
    by (auto simp: pwf_filter_get_target_video_formats_def on_handle_def split: prod.splits if_splits)
  ultimately show ?thesis using Filter_formats formats_ok [OF ok] by auto
next
  case (Filter_link th env port t)
  then show ?thesis using port_link_ok [OF ok, of _ th env t] v ok
    by (cases port; cases "pwf_filter_port_link th env port t f") (auto simp: pwf_filter_port_link_def port_in_range_def)
next
  case (Filter_unlink th port)
  then show ?thesis using unlink_ok [OF ok, of port th] v
    by (cases "pwf_filter_port_unlink th port f") (auto simp: port_in_range_def split: option.splits)
next
  case (Filter_cycle env th ps sizes)
  then show ?thesis using on_process_ok [OF ok, of env th ps sizes] v
    by (cases "pwf_filter_on_process env (push_app ps sizes) th f") auto
qed

lemma filter_runs_ok: "filter_runs f ops g \<Longrightarrow> filter_ok f \<Longrightarrow> filter_ok g"
  by (induction rule: filter_runs.induct) (auto intro: filter_call_ok)

lemma created_filter_ok:
  assumes run: "pwf_filter_create env name cb g = (Some f, x, g')"
  shows "filter_ok f" "n_ports f = 0"
proof -
  obtain addr where m: "fc_mem env = Some addr"
    using run by (cases "fc_mem env") (auto simp: pwf_filter_create_def Let_def split: if_splits)
  define f0 where "f0 = filter_zero\<lparr>filter_id := addr, filter_state := PWF_FILTER_STATE_CREATED,
      process_cb := cb, filter_name := (if name \<noteq> None \<and> name \<noteq> Some [] then name else None)\<rparr>"
  obtain res k cs where c: "pwf_pw_core_connect (fc_connect env) (conn f0) = (res, k, cs)" by (metis prod_cases3)
  have res: "0 \<le> res" and cb: cb and p: "fc_new_filter env \<noteq> None"
    and f: "\<exists>ds. lock_depth ds = 0 \<and> f = emit ds (emit cs (f0\<lparr>conn := k, pw_filter := fc_new_filter env\<rparr>))"
    using run m c
    by (auto simp: pwf_filter_create_def Let_def f0_def emit_def filter_zero_def split: if_splits)
  note k = connect_kept [OF c]
  obtain ds where ds: "lock_depth ds = 0" "f = emit ds (emit cs (f0\<lparr>conn := k, pw_filter := fc_new_filter env\<rparr>))"
    using f by blast
  have z: "n_ports f0 = 0" "heap f0 = Map.empty" "growable_ok (filter_ports f0)" "held f0 = 0" "faults f0 = []"
    "registry_ok (registry f0)" "process_cb f0 = cb" "filter_state f0 = PWF_FILTER_STATE_CREATED"
    by (simp_all add: f0_def filter_zero_def n_ports_def growable_empty_def growable_ok_def held_def registry_ok_def
        registry_zero_def)
  then have "heap_ok f0" by (simp add: heap_ok_def blocks_ok_def blocks_unique_def no_leak_def)
  moreover have "heap_ok f = heap_ok f0" by (simp add: ds)
  moreover have "held f = held f0" using ds k by simp
  ultimately show "filter_ok f" "n_ports f = 0" using k res z p cb by (auto simp: filter_ok_def ds)
qed

end
