(* ===== verification/Pwf_Link_Properties.thy ===== *)
theory Pwf_Link_Properties
  imports Pwf_Filter_Runs
begin

text \<open>
  Properties of a filter's own links: what a target names, when a link call returns and with what,
  what it leaves of the port, and what undoing a link means for the reports of lost sources.
\<close>

section \<open>Linking\<close>

lemma negotiated_first:
  assumes "\<forall>v\<in>set ws. link_answers i v = []" and "link_answers i w \<noteq> []"
  shows "negotiated i (ws @ w # rest) = last (link_answers i w)"
  using assms by (simp add: negotiated_def)

text \<open>C10: liveness. A link the server accepts to create is settled by the first wake-up before the
  deadline that decides it, whatever else the loop thread dispatches before: the call returns the
  decision, the port has the link exactly if it is a success, and otherwise the new proxy has been
  destroyed, once.\<close>

theorem link_settles:
  assumes "i < n_ports f" and "pl_proxy env = Some proxy" and "pl_props_ok env"
    and "fst (pl_sched env) = ws @ w # rest"
    and "\<forall>v\<in>set ws. link_answers i v = []" and "link_answers i w \<noteq> []"
  shows "\<exists>g. create_port_link env i own nid pid f = (last (link_answers i w), g) \<and>
    link_wait (get_port i g) = None \<and>
    port_link_proxy (get_port i g) = (if last (link_answers i w) = PWF_OK then Some proxy else None) \<and>
    destroyed proxy g = destroyed proxy f + (if last (link_answers i w) = PWF_OK then 0 else 1)"
proof -
  obtain r g where run: "create_port_link env i own nid pid f = (r, g)" by fastforce
  note s = create_port_link_spec [OF assms(1-3) run]
  have "r = last (link_answers i w)" using s(2) negotiated_first [OF assms(5,6)] assms(4) by simp
  with run s(3,4) s(5) [of proxy] show ?thesis by simp
qed

definition waiting_filter :: pwf_filter where
  "waiting_filter = filter_zero\<lparr>filter_state := PWF_FILTER_STATE_RUNNING, pw_filter := Some 6, process_cb := True,
     conn := conn_zero\<lparr>loop := Some 1, core := True\<rparr>,
     filter_ports := \<lparr>items = [port_zero\<lparr>port_dir := PWF_FILTER_PORT_INPUT\<rparr>], capacity = 4\<rparr>\<rparr>"

definition refusing_server :: port_link_env where
  "refusing_server = \<lparr>pl_got_registry = True,
     pl_bind = \<lparr>sync_seq = 3, sync_wakes = [], sync_late = []\<rparr>,
     pl_pick = (\<lambda>_. \<lparr>sync_seq = 3, sync_wakes = [], sync_late = []\<rparr>),
     pl_own = (\<lambda>_. \<lparr>oa_node_id = 40, oa_sleep = [], oa_sync = \<lparr>sync_seq = 3, sync_wakes = [], sync_late = []\<rparr>\<rparr>),
     pl_node_id = 40, pl_props_ok = True, pl_proxy = Some 8,
     pl_sched = ([[FEv_drained], [FEv_link_info 0 True PW_LINK_STATE_ERROR]], [])\<rparr>"

theorem link_settles_witness:
  "\<exists>g. create_port_link refusing_server 0 41 30 31 waiting_filter = (PWF_ERR_INVALID_FORMAT, g) \<and> destroyed 8 g = 1"
proof -
  have n: "0 < n_ports waiting_filter" "destroyed 8 waiting_filter = 0"
    by (simp_all add: waiting_filter_def n_ports_def destroyed_def filter_zero_def)
  have a: "link_answers 0 [FEv_drained] = []"
    "link_answers 0 [FEv_link_info 0 True PW_LINK_STATE_ERROR] = [PWF_ERR_INVALID_FORMAT]"
    by (simp_all add: link_answers_def link_answer_def map_filter_def)
  show ?thesis
    using link_settles [of 0 waiting_filter refusing_server 8 "[[FEv_drained]]"
        "[FEv_link_info 0 True PW_LINK_STATE_ERROR]" "[]" 41 30 31] n a
    by (auto simp: refusing_server_def)
qed

text \<open>C17: error. Whatever happens during a link request, from a refused argument to a lookup that fails or
  a link that is not negotiated: it succeeds only for a port that had no link, which then has the one
  the server made; any other outcome leaves the port's link as it was; no other port's link, memory
  block or hold changes, and the lock is not kept.\<close>

theorem port_link_outcome:
  assumes "i < n_ports f" and "pwf_filter_port_link th env (Some i) t f = (r, g)"
  shows "link_frame i f g \<and> same_memory f g \<and>
    (r = PWF_OK \<longrightarrow> port_link_proxy (get_port i f) = None \<and> port_link_proxy (get_port i g) = pl_proxy env \<and>
       pl_proxy env \<noteq> None) \<and>
    (r \<noteq> PWF_OK \<longrightarrow> port_link_proxy (get_port i g) = port_link_proxy (get_port i f))"
proof -
  have "port_link th env i t f = (r, g)" using assms(2) by (simp add: pwf_filter_port_link_def)
  note s = port_link_spec [OF assms(1) this]
  then show ?thesis using same_links_memory [of f g] by (auto simp: link_frame_def)
qed

theorem port_link_outcome_witness:
  "\<exists>g. pwf_filter_port_link app_thread refusing_server (Some 0) (Some '''') waiting_filter = (PWF_ERR_INVALID_ARG, g) \<and>
     port_link_proxy (get_port 0 g) = None"
proof -
  obtain r g where run: "pwf_filter_port_link app_thread refusing_server (Some 0) (Some '''') waiting_filter = (r, g)"
    by fastforce
  moreover have "r = PWF_ERR_INVALID_ARG" using run by (simp add: pwf_filter_port_link_def port_link_def)
  moreover have "0 < n_ports waiting_filter" "port_link_proxy (get_port 0 waiting_filter) = None"
    by (simp_all add: waiting_filter_def n_ports_def get_port_def port_zero_def)
  ultimately show ?thesis using port_link_outcome [OF _ run] by auto
qed

section \<open>How long a link request waits\<close>

lemma sync_locked_locks: "pwf_pw_core_sync_locked filter_dispatch env c = (r, c') \<Longrightarrow> locks_taken c' = locks_taken c"
  using locks_loop.wait_inv [of "c\<lparr>conn := (conn c)\<lparr>pending_seq := sync_seq env, sync_done := False, connect_result := 0\<rparr>\<rparr>"
      "locks_taken c" "\<lambda>s. sync_done (conn s)" "sync_wakes env" "sync_late env"]
  by (auto simp: pwf_pw_core_sync_locked_def Let_def split: prod.splits bool.splits)

lemma registry_sync_locks:
  assumes "pwf_pw_registry_sync filter_dispatch env c = (r, c')"
  shows "locks_taken c' \<le> locks_taken c + 1"
proof -
  obtain q d where s: "pwf_pw_core_sync_locked filter_dispatch env (emit [Loop_lock] c) = (q, d)" by fastforce
  show ?thesis using assms s sync_locked_locks [OF s]
    by (auto simp: pwf_pw_registry_sync_def counted_emit split: if_splits)
qed

lemma bind_locks:
  assumes "pwf_pw_registry_bind filter_dispatch got env c = (r, c')"
  shows "locks_taken c' \<le> locks_taken c + 1"
proof -
  let ?c2 = "(emit [Loop_lock] c)\<lparr>registry := (registry c)\<lparr>bound := got\<rparr>\<rparr>"
  obtain q d where s: "pwf_pw_core_sync_locked filter_dispatch env ?c2 = (q, d)" by fastforce
  show ?thesis using assms s sync_locked_locks [OF s]
    by (auto simp: pwf_pw_registry_bind_def Let_def counted_emit split: if_splits)
qed

lemma pick_locks:
  assumes "pick_attempts env nid k f = (p, g)"
  shows "locks_taken g \<le> locks_taken f + k"
  using assms
proof (induction k arbitrary: f)
  case (Suc k)
  obtain r h where s: "pwf_pw_registry_sync filter_dispatch (env k) f = (r, h)" by fastforce
  show ?case using Suc.prems Suc.IH [of h] s registry_sync_locks [OF s]
    by (auto simp: list_ports_eq counted_emit split: if_splits)
qed simp

lemma resolve_locks:
  assumes "pwf_resolve_target env t f = (r, g)"
  shows "locks_taken g \<le> locks_taken f + PWF_TARGET_PORT_ATTEMPTS"
  using assms pick_locks
  by (auto simp: pwf_resolve_target_def pwf_pick_target_port_def Let_def split: prod.splits if_splits option.splits)

lemma own_locks:
  assumes "own_attempts env i k f = (p, g)"
  shows "locks_taken g \<le> locks_taken f + k"
  using assms
proof (induction k arbitrary: f)
  case (Suc k)
  define f1 where "f1 = (if oa_node_id (env k) \<noteq> SPA_ID_INVALID
      then map_port i (\<lambda>p. p\<lparr>own_global_id := pwf_pw_registry_find_port (registry f) (oa_node_id (env k))
                               (pw_port_name p) SPA_DIRECTION_INPUT\<rparr>) f else f)"
  have f1: "locks_taken f1 = locks_taken f" by (simp add: f1_def)
  obtain r h where s: "pwf_pw_registry_sync filter_dispatch (oa_sync (env k)) (fold filter_dispatch (oa_sleep (env k)) f1) = (r, h)"
    by fastforce
  have "locks_taken (fold filter_dispatch (oa_sleep (env k)) f1) = locks_taken f" by (rule locks_loop.fold_inv) (rule f1)
  then have h: "locks_taken h \<le> locks_taken f + 1" using registry_sync_locks [OF s] by simp
  have "own_attempts env i (Suc k) f =
      (if oa_node_id (env k) \<noteq> SPA_ID_INVALID \<and> own_global_id (get_port i f1) \<noteq> 0 then (own_global_id (get_port i f1), f1)
       else if r < 0 then (0, h) else own_attempts env i k h)"
    unfolding own_attempts.simps Let_def f1_def [symmetric] s by simp
  then show ?case using Suc.prems Suc.IH [of h] h f1 by (auto split: if_splits)
qed simp

lemma own_port_locks:
  assumes "pwf_resolve_own_port_id env i f = (p, g)"
  shows "locks_taken g \<le> locks_taken f + PWF_OWN_PORT_ATTEMPTS"
  using assms own_locks [of env i PWF_OWN_PORT_ATTEMPTS f p g] by (auto simp: pwf_resolve_own_port_id_def split: if_splits)

lemma await_locks:
  assumes "await_link i proxy sched f = (r, g)"
  shows "locks_taken g = locks_taken f"
proof -
  let ?f1 = "map_port i (\<lambda>p. p\<lparr>port_link_proxy := Some proxy, link_state_seen_active := False, link_lost := False,
      link_wait := Some (False, PWF_ERR_CONNECT_FAILED)\<rparr>) f"
  obtain b f2 where w: "loop_wait (wait_done i) filter_dispatch (fst sched) (snd sched) ?f1 = (b, f2)" by fastforce
  have "locks_taken f2 = locks_taken f" by (rule locks_loop.wait_inv_pair [OF _ w]) simp
  moreover have "locks_taken (pwf_filter_port_link_release i h) = locks_taken h" for h :: pwf_filter
    by (simp add: pwf_filter_port_link_release_def Let_def counted_emit split: option.split)
  ultimately show ?thesis using assms w by (auto simp: await_link_def Let_def split: prod.splits)
qed

lemma create_locks:
  assumes "create_port_link env i own nid pid f = (r, g)"
  shows "locks_taken g \<le> locks_taken f + 1"
proof -
  obtain q h where a: "await_link i (the (pl_proxy env)) (pl_sched env)
      (emit [Loop_lock, Link_create (port_link_props (pl_node_id env) own nid pid)] f) = (q, h)" by fastforce
  show ?thesis using assms a await_locks [OF a]
    by (auto simp: create_port_link_def Let_def counted_emit split: if_splits option.splits)
qed


section \<open>What a target names\<close>

text \<open>An announced node of this name, or of this serial when the string is all digits.\<close>

definition node_named :: "pwf_pw_registry \<Rightarrow> string \<Rightarrow> u32 \<Rightarrow> bool" where
  "node_named reg s nid \<longleftrightarrow>
     (\<exists>n\<in>set (items (nodes reg)). node_id n = nid \<and>
        (if str_is_all_digits s then serial n = c_strtoull s else node_name n = s))"

lemma found: "find P xs = Some x \<Longrightarrow> x \<in> set xs \<and> P x"
  by (rule conjI, erule find_member, erule find_satisfies)

lemma find_target_node_named:
  assumes "find_target_node reg s = nid" and "nid \<noteq> 0"
  shows "node_named reg s nid"
proof (cases "str_is_all_digits s")
  case True
  then obtain n where n: "find (\<lambda>e. serial e = c_strtoull s) (items (nodes reg)) = Some n" "node_id n = nid"
    using assms by (auto simp: find_target_node_def pwf_pw_registry_find_node_by_serial_def split: if_splits option.splits)
  with found [OF n(1)] True show ?thesis by (auto simp: node_named_def)
next
  case False
  then obtain n where n: "find (\<lambda>e. node_name e = s) (items (nodes reg)) = Some n" "node_id n = nid"
    using assms by (auto simp: find_target_node_def pwf_pw_registry_find_node_by_name_def split: option.splits)
  with found [OF n(1)] False show ?thesis unfolding node_named_def by auto
qed

lemma resolve_node_named:
  assumes "pwf_resolve_target_node reg t = (nid, part)" and "nid \<noteq> 0"
  shows "(part = None \<and> node_named reg t nid) \<or>
    (\<exists>s port. part = Some port \<and> t = s @ CHR '':'' # port \<and> CHR '':'' \<notin> set port \<and> s \<noteq> [] \<and> port \<noteq> [] \<and> node_named reg s nid)"
proof (cases "find_target_node reg t = 0")
  case True
  then obtain s port where p: "c_strrchr (CHR '':'') t = Some (s, port)" "s \<noteq> []" "port \<noteq> []"
      "find_target_node reg s = nid" "part = Some port"
    using assms by (auto simp: pwf_resolve_target_node_def Let_def split: option.splits if_splits)
  then show ?thesis using find_target_node_named [OF p(4) assms(2)] c_strrchr_Some [of "CHR '':''" t s port] by blast
next
  case False
  then show ?thesis using assms find_target_node_named [of reg t] by (simp add: pwf_resolve_target_node_def Let_def)
qed

lemma find_port_announced:
  assumes "pwf_pw_registry_find_port reg nid name dir = pid" and "pid \<noteq> 0"
  shows "\<exists>p\<in>set (items (ports reg)). port_id p = pid \<and> port_node_id p = nid \<and> port_direction p = dir \<and> port_name p = name"
  using assms by (auto simp: pwf_pw_registry_find_port_def dest!: found split: option.splits)

lemma lowest_of_sorted:
  assumes "ps \<noteq> []" and "length ps \<le> m"
  shows "hd (sort_key k (take m ps)) \<in> set ps \<and> (\<forall>q\<in>set ps. k (hd (sort_key k (take m ps))) \<le> k q)"
proof -
  have all: "take m ps = ps" using assms(2) by simp
  obtain x xs where x: "sort_key k ps = x # xs" using assms(1) by (metis length_0_conv length_sort list.exhaust)
  have "sorted (map k (x # xs))" using sorted_sort_key [of k ps] by (simp only: x)
  moreover have "set ps = set (x # xs)" using set_sort [of k ps] by (simp only: x)
  ultimately show ?thesis by (auto simp: all x)
qed


definition camera_filter :: pwf_filter where
  "camera_filter = waiting_filter\<lparr>registry := registry_zero
     \<lparr>nodes := \<lparr>items = [\<lparr>node_id = 30, node_name = ''cam'', serial = 7, media_class = None, description = None\<rparr>], capacity = 4\<rparr>,
      ports := \<lparr>items = [\<lparr>port_id = 31, port_node_id = 30, port_name = ''b'', port_direction = SPA_DIRECTION_OUTPUT, ordinal = 1\<rparr>,
                         \<lparr>port_id = 32, port_node_id = 30, port_name = ''a'', port_direction = SPA_DIRECTION_OUTPUT, ordinal = 0\<rparr>],
                capacity = 4\<rparr>\<rparr>\<rparr>"


section \<open>Undoing a link\<close>

lemma dispatch_keeps_proxy:
  assumes "i < n_ports f"
  shows "port_link_proxy (get_port i (fold filter_dispatch evs f)) = port_link_proxy (get_port i f)"
  using assms
proof (induction evs arbitrary: f)
  case (Cons e evs)
  have w: "waited f (filter_dispatch e f)" by (rule dispatch_waited)
  then have "i < n_ports (filter_dispatch e f)" using waited_ports Cons.prems by simp
  then show ?case using Cons.IH same_own_proxy [of f "filter_dispatch e f" i] w Cons.prems by (simp add: waited_def)
qed simp

text \<open>C23: safety. An application that undoes a port's link is not told that the source was lost: the proxy is
  destroyed once, and until the port gets a new format no event, the format that goes with the link
  included, reports an error for the port.\<close>

theorem unlink_not_a_loss:
  assumes "i < n_ports f" and "pwf_filter_port_unlink th (Some i) f = (PWF_OK, g)"
    and "\<forall>e\<in>set evs. \<not> new_format i e"
  shows "\<exists>proxy. port_link_proxy (get_port i f) = Some proxy \<and> destroyed proxy g = destroyed proxy f + 1 \<and>
    port_link_proxy (get_port i (fold filter_dispatch evs g)) = None \<and>
    port_errors i (fold filter_dispatch evs g) = port_errors i f"
proof -
  obtain b f1 where rf: "pwf_filter_refuse_in_callback th False f = (b, f1)" by fastforce
  have b: "\<not> b" and f1: "f1 = f" and g: "g = emit [Loop_unlock] (pwf_filter_port_link_release i (emit [Loop_lock] f))"
    and linked: "port_link_proxy (get_port i f) \<noteq> None"
    using assms(2) rf
    by (auto simp: pwf_filter_port_unlink_def pwf_filter_refuse_in_callback_def Let_def split: if_splits bool.splits)
  then obtain proxy where p: "port_link_proxy (get_port i f) = Some proxy" by auto
  have i: "i < n_ports g" using assms(1) p by (simp add: g pwf_filter_port_link_release_def Let_def)
  have after: "port_link_proxy (get_port i g) = None" "loss_reported (get_port i g)" "port_errors i g = port_errors i f"
    "destroyed proxy g = destroyed proxy f + 1"
    using assms(1) p
    by (simp_all add: g pwf_filter_port_link_release_def Let_def get_port_map_port port_errors_emit destroyed_emit)
  have "port_errors i (fold filter_dispatch evs g) \<le> port_errors i g"
    using fold_dispatch_owed [OF assms(3), of g] after(2) by (simp add: port_owed_def)
  then show ?thesis using p after fold_errors_grow [of i g evs] dispatch_keeps_proxy [OF i, of evs] by simp
qed

definition linked_filter :: pwf_filter where
  "linked_filter = waiting_filter\<lparr>filter_error_cb := True,
     filter_ports := \<lparr>items = [port_zero\<lparr>port_dir := PWF_FILTER_PORT_INPUT, port_link_proxy := Some 8,
        link_state_seen_active := True\<rparr>], capacity = 4\<rparr>\<rparr>"

theorem unlink_not_a_loss_witness:
  "\<exists>g. pwf_filter_port_unlink app_thread (Some 0) linked_filter = (PWF_OK, g) \<and>
     port_errors 0 (fold filter_dispatch [FEv_param_changed (Some 0) SPA_PARAM_Format None] g) = 0"
proof -
  have f: "0 < n_ports linked_filter" "get_port 0 linked_filter = port_zero\<lparr>port_dir := PWF_FILTER_PORT_INPUT,
      port_link_proxy := Some 8, link_state_seen_active := True\<rparr>" "port_errors 0 linked_filter = 0"
    "loop (conn linked_filter) = Some 1" "filter_id linked_filter = 0"
    by (simp_all add: linked_filter_def waiting_filter_def filter_zero_def n_ports_def get_port_def port_errors_def)
  obtain g where run: "pwf_filter_port_unlink app_thread (Some 0) linked_filter = (PWF_OK, g)"
    using f by (simp add: pwf_filter_port_unlink_def pwf_filter_refuse_in_callback_def app_thread_def Let_def)
  moreover have "\<forall>e\<in>set [FEv_param_changed (Some 0) SPA_PARAM_Format None]. \<not> new_format 0 e"
    by (simp add: new_format_def)
  ultimately show ?thesis using unlink_not_a_loss [OF f(1) run] f(3) by metis
qed

end
