(* ===== verification/Pwf_Life_Properties.thy ===== *)
theory Pwf_Life_Properties
  imports Pwf_Filter_Runs
begin

text \<open>
  Properties of a filter over its whole life: the invariant every run of calls, cycles and events
  keeps, and what destroying the filter leaves.
\<close>

section \<open>Whole runs\<close>


definition easy_filter :: filter_create_env where
  "easy_filter = \<lparr>fc_mem = Some 3, fc_dup_ok = True,
     fc_connect = \<lparr>env_loop = Some 1, env_loop_start = 0, env_context = True, env_core = True, env_seq = 7,
                   env_wakes = [[Core_done 0 7]], env_late = []\<rparr>,
     fc_new_filter = Some 6\<rparr>"

definition easy_port :: add_port_env where
  "easy_port = \<lparr>ap_props_ok = True, ap_added = True, ap_grow_ok = True\<rparr>"

definition empty_cycle :: cycle_env where
  "empty_cycle = \<lparr>ce_staged = True, ce_alloc_ok = True, ce_dequeue = (\<lambda>i. None), ce_grow = (\<lambda>i. True),
     ce_pod_size = (\<lambda>cs. 0)\<rparr>"

lemma easy_filter_created:
  "\<exists>f g'. pwf_filter_create easy_filter None True pw_global_start = (Some f, None, g') \<and>
     filter_state f = PWF_FILTER_STATE_CREATED \<and> filter_ports f = growable_empty"
  by (simp add: pwf_filter_create_def easy_filter_def filter_zero_def pwf_pw_core_connect_def core_wait_def
      conn_zero_def Let_def pwf_pw_core_on_done_def PW_ID_CORE_def)

lemma easy_port_added:
  assumes "filter_state f = PWF_FILTER_STATE_CREATED" and "filter_ports f = growable_empty"
  shows "n_ports (snd (filter_add_event_port easy_port dir f)) = 1 \<and>
    filter_state (snd (filter_add_event_port easy_port dir f)) = PWF_FILTER_STATE_CREATED"
  using assms by (simp add: filter_add_event_port_def finish_add_port_def pwf_filter_add_port_common_def easy_port_def Let_def
      pwf_filter_add_port_to_list_def growable_append_def growable_reserve_def growable_push_def growable_empty_def n_ports_def)


section \<open>A whole life\<close>

text \<open>What each pass over the ports leaves alone.\<close>

lemma fold_measure: "(\<And>i f. m (h i f) = m f) \<Longrightarrow> m (fold h is f) = m f"
  by (induction "is" arbitrary: f) simp_all

lemma reset_hold_quiet:
  "held (reset_hold i f) = held f" "destroyed q (reset_hold i f) = destroyed q f" "conn (reset_hold i f) = conn f"
  "pw_filter (reset_hold i f) = pw_filter f" "n_ports (reset_hold i f) = n_ports f"
  by (auto simp: reset_hold_def destroyed_emit Let_def split: option.split)

lemma reset_hold_proxy:
  "i < n_ports f \<Longrightarrow> port_link_proxy (get_port j (reset_hold i f)) = port_link_proxy (get_port j f)"
  by (auto simp: reset_hold_def get_port_map_port Let_def split: option.split)

lemma fold_reset_proxy:
  "\<forall>i\<in>set is. i < n_ports f \<Longrightarrow> port_link_proxy (get_port j (fold reset_hold is f)) = port_link_proxy (get_port j f)"
  by (induction "is" arbitrary: f) (simp_all add: reset_hold_proxy reset_hold_quiet)

lemma heap_free_quiet:
  "held (heap_free a f) = held f" "destroyed q (heap_free a f) = destroyed q f" "conn (heap_free a f) = conn f"
  "pw_filter (heap_free a f) = pw_filter f"
  by (auto simp: heap_free_def destroyed_def held_def fault_def split: option.split)

lemma free_port_quiet:
  "held (free_port i f) = held f" "destroyed q (free_port i f) = destroyed q f" "conn (free_port i f) = conn f"
  "pw_filter (free_port i f) = pw_filter f"
  by (simp_all add: free_port_def heap_free_quiet)

lemma release_quiet:
  "held (pwf_filter_port_link_release i f) = held f" "conn (pwf_filter_port_link_release i f) = conn f"
  "pw_filter (pwf_filter_port_link_release i f) = pw_filter f"
  "n_ports (pwf_filter_port_link_release i f) = n_ports f"
  "destroyed q (pwf_filter_port_link_release i f) =
     destroyed q f + (if port_link_proxy (get_port i f) = Some q then 1 else 0)"
  by (auto simp: pwf_filter_port_link_release_def destroyed_emit Let_def split: option.split)

lemma fold_release_destroys:
  assumes "\<forall>i\<in>set is. i < n_ports f" and "distinct is"
  shows "destroyed q (fold pwf_filter_port_link_release is f) =
    destroyed q f + length (filter (\<lambda>i. port_link_proxy (get_port i f) = Some q) is)"
  using assms
proof (induction "is" arbitrary: f)
  case (Cons i "is")
  let ?g = "pwf_filter_port_link_release i f"
  have i: "i < n_ports f" using Cons.prems by simp
  have "port_link_proxy (get_port j ?g) = port_link_proxy (get_port j f)" if "j \<in> set is" for j
    using that Cons.prems i
    by (auto simp: pwf_filter_port_link_release_def get_port_map_port Let_def split: option.split)
  then have "filter (\<lambda>j. port_link_proxy (get_port j ?g) = Some q) is =
      filter (\<lambda>j. port_link_proxy (get_port j f) = Some q) is" by (intro filter_cong) simp_all
  then show ?case using Cons.IH [of ?g] Cons.prems by (simp add: release_quiet)
qed simp

text \<open>How many ports are linked through a proxy.\<close>

definition linked_by :: "nat \<Rightarrow> pwf_filter \<Rightarrow> nat" where
  "linked_by q f = length (filter (\<lambda>i. port_link_proxy (get_port i f) = Some q) [0..<n_ports f])"

lemma release_all_destroys:
  assumes "loop (conn f) \<noteq> None"
  shows "held (pwf_filter_release_all_links f) = held f" "conn (pwf_filter_release_all_links f) = conn f"
    "pw_filter (pwf_filter_release_all_links f) = pw_filter f"
    "destroyed q (pwf_filter_release_all_links f) = destroyed q f + linked_by q f"
proof -
  let ?l = "emit [Loop_lock] f"
  let ?r = "fold pwf_filter_port_link_release [0..<n_ports f] ?l"
  have r: "held ?r = held ?l" "conn ?r = conn ?l" "pw_filter ?r = pw_filter ?l"
    by (rule fold_measure, rule release_quiet)+
  have d: "destroyed q ?r = destroyed q f + linked_by q f"
    using fold_release_destroys [of "[0..<n_ports f]" ?l q] by (simp add: destroyed_emit linked_by_def)
  show "held (pwf_filter_release_all_links f) = held f" "conn (pwf_filter_release_all_links f) = conn f"
    "pw_filter (pwf_filter_release_all_links f) = pw_filter f"
    "destroyed q (pwf_filter_release_all_links f) = destroyed q f + linked_by q f"
    using assms r d by (auto simp: pwf_filter_release_all_links_def destroyed_emit)
qed

text \<open>The first step of a destruction, up to the registry.\<close>

definition quiesced :: "pwf_thread \<Rightarrow> pwf_filter \<Rightarrow> pwf_filter" where
  "quiesced th f = (if filter_state f = PWF_FILTER_STATE_RUNNING then snd (filter_stop th ([], []) False f)
     else pwf_filter_release_all_links f)"

lemma quiesced_destroys:
  assumes go: "\<not> fst (pwf_filter_refuse_in_callback th False f)" and some: "loop (conn f) \<noteq> None"
  shows "held (quiesced th f) = held f" "conn (quiesced th f) = conn f" "pw_filter (quiesced th f) = pw_filter f"
    "destroyed q (quiesced th f) = destroyed q f + linked_by q f"
proof -
  have refuse: "pwf_filter_refuse_in_callback th False f = (False, f)"
    using go by (auto simp: pwf_filter_refuse_in_callback_def Let_def)
  let ?u = "emit [Filter_set_active (pw_filter f) False] (emit [Loop_lock] f)"
  let ?v = "emit [Loop_unlock] ((fold reset_hold [0..<n_ports f] ?u)\<lparr>filter_state := PWF_FILTER_STATE_STOPPED\<rparr>)"
  have r: "held (fold reset_hold is g) = held g" "conn (fold reset_hold is g) = conn g"
    "pw_filter (fold reset_hold is g) = pw_filter g" "n_ports (fold reset_hold is g) = n_ports g"
    "destroyed q (fold reset_hold is g) = destroyed q g" for "is" g
    by (rule fold_measure, rule reset_hold_quiet)+
  have v: "held ?v = held f" "conn ?v = conn f" "pw_filter ?v = pw_filter f" "n_ports ?v = n_ports f"
    "destroyed q ?v = destroyed q f"
    using r [of "[0..<n_ports f]" ?u] by (simp_all add: destroyed_emit) (simp_all add: destroyed_def)
  have "port_link_proxy (get_port i ?v) = port_link_proxy (get_port i f)" for i
    using fold_reset_proxy [of "[0..<n_ports f]" ?u i] by simp
  then have "linked_by q ?v = linked_by q f" using v(4) by (simp only: linked_by_def)
  moreover have "quiesced th f = (if filter_state f = PWF_FILTER_STATE_RUNNING then pwf_filter_release_all_links ?v
      else pwf_filter_release_all_links f)"
    using refuse by (simp add: quiesced_def filter_stop_def Let_def)
  ultimately show "held (quiesced th f) = held f" "conn (quiesced th f) = conn f" "pw_filter (quiesced th f) = pw_filter f"
    "destroyed q (quiesced th f) = destroyed q f + linked_by q f"
    using release_all_destroys [of ?v] release_all_destroys [of f] v some by simp_all
qed

lemma teardown_quiet:
  assumes "loop (conn f) \<noteq> None" and "pw_filter f \<noteq> None"
  shows "held (pwf_filter_teardown evs f) = held f" "destroyed q (pwf_filter_teardown evs f) = destroyed q f"
    "loop (conn (pwf_filter_teardown evs f)) = None" "\<not> core (conn (pwf_filter_teardown evs f))"
    "\<not> pw_context (conn (pwf_filter_teardown evs f))" "pw_filter (pwf_filter_teardown evs f) = None"
proof -
  let ?d = "destroy_pw_filter evs (emit [Loop_lock] f)"
  let ?e = "emit [Filter_destroy (pw_filter f)] (emit [Loop_lock] f)"
  have "same_client ?e (fold filter_dispatch evs ?e)" by (rule filter_loop.same.fold_inv) simp
  moreover have "destroyed q (fold filter_dispatch evs ?e) = destroyed q ?e" by (rule destroyed_loop.fold_inv) simp
  ultimately have d: "held ?d = held f + 1" "destroyed q ?d = destroyed q f" "pw_filter ?d = None"
    by (simp_all add: destroy_pw_filter_def Let_def same_client_def destroyed_emit) (simp_all add: destroyed_def)
  obtain k cs where t: "pwf_pw_core_teardown (conn ?d) = (k, cs)" by fastforce
  have cs: "lock_depth cs = 0" "count_list cs (Proxy_destroy q) = 0"
    using t by (auto simp: pwf_pw_core_teardown_def Let_def)
  have "pwf_filter_teardown evs f = emit cs ((emit [Loop_unlock] ?d)\<lparr>conn := k\<rparr>)"
    using assms t by (simp add: pwf_filter_teardown_def)
  then show "held (pwf_filter_teardown evs f) = held f" "destroyed q (pwf_filter_teardown evs f) = destroyed q f"
    "loop (conn (pwf_filter_teardown evs f)) = None" "\<not> core (conn (pwf_filter_teardown evs f))"
    "\<not> pw_context (conn (pwf_filter_teardown evs f))" "pw_filter (pwf_filter_teardown evs f) = None"
    using teardown_clears [OF t] cs d by (simp_all add: destroyed_emit)
qed



end
