(* ===== verification/Pwf_Util.thy ===== *)
theory Pwf_Util
  imports Pwf_Stream
begin

text \<open>
  What the two programs of \<^verbatim>\<open>utils\<close> share: reading integers, opening and closing a stream, and what
  opening and closing do to the library's initialisation count.
\<close>

section \<open>Option arguments\<close>

text \<open>\<open>strtol (s, NULL, 10)\<close> with 64 bits, saturating, and \<open>atoi\<close>, its value cut to \<open>int\<close>.\<close>

definition clamp64 :: "int \<Rightarrow> int" where
  "clamp64 n = max (- (2 ^ 63)) (min (2 ^ 63 - 1) n)"

definition c_strtol :: "string \<Rightarrow> int" where
  "c_strtol s =
     (case dropWhile is_space s of
        [] \<Rightarrow> 0
      | c # cs \<Rightarrow>
          if c = CHR ''-'' then clamp64 (- int (digits_value 0 cs))
          else if c = CHR ''+'' then clamp64 (int (digits_value 0 cs))
          else clamp64 (int (digits_value 0 (c # cs))))"

definition c_atoi :: "string \<Rightarrow> int" where
  "c_atoi s = sint (word_of_int (c_strtol s) :: 32 word)"

lemma c_atoi_decimal:
  assumes "n < 2 ^ 31"
  shows "c_atoi (c_decimal n) = int n"
proof -
  obtain c cs where d: "c_decimal n = c # cs" by (cases "c_decimal n") auto
  have dig: "is_digit c" using c_decimal_digits [of n] by (simp add: d)
  have "digits_value 0 (c # cs) = n" using digits_value_c_decimal [of n] by (simp only: d)
  then have "c_strtol (c_decimal n) = int n"
    using dig digit_not_space [OF dig] digit_not_sign [OF dig] assms by (simp add: c_strtol_def d clamp64_def)
  moreover have "sint (word_of_int (int n) :: 32 word) = int n"
    using assms unfolding signed_of_int by (simp add: signed_take_bit_int_eq_self)
  ultimately show ?thesis by (simp add: c_atoi_def)
qed

text \<open>The options are read one by one; \<open>Inl\<close> is the exit status of a program that stops there.\<close>

fun read_options :: "('o \<Rightarrow> 'c \<Rightarrow> int + 'c) \<Rightarrow> 'o list \<Rightarrow> 'c \<Rightarrow> int + 'c" where
  "read_options step [] c = Inr c"
| "read_options step (opt # opts) c =
     (case step opt c of Inl status \<Rightarrow> Inl status | Inr c1 \<Rightarrow> read_options step opts c1)"

lemma read_options_inv:
  assumes "\<And>opt c c'. P c \<Longrightarrow> step opt c = Inr c' \<Longrightarrow> P c'"
  shows "P c \<Longrightarrow> read_options step opts c = Inr c' \<Longrightarrow> P c'"
  by (induction opts arbitrary: c) (use assms in \<open>auto split: sum.splits\<close>)

section \<open>A stream's life in a program\<close>

text \<open>
  What the outside answers over a stream's life: the connection, the memory, whether a string could
  be copied, PipeWire's stream, the events while it runs and those of its destruction.
\<close>

record stream_setup =
  su_connect :: connect_env
  su_mem :: "nat option"
  su_dup_ok :: bool
  su_config :: stream_connect_env
  su_run :: "stream_event list"
  su_end :: "stream_event list"

definition run_stream :: "stream_setup \<Rightarrow> pwf_stream option \<Rightarrow> pwf_stream option" where
  "run_stream su = map_option (fold stream_dispatch (su_run su))"

lemma teardown_global: "g_pw_init_count (pwf_pw_global_deinit (pwf_pw_global_init g)) = g_pw_init_count g"
  by (simp add: pwf_pw_global_deinit_def pwf_pw_global_init_def Let_def)

lemma stream_alloc_count:
  assumes "pwf_stream_alloc env mem ty dir g = (s, t, g')"
  shows "g_pw_init_count g' = g_pw_init_count g + (case s of None \<Rightarrow> 0 | Some _ \<Rightarrow> 1)"
  using assms teardown_global [of g]
  by (auto simp: pwf_stream_alloc_def Let_def pwf_pw_global_init_def pwf_pw_global_deinit_def split: option.splits prod.splits if_splits)

lemma stream_create_count:
  assumes "pwf_stream_create env mem ty cb g = (s, g')"
  shows "g_pw_init_count g' = g_pw_init_count g + (case s of None \<Rightarrow> 0 | Some _ \<Rightarrow> 1)"
proof -
  obtain x t g1 where a: "pwf_stream_alloc env mem ty PWF_STREAM_DIRECTION_CAPTURE g = (x, t, g1)" by (metis prod_cases3)
  then show ?thesis using assms stream_alloc_count [OF a]
    by (auto simp: pwf_stream_create_def split: if_splits option.splits)
qed

lemma stream_create_playback_count:
  assumes "pwf_stream_create_playback env mem cb g = (s, g')"
  shows "g_pw_init_count g' = g_pw_init_count g + (case s of None \<Rightarrow> 0 | Some _ \<Rightarrow> 1)"
proof -
  obtain x t g1 where a: "pwf_stream_alloc env mem PWF_DATA_AUDIO PWF_STREAM_DIRECTION_PLAYBACK g = (x, t, g1)"
    by (metis prod_cases3)
  then show ?thesis using assms stream_alloc_count [OF a]
    by (auto simp: pwf_stream_create_playback_def split: if_splits option.splits)
qed

text \<open>The application's thread is in no callback, so it is never refused.\<close>

lemma app_not_refused: "pwf_stream_refuse_in_callback app_thread b s = (False, s)"
  by (auto simp: pwf_stream_refuse_in_callback_def app_thread_def Let_def)

lemma stream_destroy_app:
  "pwf_stream_destroy app_thread evs g h =
     (None, case h of None \<Rightarrow> g | Some _ \<Rightarrow> pwf_pw_global_deinit g)"
  by (auto simp: pwf_stream_destroy_def stream_destroy_def app_not_refused Let_def split: option.split prod.split)

lemma deinit_count: "g_pw_init_count (pwf_pw_global_deinit g) = g_pw_init_count g - 1"
  by (simp add: pwf_pw_global_deinit_def Let_def)

text \<open>A call on a handle gives a handle.\<close>

lemma on_handle_exists: "on_handle err body h = (r, h') \<Longrightarrow> (h' = None) = (h = None)"
  by (cases h) (auto simp: on_handle_def split: prod.splits)

lemma run_stream_exists [simp]: "(run_stream su h = None) = (h = None)"
  by (simp add: run_stream_def)

end
