(* ===== verification/Pwf_Record.thy ===== *)
theory Pwf_Record
  imports Pwf_Util
begin

text \<open>
  \<^verbatim>\<open>utils/pwf_record.c\<close>: recording a stream to a file. The file is its bytes and a position; its
  limit, if any, is the space there is. Messages on \<open>stderr\<close> and the signals are not modelled: the
  recording runs for as long as the buffers it is given.
\<close>

section \<open>The output file\<close>

record out_file =
  f_bytes :: "byte list"
  f_pos :: nat
  f_limit :: "nat option"

definition file_room :: "out_file \<Rightarrow> nat \<Rightarrow> nat" where
  "file_room f n = (case f_limit f of None \<Rightarrow> n | Some m \<Rightarrow> min n (m - f_pos f))"

text \<open>\<open>fwrite (bytes, 1, n, f)\<close>: what fits is written at the position, and its count is the result.\<close>

definition c_fwrite :: "byte list \<Rightarrow> out_file \<Rightarrow> nat \<times> out_file" where
  "c_fwrite bytes f =
     (let n = file_room f (length bytes)
      in (n, f\<lparr>f_bytes := take (f_pos f) (f_bytes f) @ take n bytes @ drop (f_pos f + n) (f_bytes f),
               f_pos := f_pos f + n\<rparr>))"

definition fput :: "byte list \<Rightarrow> out_file \<Rightarrow> out_file" where
  "fput bytes f = snd (c_fwrite bytes f)"

definition c_rewind :: "out_file \<Rightarrow> out_file" where
  "c_rewind f = f\<lparr>f_pos := 0\<rparr>"

definition ascii :: "string \<Rightarrow> byte list" where
  "ascii s = map of_char s"

section \<open>Data\<close>

datatype record_type = RECORD_TYPE_AUDIO | RECORD_TYPE_VIDEO

datatype record_format = FORMAT_UNSET | FORMAT_WAV | FORMAT_PCM | FORMAT_RAW | FORMAT_Y4M

record record_ctx =
  rc_file :: out_file
  rc_format :: record_format
  bytes_written :: u32

definition on_data :: "byte list \<Rightarrow> record_ctx \<Rightarrow> record_ctx" where
  "on_data buf ctx =
     (let f1 = (if rc_format ctx = FORMAT_Y4M then fput (ascii ''FRAME'' @ [10]) (rc_file ctx) else rc_file ctx)
      in case c_fwrite buf f1 of
           (n, f2) \<Rightarrow>
             if n = length buf
             then ctx\<lparr>rc_file := f2, bytes_written := bytes_written ctx + of_nat (length buf)\<rparr>
             else ctx\<lparr>rc_file := f2\<rparr>)"

section \<open>Headers\<close>

definition le16 :: "u16 \<Rightarrow> byte list" where
  "le16 v = [ucast v, ucast (drop_bit 8 v)]"

definition le32 :: "u32 \<Rightarrow> byte list" where
  "le32 v = [ucast v, ucast (drop_bit 8 v), ucast (drop_bit 16 v), ucast (drop_bit 24 v)]"

definition put_le16 :: "u16 \<Rightarrow> out_file \<Rightarrow> out_file" where
  "put_le16 v = fput (le16 v)"

definition put_le32 :: "u32 \<Rightarrow> out_file \<Rightarrow> out_file" where
  "put_le32 v = fput (le32 v)"

definition record_bit_depths :: "(string \<times> string \<times> int \<times> u16) list" where
  "record_bit_depths =
     [(''16'', ''S16'', 2, 1), (''24'', ''S24'', 3, 1), (''32'', ''S32'', 4, 1), (''f32'', ''F32'', 4, 3)]"

definition write_wav_header :: "int \<Rightarrow> int \<Rightarrow> int \<Rightarrow> u16 \<Rightarrow> u32 \<Rightarrow> out_file \<Rightarrow> out_file" where
  "write_wav_header rate chans bps wav_tag data_size f =
     (let byte_rate = word_of_int rate * word_of_int chans * word_of_int bps :: u32;
          block_align = word_of_int (chans * bps) :: u16;
          bits_per_sample = word_of_int (bps * 8) :: u16;
          f1 = put_le32 (36 + data_size) (fput (ascii ''RIFF'') f);
          f2 = put_le32 16 (fput (ascii ''fmt '') (fput (ascii ''WAVE'') f1));
          f3 = put_le16 (word_of_int chans) (put_le16 wav_tag f2);
          f4 = put_le32 byte_rate (put_le32 (word_of_int rate) f3);
          f5 = put_le16 bits_per_sample (put_le16 block_align f4)
      in put_le32 data_size (fput (ascii ''data'') f5))"

text \<open>\<open>printf\<close> of \<open>%d\<close>.\<close>

definition c_signed :: "int \<Rightarrow> string" where
  "c_signed n = (if n < 0 then ''-'' @ c_decimal (nat (- n)) else c_decimal (nat n))"

definition write_y4m_header :: "int \<Rightarrow> int \<Rightarrow> int \<Rightarrow> out_file \<Rightarrow> out_file" where
  "write_y4m_header w h rate =
     fput (ascii (''YUV4MPEG2 W'' @ c_signed w @ '' H'' @ c_signed h @ '' F'' @ c_signed rate @
                  '':1 Ip A0:0 C420jpeg'') @ [10])"

section \<open>Options\<close>

record record_config =
  r_output :: "string option"
  r_device :: "string option"
  r_type :: record_type
  r_format :: record_format
  r_duration :: int
  r_rate :: int
  r_channels :: int
  r_width :: int
  r_height :: int
  r_fps :: int
  r_pixel :: string
  r_audio_format :: "string option"
  r_bytes :: int
  r_tag :: u16

definition record_defaults :: record_config where
  "record_defaults =
     \<lparr>r_output = None, r_device = None, r_type = RECORD_TYPE_AUDIO, r_format = FORMAT_UNSET, r_duration = 0,
      r_rate = 48000, r_channels = 2, r_width = 640, r_height = 480, r_fps = 0, r_pixel = ''I420'',
      r_audio_format = None, r_bytes = 2, r_tag = 1\<rparr>"

text \<open>What \<open>getopt_long\<close> answers: one option per case of the switch.\<close>

datatype record_option =
    Rec_output string | Rec_type string | Rec_format string | Rec_duration string | Rec_device string
  | Rec_rate string | Rec_channels string | Rec_width string | Rec_height string | Rec_pixel string
  | Rec_fps string | Rec_bits string | Rec_help | Rec_unknown

fun record_option_step :: "record_option \<Rightarrow> record_config \<Rightarrow> int + record_config" where
  "record_option_step (Rec_output a) c = Inr (c\<lparr>r_output := Some a\<rparr>)"
| "record_option_step (Rec_type a) c =
     (if a = ''audio'' then Inr (c\<lparr>r_type := RECORD_TYPE_AUDIO\<rparr>)
      else if a = ''video'' then Inr (c\<lparr>r_type := RECORD_TYPE_VIDEO\<rparr>)
      else Inl 1)"
| "record_option_step (Rec_format a) c =
     (if a = ''wav'' then Inr (c\<lparr>r_format := FORMAT_WAV\<rparr>)
      else if a = ''pcm'' then Inr (c\<lparr>r_format := FORMAT_PCM\<rparr>)
      else if a = ''raw'' then Inr (c\<lparr>r_format := FORMAT_RAW\<rparr>)
      else if a = ''y4m'' then Inr (c\<lparr>r_format := FORMAT_Y4M\<rparr>)
      else Inl 1)"
| "record_option_step (Rec_duration a) c = (if c_atoi a \<le> 0 then Inl 1 else Inr (c\<lparr>r_duration := c_atoi a\<rparr>))"
| "record_option_step (Rec_device a) c = Inr (c\<lparr>r_device := Some a\<rparr>)"
| "record_option_step (Rec_rate a) c = Inr (c\<lparr>r_rate := c_atoi a\<rparr>)"
| "record_option_step (Rec_channels a) c = Inr (c\<lparr>r_channels := c_atoi a\<rparr>)"
| "record_option_step (Rec_width a) c = Inr (c\<lparr>r_width := c_atoi a\<rparr>)"
| "record_option_step (Rec_height a) c = Inr (c\<lparr>r_height := c_atoi a\<rparr>)"
| "record_option_step (Rec_pixel a) c = Inr (c\<lparr>r_pixel := a\<rparr>)"
| "record_option_step (Rec_fps a) c = Inr (c\<lparr>r_fps := c_atoi a\<rparr>)"
| "record_option_step (Rec_bits a) c =
     (case find (\<lambda>e. fst e = a) record_bit_depths of
        None \<Rightarrow> Inl 1
      | Some (_, name, n, wav_tag) \<Rightarrow> Inr (c\<lparr>r_audio_format := Some name, r_bytes := n, r_tag := wav_tag\<rparr>))"
| "record_option_step Rec_help c = Inl 0"
| "record_option_step Rec_unknown c = Inl 1"

text \<open>The checks after the options; \<open>Inr\<close> is the configuration with its format chosen.\<close>

definition record_check :: "record_config \<Rightarrow> int + record_config" where
  "record_check c =
     (if r_output c = None then Inl 1
      else
        let fmt = (if r_format c = FORMAT_UNSET
                   then (if r_type c = RECORD_TYPE_VIDEO then FORMAT_RAW else FORMAT_WAV) else r_format c)
        in if r_type c = RECORD_TYPE_AUDIO \<and> (fmt = FORMAT_RAW \<or> fmt = FORMAT_Y4M) then Inl 1
           else if r_type c = RECORD_TYPE_VIDEO \<and> (fmt = FORMAT_WAV \<or> fmt = FORMAT_PCM) then Inl 1
           else if fmt = FORMAT_Y4M \<and> r_pixel c \<noteq> ''I420'' then Inl 1
           else if fmt = FORMAT_Y4M \<and> r_fps c \<le> 0 then Inl 1
           else Inr (c\<lparr>r_format := fmt\<rparr>))"

section \<open>The program\<close>

text \<open>What the outside answers: \<open>fopen\<close>, the space, the stream, and the buffers recorded.\<close>

record record_env =
  re_open :: bool
  re_limit :: "nat option"
  re_stream :: stream_setup
  re_buffers :: "byte list list"

definition record_header :: "record_config \<Rightarrow> u32 \<Rightarrow> out_file \<Rightarrow> out_file" where
  "record_header c data_size f =
     write_wav_header (r_rate c) (r_channels c) (r_bytes c) (r_tag c) data_size f"

definition record_start_file :: "record_config \<Rightarrow> nat option \<Rightarrow> record_ctx" where
  "record_start_file c limit =
     (let f = \<lparr>f_bytes = [], f_pos = 0, f_limit = limit\<rparr>
      in \<lparr>rc_file = (if r_format c = FORMAT_WAV then record_header c 0 f
                     else if r_format c = FORMAT_Y4M then write_y4m_header (r_width c) (r_height c) (r_fps c) f
                     else f),
          rc_format = r_format c, bytes_written = 0\<rparr>)"

text \<open>The stream is configured and started; the flag says whether every call succeeded.\<close>

definition record_configure ::
    "record_config \<Rightarrow> stream_setup \<Rightarrow> pwf_stream option \<Rightarrow> bool \<times> pwf_stream option" where
  "record_configure c su h =
     (let h1 = snd (pwf_stream_set_error_callback True h);
          (res, h2) = (case r_device c of
                         None \<Rightarrow> (PWF_OK, h1)
                       | Some d \<Rightarrow> pwf_stream_set_target (su_dup_ok su) (Some d) h1)
      in if res \<noteq> PWF_OK then (False, h2)
         else
           let (config_res, h3) =
             (if r_type c = RECORD_TYPE_VIDEO
              then pwf_stream_set_video_config app_thread (su_config su)
                     (Some \<lparr>cfg_width = r_width c, cfg_height = r_height c,
                            cfg_pixel_format = Some (r_pixel c), cfg_fps = r_fps c\<rparr>) h2
              else pwf_stream_set_audio_config app_thread (su_config su)
                     (Some \<lparr>sample_rate = r_rate c, channels = r_channels c, sample_format = r_audio_format c\<rparr>) h2)
           in if config_res \<noteq> PWF_OK then (False, h3)
              else case pwf_stream_start app_thread h3 of (start_res, h4) \<Rightarrow> (start_res = PWF_OK, h4))"

text \<open>The exit status, the file if one was opened, and the library's global state.\<close>

definition record_main ::
    "record_env \<Rightarrow> record_option list \<Rightarrow> pw_global \<Rightarrow> int \<times> out_file option \<times> pw_global" where
  "record_main env opts g =
     (case read_options record_option_step opts record_defaults of
        Inl status \<Rightarrow> (status, None, g)
      | Inr c0 \<Rightarrow>
          (case record_check c0 of
             Inl status \<Rightarrow> (status, None, g)
           | Inr c \<Rightarrow>
               if \<not> re_open env then (1, None, g)
               else
                 let ctx = record_start_file c (re_limit env);
                     su = re_stream env;
                     ty = (if r_type c = RECORD_TYPE_VIDEO then PWF_DATA_VIDEO else PWF_DATA_AUDIO)
                 in case pwf_stream_create (su_connect su) (su_mem su) ty True g of
                      (None, g1) \<Rightarrow> (1, Some (rc_file ctx), g1)
                    | (Some s, g1) \<Rightarrow>
                        (case record_configure c su (Some s) of
                           (False, h) \<Rightarrow> (1, Some (rc_file ctx), snd (pwf_stream_destroy app_thread (su_end su) g1 h))
                         | (True, h) \<Rightarrow>
                             let ctx1 = fold on_data (re_buffers env) ctx;
                                 h1 = snd (pwf_stream_stop app_thread ([], []) False (run_stream su h));
                                 g2 = snd (pwf_stream_destroy app_thread (su_end su) g1 h1);
                                 f = (if r_format c = FORMAT_WAV
                                      then record_header c (bytes_written ctx1) (c_rewind (rc_file ctx1))
                                      else rc_file ctx1)
                             in (0, Some f, g2))))"

end
