(* ===== verification/Pwf_Loopback_Ring.thy ===== *)
theory Pwf_Loopback_Ring
  imports Pwf_Prelude "HOL-Library.Sublist"
begin

text \<open>
  \<^verbatim>\<open>utils/pwf_stream_loopback.c\<close>, the byte ring between the capture and the playback thread: its
  functions, and the two threads as interleaved steps. The loads and stores of the indices are the
  code's acquire and release operations; a byte of the ring is copied in a step of its own.
\<close>

section \<open>The ring\<close>

record loopback_ring =
  ring_data :: "byte list"
  ring_capacity :: u64
  write_pos :: u64
  read_pos :: u64
  dropped :: u64

text \<open>\<open>calloc\<close> answers with zeroed memory or NULL; \<open>None\<close> when it fails.\<close>

definition ring_init :: "bool \<Rightarrow> u64 \<Rightarrow> loopback_ring option" where
  "ring_init alloc_ok cap =
     (if \<not> alloc_ok then None
      else Some \<lparr>ring_data = replicate (unat cap) 0, ring_capacity = cap, write_pos = 0, read_pos = 0, dropped = 0\<rparr>)"

definition ring_slot :: "loopback_ring \<Rightarrow> u64 \<Rightarrow> nat" where
  "ring_slot r p = unat (p mod ring_capacity r)"

definition put_byte :: "byte list \<Rightarrow> u64 \<Rightarrow> nat \<Rightarrow> loopback_ring \<Rightarrow> loopback_ring" where
  "put_byte src wpos i r = r\<lparr>ring_data := (ring_data r)[ring_slot r (wpos + of_nat i) := src ! i]\<rparr>"

definition get_byte :: "u64 \<Rightarrow> nat \<Rightarrow> loopback_ring \<Rightarrow> byte" where
  "get_byte rpos i r = ring_data r ! ring_slot r (rpos + of_nat i)"

text \<open>The beginning of a write: how much fits, and the rest counted as dropped.\<close>

definition write_begin :: "byte list \<Rightarrow> loopback_ring \<Rightarrow> u64 \<times> loopback_ring" where
  "write_begin src r =
     (let len = of_nat (length src);
          free_space = ring_capacity r - (write_pos r - read_pos r)
      in if len > free_space then (free_space, r\<lparr>dropped := dropped r + (len - free_space)\<rparr>) else (len, r))"

definition ring_write :: "byte list \<Rightarrow> loopback_ring \<Rightarrow> loopback_ring" where
  "ring_write src r =
     (case write_begin src r of
        (len, r1) \<Rightarrow> (fold (put_byte src (write_pos r)) [0..<unat len] r1)\<lparr>write_pos := write_pos r + len\<rparr>)"

definition read_begin :: "u64 \<Rightarrow> loopback_ring \<Rightarrow> u64" where
  "read_begin len r = (let available = write_pos r - read_pos r in if len > available then available else len)"

text \<open>The bytes read, as many as the result says.\<close>

definition ring_read :: "u64 \<Rightarrow> loopback_ring \<Rightarrow> byte list \<times> loopback_ring" where
  "ring_read len r =
     (let n = read_begin len r
      in (map (\<lambda>i. get_byte (read_pos r) i r) [0..<unat n], r\<lparr>read_pos := read_pos r + n\<rparr>))"

text \<open>The callbacks: what capture delivers, \<open>None\<close> for NULL, and the space playback offers.\<close>

definition on_audio_capture :: "byte list option \<Rightarrow> loopback_ring \<Rightarrow> loopback_ring" where
  "on_audio_capture buf r = (case buf of None \<Rightarrow> r | Some bytes \<Rightarrow> if bytes \<noteq> [] then ring_write bytes r else r)"

definition on_audio_playback :: "u64 \<Rightarrow> loopback_ring \<Rightarrow> byte list \<times> loopback_ring" where
  "on_audio_playback available r = ring_read available r"

section \<open>Two threads\<close>

text \<open>Where each thread is; the position and count are those it loaded or computed.\<close>

datatype ring_writer = W_idle | W_copying "byte list" u64 u64 nat

datatype ring_reader = R_idle | R_copying u64 u64 "byte list"

text \<open>
  The ghosts: the number of bytes offered so far, the bytes accepted by the writes that ended and the
  bytes the reads that ended have returned.
\<close>

record ring_threads =
  ring :: loopback_ring
  writer_at :: ring_writer
  reader_at :: ring_reader
  offered :: nat
  accepted :: "byte list"
  delivered :: "byte list"

definition ring_start :: "loopback_ring \<Rightarrow> ring_threads" where
  "ring_start r = \<lparr>ring = r, writer_at = W_idle, reader_at = R_idle, offered = 0, accepted = [], delivered = []\<rparr>"

inductive ring_step :: "ring_threads \<Rightarrow> ring_threads \<Rightarrow> bool" where
  w_begin: "writer_at s = W_idle \<Longrightarrow> write_begin src (ring s) = (n, r) \<Longrightarrow>
     ring_step s (s\<lparr>ring := r, writer_at := W_copying src (write_pos (ring s)) n 0, offered := offered s + length src\<rparr>)"
| w_byte: "writer_at s = W_copying src w n i \<Longrightarrow> i < unat n \<Longrightarrow>
     ring_step s (s\<lparr>ring := put_byte src w i (ring s), writer_at := W_copying src w n (Suc i)\<rparr>)"
| w_end: "writer_at s = W_copying src w n (unat n) \<Longrightarrow>
     ring_step s (s\<lparr>ring := (ring s)\<lparr>write_pos := w + n\<rparr>, writer_at := W_idle,
                    accepted := accepted s @ take (unat n) src\<rparr>)"
| r_begin: "reader_at s = R_idle \<Longrightarrow>
     ring_step s (s\<lparr>reader_at := R_copying (read_pos (ring s)) (read_begin len (ring s)) []\<rparr>)"
| r_byte: "reader_at s = R_copying p n dst \<Longrightarrow> length dst < unat n \<Longrightarrow>
     ring_step s (s\<lparr>reader_at := R_copying p n (dst @ [get_byte p (length dst) (ring s)])\<rparr>)"
| r_end: "reader_at s = R_copying p n dst \<Longrightarrow> length dst = unat n \<Longrightarrow>
     ring_step s (s\<lparr>ring := (ring s)\<lparr>read_pos := p + n\<rparr>, reader_at := R_idle, delivered := delivered s @ dst\<rparr>)"

section \<open>What the two threads keep\<close>

definition ring_cap :: "ring_threads \<Rightarrow> nat" where
  "ring_cap s = unat (ring_capacity (ring s))"

text \<open>The bytes between the two positions are the accepted ones not yet returned.\<close>

definition ring_content :: "ring_threads \<Rightarrow> bool" where
  "ring_content s \<longleftrightarrow>
     (\<forall>k. length (delivered s) \<le> k \<and> k < length (accepted s) \<longrightarrow>
        ring_data (ring s) ! (k mod ring_cap s) = accepted s ! k)"

definition writer_ok :: "ring_threads \<Rightarrow> bool" where
  "writer_ok s =
     (case writer_at s of
        W_idle \<Rightarrow> offered s = length (accepted s) + unat (dropped (ring s))
      | W_copying src w n i \<Rightarrow>
          w = write_pos (ring s) \<and> unat n \<le> length src \<and> i \<le> unat n \<and>
          length (accepted s) + unat n \<le> length (delivered s) + ring_cap s \<and>
          offered s = length (accepted s) + unat n + unat (dropped (ring s)) \<and>
          (\<forall>j<i. ring_data (ring s) ! ((length (accepted s) + j) mod ring_cap s) = src ! j))"

definition reader_ok :: "ring_threads \<Rightarrow> bool" where
  "reader_ok s =
     (case reader_at s of
        R_idle \<Rightarrow> True
      | R_copying p n dst \<Rightarrow>
          p = read_pos (ring s) \<and> length (delivered s) + unat n \<le> length (accepted s) \<and> length dst \<le> unat n \<and>
          dst = take (length dst) (drop (length (delivered s)) (accepted s)))"

definition ring_inv :: "ring_threads \<Rightarrow> bool" where
  "ring_inv s \<longleftrightarrow>
     0 < ring_cap s \<and> length (ring_data (ring s)) = ring_cap s \<and>
     write_pos (ring s) = of_nat (length (accepted s)) \<and> read_pos (ring s) = of_nat (length (delivered s)) \<and>
     length (delivered s) \<le> length (accepted s) \<and> length (accepted s) \<le> length (delivered s) + ring_cap s \<and>
     delivered s = take (length (delivered s)) (accepted s) \<and> ring_content s \<and> writer_ok s \<and> reader_ok s"

lemma u64_of_nat: "n < 2 ^ 64 \<Longrightarrow> unat (of_nat n :: u64) = n"
  by (simp add: unsigned_of_nat take_bit_nat_eq_self)

lemma ring_slot_eq: "k < 2 ^ 64 \<Longrightarrow> ring_slot r (of_nat k) = k mod unat (ring_capacity r)"
  by (simp add: ring_slot_def unat_mod u64_of_nat)

lemma u64_diff: "b \<le> a \<Longrightarrow> a < 2 ^ 64 \<Longrightarrow> unat (of_nat a - of_nat b :: u64) = a - b"
  by (metis of_nat_diff u64_of_nat less_imp_diff_less)

text \<open>Positions less than one turn apart have slots of their own.\<close>

lemma slots_apart: "k < m \<Longrightarrow> m < k + c \<Longrightarrow> k mod c \<noteq> m mod (c :: nat)"
proof
  assume "k < m" "m < k + c" "k mod c = m mod c"
  then have "c dvd m - k" by (metis mod_eq_dvd_iff_nat less_imp_le)
  then show False using \<open>k < m\<close> \<open>m < k + c\<close> by (auto dest: dvd_imp_le)
qed

lemma ring_offered: "ring_inv s \<Longrightarrow> length (accepted s) \<le> offered s"
  by (auto simp: ring_inv_def writer_ok_def split: ring_writer.splits)

lemma write_begin_spec:
  assumes i: "ring_inv s" and idle: "writer_at s = W_idle" and run: "write_begin src (ring s) = (n, r)"
    and room: "offered s + length src < 2 ^ 64"
  shows "unat n = min (length src) (ring_cap s - (length (accepted s) - length (delivered s)))"
    "r = (ring s)\<lparr>dropped := dropped r\<rparr>" "unat (dropped r) = unat (dropped (ring s)) + (length src - unat n)"
proof -
  let ?A = "length (accepted s)" and ?D = "length (delivered s)"
  have A: "?A < 2 ^ 64" "?D \<le> ?A" "?A \<le> ?D + ring_cap s" using ring_offered [OF i] room i by (simp_all add: ring_inv_def)
  have used: "unat (write_pos (ring s) - read_pos (ring s)) = ?A - ?D"
    using i A by (simp add: ring_inv_def u64_diff)
  then have free: "unat (ring_capacity (ring s) - (write_pos (ring s) - read_pos (ring s))) = ring_cap s - (?A - ?D)"
    using A by (simp add: ring_cap_def unat_sub_if_size)
  have src: "unat (of_nat (length src) :: u64) = length src" using room by (simp add: u64_of_nat)
  let ?free = "ring_capacity (ring s) - (write_pos (ring s) - read_pos (ring s))"
  have big: "of_nat (length src) > ?free \<longleftrightarrow> length src > ring_cap s - (?A - ?D)"
    by (simp add: word_less_nat_alt src free)
  show n: "unat n = min (length src) (ring_cap s - (?A - ?D))" and "r = (ring s)\<lparr>dropped := dropped r\<rparr>"
    using run big src free by (auto simp: write_begin_def Let_def split: if_splits)
  have off: "offered s = ?A + unat (dropped (ring s))" using i idle by (simp add: ring_inv_def writer_ok_def)
  show "unat (dropped r) = unat (dropped (ring s)) + (length src - unat n)"
  proof (cases "of_nat (length src) > ?free")
    case True
    then have d: "dropped r = dropped (ring s) + (of_nat (length src) - ?free)" and n': "n = ?free"
      using run by (auto simp: write_begin_def Let_def)
    have "unat (of_nat (length src) - ?free) = length src - unat n"
      using True big by (subst unat_sub) (auto simp: n' src less_imp_le)
    moreover have "unat (dropped (ring s)) + (length src - unat n) < 2 ^ 64" using room off by simp
    ultimately show ?thesis unfolding d by (simp add: unat_add_lem [THEN iffD1])
  next
    case False
    then show ?thesis using run n big by (auto simp: write_begin_def Let_def)
  qed
qed

lemma step_offered: "ring_step s t \<Longrightarrow> offered s \<le> offered t"
  by (induction rule: ring_step.induct) auto

text \<open>Each step of one thread leaves what the other relies on.\<close>

lemma put_byte_frame [simp]:
  "ring_capacity (put_byte src w i r) = ring_capacity r" "write_pos (put_byte src w i r) = write_pos r"
  "read_pos (put_byte src w i r) = read_pos r" "dropped (put_byte src w i r) = dropped r"
  "length (ring_data (put_byte src w i r)) = length (ring_data r)"
  by (simp_all add: put_byte_def)

lemma inv_w_begin:
  assumes i: "ring_inv s" and idle: "writer_at s = W_idle" and run: "write_begin src (ring s) = (n, r)"
    and room: "offered s + length src < 2 ^ 64"
  shows "ring_inv (s\<lparr>ring := r, writer_at := W_copying src (write_pos (ring s)) n 0, offered := offered s + length src\<rparr>)"
proof -
  note spec = write_begin_spec [OF i idle run room]
  have r: "ring_capacity r = ring_capacity (ring s)" "write_pos r = write_pos (ring s)" "read_pos r = read_pos (ring s)"
    "ring_data r = ring_data (ring s)" by (subst spec(2), simp)+
  have "offered s = length (accepted s) + unat (dropped (ring s))" using i idle by (simp add: ring_inv_def writer_ok_def)
  then show ?thesis using i spec(1,3)
    by (auto simp: ring_inv_def ring_content_def writer_ok_def reader_ok_def ring_cap_def r split: ring_reader.splits)
qed

lemma inv_w_byte:
  assumes i: "ring_inv s" and busy: "writer_at s = W_copying src w n k" and more: "k < unat n"
    and room: "offered s < 2 ^ 64"
  shows "ring_inv (s\<lparr>ring := put_byte src w k (ring s), writer_at := W_copying src w n (Suc k)\<rparr>)"
proof -
  let ?A = "length (accepted s)" and ?D = "length (delivered s)" and ?C = "ring_cap s"
  have w: "w = of_nat ?A" and len: "unat n \<le> length src" and fits: "?A + unat n \<le> ?D + ?C"
    and off: "offered s = ?A + unat n + unat (dropped (ring s))"
    and old: "\<And>j. j < k \<Longrightarrow> ring_data (ring s) ! ((?A + j) mod ?C) = src ! j"
    using i busy by (simp_all add: ring_inv_def writer_ok_def)
  have C: "0 < ?C" "length (ring_data (ring s)) = ?C" "?D \<le> ?A" using i by (simp_all add: ring_inv_def)
  have "w + of_nat k = of_nat (?A + k)" by (simp add: w)
  moreover have "?A + k < 2 ^ 64" using off more room by simp
  ultimately have slot: "ring_slot (ring s) (w + of_nat k) = (?A + k) mod ?C"
    by (simp add: ring_slot_eq ring_cap_def del: of_nat_add)
  have bytes: "ring_data (put_byte src w k (ring s)) = (ring_data (ring s))[(?A + k) mod ?C := src ! k]"
    by (simp add: put_byte_def slot)
  have apart: "m mod ?C \<noteq> (?A + k) mod ?C" if "?D \<le> m" "m < ?A + k" for m
    using slots_apart [of m "?A + k" ?C] that fits more by simp
  have here: "(?A + k) mod ?C < length (ring_data (ring s))" using C by simp
  have "ring_content (s\<lparr>ring := put_byte src w k (ring s), writer_at := W_copying src w n (Suc k)\<rparr>)"
      (is "ring_content ?t")
    unfolding ring_content_def
  proof (intro allI impI)
    fix m assume m: "length (delivered ?t) \<le> m \<and> m < length (accepted ?t)"
    then have "(?A + k) mod ?C \<noteq> m mod ?C" using apart [of m] by simp
    then show "ring_data (ring ?t) ! (m mod ring_cap ?t) = accepted ?t ! m"
      using i m by (simp add: ring_inv_def ring_content_def ring_cap_def bytes [unfolded ring_cap_def])
  qed
  moreover have "ring_data (put_byte src w k (ring s)) ! ((?A + j) mod ?C) = src ! j" if "j < Suc k" for j
    using that old apart [of "?A + j"] here C by (cases "j = k") (simp_all add: bytes)
  ultimately show ?thesis using i busy more
    by (auto simp: ring_inv_def writer_ok_def reader_ok_def ring_cap_def split: ring_reader.splits)
qed

lemma inv_w_end:
  assumes i: "ring_inv s" and busy: "writer_at s = W_copying src w n (unat n)"
  shows "ring_inv (s\<lparr>ring := (ring s)\<lparr>write_pos := w + n\<rparr>, writer_at := W_idle, accepted := accepted s @ take (unat n) src\<rparr>)"
    (is "ring_inv ?t")
proof -
  let ?A = "length (accepted s)" and ?D = "length (delivered s)" and ?C = "ring_cap s"
  have w: "w = of_nat ?A" and len: "unat n \<le> length src" and fits: "?A + unat n \<le> ?D + ?C"
    and off: "offered s = ?A + unat n + unat (dropped (ring s))"
    and new: "\<And>j. j < unat n \<Longrightarrow> ring_data (ring s) ! ((?A + j) mod ?C) = src ! j"
    using i busy by (simp_all add: ring_inv_def writer_ok_def)
  have A: "length (accepted ?t) = ?A + unat n" using len by simp
  have cap: "ring_cap ?t = ?C" by (simp add: ring_cap_def)
  have "ring_content ?t" unfolding ring_content_def A cap
  proof (intro allI impI)
    fix k assume k: "length (delivered ?t) \<le> k \<and> k < ?A + unat n"
    show "ring_data (ring ?t) ! (k mod ?C) = accepted ?t ! k"
    proof (cases "k < ?A")
      case True
      then show ?thesis using i k by (simp add: ring_inv_def ring_content_def nth_append)
    next
      case False
      then have "k - ?A < unat n" using k by arith
      then show ?thesis using new [of "k - ?A"] False k by (simp add: nth_append)
    qed
  qed
  moreover have "delivered s = take ?D (accepted s @ take (unat n) src)" "?D \<le> ?A"
    using i by (simp_all add: ring_inv_def)
  moreover have "reader_ok ?t" using i by (auto simp: ring_inv_def reader_ok_def split: ring_reader.splits)
  ultimately show ?thesis using i w len fits off
    by (simp add: ring_inv_def writer_ok_def ring_cap_def)
qed

lemma read_begin_spec:
  assumes i: "ring_inv s" and room: "offered s < 2 ^ 64"
  shows "unat (read_begin len (ring s)) = min (unat len) (length (accepted s) - length (delivered s))"
proof -
  have "length (accepted s) < 2 ^ 64" "length (delivered s) \<le> length (accepted s)"
    using ring_offered [OF i] room i by (simp_all add: ring_inv_def)
  then have "unat (write_pos (ring s) - read_pos (ring s)) = length (accepted s) - length (delivered s)"
    using i by (simp add: ring_inv_def u64_diff)
  then show ?thesis by (auto simp: read_begin_def Let_def word_less_nat_alt)
qed

lemma inv_r_begin:
  assumes i: "ring_inv s" and room: "offered s < 2 ^ 64"
  shows "ring_inv (s\<lparr>reader_at := R_copying (read_pos (ring s)) (read_begin len (ring s)) []\<rparr>)"
  using i read_begin_spec [OF assms, of len]
  by (auto simp: ring_inv_def ring_content_def writer_ok_def reader_ok_def ring_cap_def split: ring_writer.splits)

lemma inv_r_byte:
  assumes i: "ring_inv s" and busy: "reader_at s = R_copying p n dst" and more: "length dst < unat n"
    and room: "offered s < 2 ^ 64"
  shows "ring_inv (s\<lparr>reader_at := R_copying p n (dst @ [get_byte p (length dst) (ring s)])\<rparr>)"
proof -
  let ?A = "length (accepted s)" and ?D = "length (delivered s)" and ?k = "length dst"
  have p: "p = of_nat ?D" and fits: "?D + unat n \<le> ?A" and dst: "dst = take ?k (drop ?D (accepted s))"
    using i busy by (simp_all add: ring_inv_def reader_ok_def)
  have "?A < 2 ^ 64" using ring_offered [OF i] room by simp
  then have "?D + ?k < 2 ^ 64" using fits more by simp
  moreover have "p + of_nat ?k = of_nat (?D + ?k)" by (simp add: p)
  ultimately have "ring_slot (ring s) (p + of_nat ?k) = (?D + ?k) mod ring_cap s"
    by (simp add: ring_slot_eq ring_cap_def del: of_nat_add)
  then have "get_byte p ?k (ring s) = accepted s ! (?D + ?k)"
    using i fits more by (simp add: get_byte_def ring_inv_def ring_content_def)
  then have "dst @ [get_byte p ?k (ring s)] = take (Suc ?k) (drop ?D (accepted s))"
    using dst fits more by (simp add: take_Suc_conv_app_nth)
  then show ?thesis using i busy more
    by (auto simp: ring_inv_def ring_content_def writer_ok_def reader_ok_def ring_cap_def split: ring_writer.splits)
qed

lemma inv_r_end:
  assumes i: "ring_inv s" and busy: "reader_at s = R_copying p n dst" and full: "length dst = unat n"
  shows "ring_inv (s\<lparr>ring := (ring s)\<lparr>read_pos := p + n\<rparr>, reader_at := R_idle, delivered := delivered s @ dst\<rparr>)"
    (is "ring_inv ?t")
proof -
  let ?A = "length (accepted s)" and ?D = "length (delivered s)"
  have p: "p = of_nat ?D" and fits: "?D + unat n \<le> ?A" and dst: "dst = take (length dst) (drop ?D (accepted s))"
    using i busy by (simp_all add: ring_inv_def reader_ok_def)
  have "delivered s @ dst = take (?D + length dst) (accepted s)"
    using i by (subst dst) (simp add: take_add ring_inv_def)
  moreover have "p + n = of_nat (?D + length dst)" by (simp add: p full)
  moreover have "ring_content ?t" using i by (simp add: ring_inv_def ring_content_def ring_cap_def)
  moreover have "writer_ok ?t" using i by (auto simp: ring_inv_def writer_ok_def ring_cap_def split: ring_writer.splits)
  ultimately show ?thesis using i fits full by (simp add: ring_inv_def reader_ok_def ring_cap_def)
qed

lemma ring_step_inv: "ring_step s t \<Longrightarrow> offered t < 2 ^ 64 \<Longrightarrow> ring_inv s \<Longrightarrow> ring_inv t"
  by (induction rule: ring_step.induct)
     (simp_all add: inv_w_begin inv_w_byte inv_w_end inv_r_begin inv_r_byte inv_r_end)

lemma ring_steps_inv: "ring_step\<^sup>*\<^sup>* s t \<Longrightarrow> offered t < 2 ^ 64 \<Longrightarrow> ring_inv s \<Longrightarrow> ring_inv t"
proof (induction rule: rtranclp_induct)
  case (step t u)
  then have "offered t < 2 ^ 64" using step_offered [of t u] by simp
  with step show ?case using ring_step_inv by blast
qed

lemma ring_start_inv:
  "ring_init ok cap = Some r \<Longrightarrow> 0 < cap \<Longrightarrow> ring_inv (ring_start r)"
  by (auto simp: ring_init_def ring_start_def ring_inv_def ring_content_def writer_ok_def reader_ok_def ring_cap_def
      word_less_nat_alt split: if_splits)

lemma ring_step_capacity: "ring_step s t \<Longrightarrow> ring_cap t = ring_cap s"
  by (induction rule: ring_step.induct) (auto simp: ring_cap_def write_begin_def Let_def split: if_splits)

lemma ring_steps_capacity: "ring_step\<^sup>*\<^sup>* s t \<Longrightarrow> ring_cap t = ring_cap s"
  by (induction rule: rtranclp_induct) (simp_all add: ring_step_capacity)

section \<open>One call at a time\<close>

text \<open>A whole call is a run of its thread's steps.\<close>

lemma write_steps:
  assumes "writer_at s = W_copying src w n k" and "k + m \<le> unat n"
  shows "ring_step\<^sup>*\<^sup>* s (s\<lparr>ring := fold (put_byte src w) [k..<k + m] (ring s), writer_at := W_copying src w n (k + m)\<rparr>)"
  using assms(2)
proof (induction m)
  case 0
  have "s = s\<lparr>ring := ring s, writer_at := W_copying src w n k\<rparr>" using assms(1) by simp
  then show ?case by (metis add_0_right fold_simps(1) rtranclp.rtrancl_refl upt_conv_Nil order_refl)
next
  case (Suc m)
  let ?t = "s\<lparr>ring := fold (put_byte src w) [k..<k + m] (ring s), writer_at := W_copying src w n (k + m)\<rparr>"
  have "ring_step ?t (?t\<lparr>ring := put_byte src w (k + m) (ring ?t), writer_at := W_copying src w n (Suc (k + m))\<rparr>)"
    using Suc.prems by (intro w_byte) simp_all
  then show ?case using Suc by (simp add: rtranclp.rtrancl_into_rtrancl)
qed

lemma ring_write_run:
  assumes "writer_at s = W_idle" and "write_begin src (ring s) = (n, r)"
  shows "ring_step\<^sup>*\<^sup>* s (s\<lparr>ring := ring_write src (ring s), offered := offered s + length src,
      accepted := accepted s @ take (unat n) src\<rparr>)"
proof -
  let ?w = "write_pos (ring s)"
  let ?t = "s\<lparr>ring := r, writer_at := W_copying src ?w n 0, offered := offered s + length src\<rparr>"
  let ?u = "?t\<lparr>ring := fold (put_byte src ?w) [0..<0 + unat n] (ring ?t), writer_at := W_copying src ?w n (0 + unat n)\<rparr>"
  have "ring_step s ?t" by (rule w_begin [OF assms])
  moreover have "ring_step\<^sup>*\<^sup>* ?t ?u" by (rule write_steps) simp_all
  moreover have "ring_step ?u (?u\<lparr>ring := (ring ?u)\<lparr>write_pos := ?w + n\<rparr>, writer_at := W_idle,
      accepted := accepted ?u @ take (unat n) src\<rparr>)" by (rule w_end) simp
  ultimately have run: "ring_step\<^sup>*\<^sup>* s (?u\<lparr>ring := (ring ?u)\<lparr>write_pos := ?w + n\<rparr>, writer_at := W_idle,
      accepted := accepted ?u @ take (unat n) src\<rparr>)"
    by (meson converse_rtranclp_into_rtranclp rtranclp.rtrancl_into_rtrancl)
  have "?u\<lparr>ring := (ring ?u)\<lparr>write_pos := ?w + n\<rparr>, writer_at := W_idle, accepted := accepted ?u @ take (unat n) src\<rparr> =
      s\<lparr>ring := ring_write src (ring s), offered := offered s + length src, accepted := accepted s @ take (unat n) src\<rparr>"
    using assms by (intro ring_threads.equality) (simp_all add: ring_write_def)
  from this run show ?thesis by (rule subst)
qed

lemma read_steps:
  assumes "reader_at s = R_copying p n []" and "m \<le> unat n"
  shows "ring_step\<^sup>*\<^sup>* s (s\<lparr>reader_at := R_copying p n (map (\<lambda>i. get_byte p i (ring s)) [0..<m])\<rparr>)"
  using assms(2)
proof (induction m)
  case 0
  have "s = s\<lparr>reader_at := R_copying p n []\<rparr>" using assms(1) by simp
  then show ?case by (metis list.map(1) rtranclp.rtrancl_refl upt_0)
next
  case (Suc m)
  let ?t = "s\<lparr>reader_at := R_copying p n (map (\<lambda>i. get_byte p i (ring s)) [0..<m])\<rparr>"
  have "ring_step ?t (?t\<lparr>reader_at := R_copying p n (map (\<lambda>i. get_byte p i (ring s)) [0..<m] @
      [get_byte p (length (map (\<lambda>i. get_byte p i (ring s)) [0..<m])) (ring ?t)])\<rparr>)"
    using Suc.prems by (intro r_byte) simp_all
  then show ?case using Suc by (simp add: rtranclp.rtrancl_into_rtrancl)
qed

lemma ring_read_run:
  assumes idle: "reader_at s = R_idle" and run: "ring_read len (ring s) = (bytes, r)"
  shows "ring_step\<^sup>*\<^sup>* s (s\<lparr>ring := r, delivered := delivered s @ bytes\<rparr>)"
proof -
  let ?p = "read_pos (ring s)" and ?n = "read_begin len (ring s)"
  let ?t = "s\<lparr>reader_at := R_copying ?p ?n []\<rparr>"
  have bytes: "bytes = map (\<lambda>i. get_byte ?p i (ring s)) [0..<unat ?n]" and r: "r = (ring s)\<lparr>read_pos := ?p + ?n\<rparr>"
    using run by (auto simp: ring_read_def Let_def)
  let ?u = "?t\<lparr>reader_at := R_copying ?p ?n bytes\<rparr>"
  have "ring_step s ?t" by (rule r_begin [OF idle])
  moreover have "ring_step\<^sup>*\<^sup>* ?t ?u" using read_steps [of ?t ?p ?n "unat ?n"] by (simp add: bytes)
  moreover have "ring_step ?u (?u\<lparr>ring := (ring ?u)\<lparr>read_pos := ?p + ?n\<rparr>, reader_at := R_idle,
      delivered := delivered ?u @ bytes\<rparr>)" by (rule r_end) (simp_all add: bytes)
  ultimately have steps: "ring_step\<^sup>*\<^sup>* s (?u\<lparr>ring := (ring ?u)\<lparr>read_pos := ?p + ?n\<rparr>, reader_at := R_idle,
      delivered := delivered ?u @ bytes\<rparr>)"
    by (meson converse_rtranclp_into_rtranclp rtranclp.rtrancl_into_rtrancl)
  have "?u\<lparr>ring := (ring ?u)\<lparr>read_pos := ?p + ?n\<rparr>, reader_at := R_idle, delivered := delivered ?u @ bytes\<rparr> =
      s\<lparr>ring := r, delivered := delivered s @ bytes\<rparr>"
    using idle by (intro ring_threads.equality) (simp_all add: r)
  from this steps show ?thesis by (rule subst)
qed

section \<open>The ring as a bounded queue\<close>

text \<open>The queue a ring stands for, oldest byte first.\<close>

definition ring_bytes :: "loopback_ring \<Rightarrow> byte list" where
  "ring_bytes r = map (\<lambda>k. get_byte (read_pos r) k r) [0..<unat (write_pos r - read_pos r)]"

definition ring_ok :: "loopback_ring \<Rightarrow> bool" where
  "ring_ok r \<longleftrightarrow>
     0 < ring_capacity r \<and> length (ring_data r) = unat (ring_capacity r) \<and>
     unat (read_pos r) \<le> unat (write_pos r) \<and> unat (write_pos r) \<le> unat (read_pos r) + unat (ring_capacity r)"

text \<open>The threads between calls, with the history the positions stand for.\<close>

definition ring_resume :: "loopback_ring \<Rightarrow> ring_threads" where
  "ring_resume r =
     \<lparr>ring = r, writer_at = W_idle, reader_at = R_idle, offered = unat (write_pos r) + unat (dropped r),
      accepted = replicate (unat (read_pos r)) 0 @ ring_bytes r, delivered = replicate (unat (read_pos r)) 0\<rparr>"

lemma length_ring_bytes: "ring_ok r \<Longrightarrow> length (ring_bytes r) = unat (write_pos r) - unat (read_pos r)"
  by (simp add: ring_bytes_def ring_ok_def unat_sub word_le_nat_alt)

lemma ring_bytes_nth:
  assumes "ring_ok r" and "k < length (ring_bytes r)"
  shows "ring_bytes r ! k = ring_data r ! ((unat (read_pos r) + k) mod unat (ring_capacity r))"
proof -
  have "unat (read_pos r) + k < unat (write_pos r)" using assms length_ring_bytes [OF assms(1)] by simp
  then have "unat (read_pos r) + k < 2 ^ 64" using unat_u64_bound [of "write_pos r"] by simp
  moreover have "read_pos r + of_nat k = of_nat (unat (read_pos r) + k)" by simp
  ultimately have "ring_slot r (read_pos r + of_nat k) = (unat (read_pos r) + k) mod unat (ring_capacity r)"
    by (simp add: ring_slot_eq del: of_nat_add)
  then show ?thesis using assms(2) by (simp add: ring_bytes_def get_byte_def)
qed

lemma ring_resume_inv: "ring_ok r \<Longrightarrow> ring_inv (ring_resume r)"
  using length_ring_bytes [of r]
  by (auto simp: ring_inv_def ring_resume_def ring_content_def writer_ok_def reader_ok_def ring_cap_def nth_append
      ring_bytes_nth ring_ok_def word_less_nat_alt)

lemma ring_inv_bytes:
  assumes i: "ring_inv s" and room: "offered s < 2 ^ 64"
  shows "ring_bytes (ring s) = drop (length (delivered s)) (accepted s)" "ring_ok (ring s)"
proof -
  let ?A = "length (accepted s)" and ?D = "length (delivered s)"
  have A: "?A < 2 ^ 64" "?D \<le> ?A" using ring_offered [OF i] room i by (simp_all add: ring_inv_def)
  have pos: "unat (write_pos (ring s)) = ?A" "unat (read_pos (ring s)) = ?D"
    using i A by (simp_all add: ring_inv_def u64_of_nat)
  show ok: "ring_ok (ring s)" using i pos by (simp add: ring_inv_def ring_ok_def ring_cap_def word_less_nat_alt)
  show "ring_bytes (ring s) = drop ?D (accepted s)"
  proof (rule nth_equalityI)
    show "length (ring_bytes (ring s)) = length (drop ?D (accepted s))" using length_ring_bytes [OF ok] pos by simp
    fix k assume "k < length (ring_bytes (ring s))"
    then show "ring_bytes (ring s) ! k = drop ?D (accepted s) ! k"
      using ring_bytes_nth [OF ok] length_ring_bytes [OF ok] pos i by (simp add: ring_inv_def ring_content_def ring_cap_def)
  qed
qed

text \<open>A call of the writer appends what fits; a call of the reader takes from the front.\<close>

lemma ring_write_queue:
  assumes ok: "ring_ok r" and room: "unat (write_pos r) + unat (dropped r) + length src < 2 ^ 64"
  shows "ring_ok (ring_write src r)"
    "ring_bytes (ring_write src r) = ring_bytes r @ take (unat (ring_capacity r) - length (ring_bytes r)) src"
proof -
  obtain n r1 where b: "write_begin src r = (n, r1)" by fastforce
  let ?s = "ring_resume r"
  let ?t = "?s\<lparr>ring := ring_write src (ring ?s), offered := offered ?s + length src, accepted := accepted ?s @ take (unat n) src\<rparr>"
  have run: "ring_step\<^sup>*\<^sup>* ?s ?t" by (rule ring_write_run [where r = r1]) (use b in \<open>simp_all add: ring_resume_def\<close>)
  have small: "offered ?t < 2 ^ 64" using room by (simp add: ring_resume_def)
  note i = ring_steps_inv [OF run small ring_resume_inv [OF ok]]
  have n: "unat n = min (length src) (unat (ring_capacity r) - length (ring_bytes r))"
    using write_begin_spec(1) [OF ring_resume_inv [OF ok], of src n r1] b room
    by (simp add: ring_resume_def ring_cap_def)
  show "ring_ok (ring_write src r)"
    "ring_bytes (ring_write src r) = ring_bytes r @ take (unat (ring_capacity r) - length (ring_bytes r)) src"
    using ring_inv_bytes [OF i small] by (simp_all add: ring_resume_def n min_def)
qed

lemma ring_read_queue:
  assumes ok: "ring_ok r" and room: "unat (write_pos r) + unat (dropped r) < 2 ^ 64" and run: "ring_read len r = (bytes, r')"
  shows "ring_ok r'" "bytes = take (unat len) (ring_bytes r)" "ring_bytes r' = drop (unat len) (ring_bytes r)"
proof -
  let ?s = "ring_resume r"
  let ?t = "?s\<lparr>ring := r', delivered := delivered ?s @ bytes\<rparr>"
  have steps: "ring_step\<^sup>*\<^sup>* ?s ?t" by (rule ring_read_run) (use run in \<open>simp_all add: ring_resume_def\<close>)
  have small: "offered ?s < 2 ^ 64" "offered ?t < 2 ^ 64" using room by (simp_all add: ring_resume_def)
  note i = ring_steps_inv [OF steps small(2) ring_resume_inv [OF ok]]
  have "unat (read_begin len r) = min (unat len) (length (ring_bytes r))"
    using read_begin_spec [OF ring_resume_inv [OF ok] small(1), of len] by (simp add: ring_resume_def)
  then have n: "length bytes = min (unat len) (length (ring_bytes r))" using run by (auto simp: ring_read_def Let_def)
  have "delivered ?t = take (length (delivered ?t)) (accepted ?t)" using i by (simp add: ring_inv_def)
  then have bytes: "bytes = take (length bytes) (ring_bytes r)" by (simp add: ring_resume_def)
  then show "bytes = take (unat len) (ring_bytes r)" using n by (metis min.cobounded2 take_all_iff take_take min_def)
  show "ring_ok r'" using ring_inv_bytes(2) [OF i small(2)] by (simp add: ring_resume_def)
  have "ring_bytes r' = drop (length bytes) (ring_bytes r)" using ring_inv_bytes(1) [OF i small(2)] by (simp add: ring_resume_def)
  then show "ring_bytes r' = drop (unat len) (ring_bytes r)" using n by (auto simp: min_def split: if_splits)
qed

end
