(* ===== verification/Pwf_Loopback.thy ===== *)
theory Pwf_Loopback
  imports Pwf_Util Pwf_Loopback_Ring
begin

text \<open>
  \<^verbatim>\<open>utils/pwf_stream_loopback.c\<close>, the program around the ring: its options, opening the audio and video
  streams, and the cleanup every path ends in. While it runs, the capture and playback callbacks are
  the ring operations of \<open>Pwf_Loopback_Ring\<close>, given here in the order they are called.
\<close>

section \<open>Options\<close>

record loopback_config =
  l_audio :: bool
  l_device :: "string option"
  l_duration :: int
  l_rate :: int
  l_channels :: int
  l_format :: "string option"
  l_bytes :: int
  l_streams :: int
  l_dmabuf :: bool
  l_pixel :: string
  l_fps :: int
  l_width :: int
  l_height :: int

definition loopback_defaults :: loopback_config where
  "loopback_defaults =
     \<lparr>l_audio = True, l_device = None, l_duration = 0, l_rate = 48000, l_channels = 2, l_format = None,
      l_bytes = 2, l_streams = 0, l_dmabuf = False, l_pixel = ''YUYV'', l_fps = 0, l_width = 640, l_height = 480\<rparr>"

definition loopback_bit_depths :: "(string \<times> string \<times> int) list" where
  "loopback_bit_depths = [(''16'', ''S16'', 2), (''24'', ''S24'', 3), (''32'', ''S32'', 4), (''f32'', ''F32'', 4)]"

text \<open>What \<open>getopt_long\<close> answers: one option per case of the switch.\<close>

datatype loopback_option =
    Loop_duration string | Loop_no_audio | Loop_device string | Loop_rate string | Loop_channels string
  | Loop_bits string | Loop_streams string | Loop_dmabuf | Loop_pixel string | Loop_fps string
  | Loop_width string | Loop_height string | Loop_help | Loop_unknown

fun loopback_option_step :: "loopback_option \<Rightarrow> loopback_config \<Rightarrow> int + loopback_config" where
  "loopback_option_step (Loop_duration a) c = (if c_atoi a \<le> 0 then Inl 1 else Inr (c\<lparr>l_duration := c_atoi a\<rparr>))"
| "loopback_option_step Loop_no_audio c = Inr (c\<lparr>l_audio := False\<rparr>)"
| "loopback_option_step (Loop_device a) c = Inr (c\<lparr>l_device := Some a\<rparr>)"
| "loopback_option_step (Loop_rate a) c = Inr (c\<lparr>l_rate := c_atoi a\<rparr>)"
| "loopback_option_step (Loop_channels a) c = Inr (c\<lparr>l_channels := c_atoi a\<rparr>)"
| "loopback_option_step (Loop_bits a) c =
     (case find (\<lambda>e. fst e = a) loopback_bit_depths of
        None \<Rightarrow> Inl 1
      | Some (_, name, n) \<Rightarrow> Inr (c\<lparr>l_format := Some name, l_bytes := n\<rparr>))"
| "loopback_option_step (Loop_streams a) c = (if c_atoi a < 0 then Inl 1 else Inr (c\<lparr>l_streams := c_atoi a\<rparr>))"
| "loopback_option_step Loop_dmabuf c = Inr (c\<lparr>l_dmabuf := True\<rparr>)"
| "loopback_option_step (Loop_pixel a) c = Inr (c\<lparr>l_pixel := a\<rparr>)"
| "loopback_option_step (Loop_fps a) c = Inr (c\<lparr>l_fps := c_atoi a\<rparr>)"
| "loopback_option_step (Loop_width a) c = Inr (c\<lparr>l_width := c_atoi a\<rparr>)"
| "loopback_option_step (Loop_height a) c = Inr (c\<lparr>l_height := c_atoi a\<rparr>)"
| "loopback_option_step Loop_help c = Inl 0"
| "loopback_option_step Loop_unknown c = Inl 1"

section \<open>Streams\<close>

datatype loopback_audio_op = Capture "byte list option" | Playback u64

text \<open>
  What the outside answers: the ring's memory, the audio streams, the two arrays of the video part,
  the video streams by index, and the audio callbacks while the program runs.
\<close>

record loopback_env =
  le_ring_ok :: bool
  le_capture :: stream_setup
  le_playback :: stream_setup
  le_arrays_ok :: bool
  le_video :: "nat \<Rightarrow> stream_setup"
  le_audio_ops :: "loopback_audio_op list"

text \<open>
  The variables \<open>main\<close> keeps until the cleanup; \<open>ls_videos\<close> are the first \<open>video_started\<close> entries of
  the array. \<open>ls_status\<close> is not 0 once the code has jumped to the cleanup.
\<close>

record loopback_session =
  ls_status :: int
  ls_ring :: "loopback_ring option"
  ls_capture :: "pwf_stream option"
  ls_playback :: "pwf_stream option"
  ls_videos :: "pwf_stream option list"
  ls_global :: pw_global

definition ring_size :: "loopback_config \<Rightarrow> u64" where
  "ring_size c = word_of_int (l_rate c) * word_of_int (l_channels c) * word_of_int (l_bytes c)"

definition loopback_audio_config :: "loopback_config \<Rightarrow> pwf_audio_config" where
  "loopback_audio_config c = \<lparr>sample_rate = l_rate c, channels = l_channels c, sample_format = l_format c\<rparr>"

text \<open>The capture stream, created and configured; the flag says whether it was.\<close>

definition loopback_open_capture :: "loopback_config \<Rightarrow> stream_setup \<Rightarrow> pw_global \<Rightarrow> bool \<times> pwf_stream option \<times> pw_global" where
  "loopback_open_capture c su g =
     (case pwf_stream_create (su_connect su) (su_mem su) PWF_DATA_AUDIO True g of
        (None, g1) \<Rightarrow> (False, None, g1)
      | (Some s, g1) \<Rightarrow>
          let h1 = snd (pwf_stream_set_error_callback True (Some s));
              (res, h2) = (case l_device c of
                             None \<Rightarrow> (PWF_OK, h1)
                           | Some d \<Rightarrow> pwf_stream_set_target (su_dup_ok su) (Some d) h1)
          in if res \<noteq> PWF_OK then (False, h2, g1)
             else case pwf_stream_set_audio_config app_thread (su_config su) (Some (loopback_audio_config c)) h2 of
                 (cfg_res, h3) \<Rightarrow> (cfg_res = PWF_OK, h3, g1))"

definition loopback_open_playback :: "loopback_config \<Rightarrow> stream_setup \<Rightarrow> pw_global \<Rightarrow> bool \<times> pwf_stream option \<times> pw_global" where
  "loopback_open_playback c su g =
     (case pwf_stream_create_playback (su_connect su) (su_mem su) True g of
        (None, g1) \<Rightarrow> (False, None, g1)
      | (Some s, g1) \<Rightarrow>
          let h1 = snd (pwf_stream_set_error_callback True (Some s))
          in case pwf_stream_set_audio_config app_thread (su_config su) (Some (loopback_audio_config c)) h1 of
               (cfg_res, h2) \<Rightarrow> (cfg_res = PWF_OK, h2, g1))"

definition loopback_audio :: "loopback_env \<Rightarrow> loopback_config \<Rightarrow> loopback_session \<Rightarrow> loopback_session" where
  "loopback_audio env c s =
     (case ring_init (le_ring_ok env) (ring_size c) of
        None \<Rightarrow> s\<lparr>ls_status := 1\<rparr>
      | Some r \<Rightarrow>
          (case loopback_open_capture c (le_capture env) (ls_global s) of
             (ok1, cap, g1) \<Rightarrow>
               let s1 = s\<lparr>ls_ring := Some r, ls_capture := cap, ls_global := g1\<rparr>
               in if \<not> ok1 then s1\<lparr>ls_status := 1\<rparr>
                  else case loopback_open_playback c (le_playback env) g1 of
                      (ok2, play, g2) \<Rightarrow>
                        let s2 = s1\<lparr>ls_playback := play, ls_global := g2\<rparr>
                        in if \<not> ok2 then s2\<lparr>ls_status := 1\<rparr>
                           else case pwf_stream_start app_thread cap of
                               (res1, cap1) \<Rightarrow>
                                 if res1 \<noteq> PWF_OK then s2\<lparr>ls_capture := cap1, ls_status := 1\<rparr>
                                 else case pwf_stream_start app_thread play of
                                     (res2, play1) \<Rightarrow>
                                       s2\<lparr>ls_capture := cap1, ls_playback := play1,
                                          ls_status := (if res2 \<noteq> PWF_OK then 1 else 0)\<rparr>))"

text \<open>Video stream \<open>i\<close>: the flag says whether it was started, the handle is \<open>None\<close> when none was created.\<close>

definition loopback_open_video :: "loopback_config \<Rightarrow> stream_setup \<Rightarrow> pw_global \<Rightarrow> bool \<times> pwf_stream option \<times> pw_global" where
  "loopback_open_video c su g =
     (case pwf_stream_create (su_connect su) (su_mem su) PWF_DATA_VIDEO True g of
        (None, g1) \<Rightarrow> (False, None, g1)
      | (Some s, g1) \<Rightarrow>
          let h1 = snd (pwf_stream_set_error_callback True (Some s));
              cfg = \<lparr>cfg_width = l_width c, cfg_height = l_height c, cfg_pixel_format = Some (l_pixel c), cfg_fps = l_fps c\<rparr>;
              (cfg_res, h2) = (if l_dmabuf c
                then pwf_stream_set_video_config_ex app_thread (su_config su) (Some cfg) (Some PWF_PORT_MEMORY_DMABUF) h1
                else pwf_stream_set_video_config app_thread (su_config su) (Some cfg) h1)
          in if cfg_res \<noteq> PWF_OK then (False, h2, g1)
             else case pwf_stream_start app_thread h2 of (res, h3) \<Rightarrow> (res = PWF_OK, h3, g1))"

fun loopback_videos :: "loopback_env \<Rightarrow> loopback_config \<Rightarrow> nat list \<Rightarrow> loopback_session \<Rightarrow> loopback_session" where
  "loopback_videos env c [] s = s"
| "loopback_videos env c (i # is) s =
     (case loopback_open_video c (le_video env i) (ls_global s) of
        (ok, h, g) \<Rightarrow>
          let s1 = s\<lparr>ls_global := g, ls_videos := ls_videos s @ (if h = None then [] else [h])\<rparr>
          in if ok then loopback_videos env c is s1 else s1\<lparr>ls_status := 1\<rparr>)"

definition loopback_video :: "loopback_env \<Rightarrow> loopback_config \<Rightarrow> loopback_session \<Rightarrow> loopback_session" where
  "loopback_video env c s =
     (if \<not> le_arrays_ok env then s\<lparr>ls_status := 1\<rparr> else loopback_videos env c [0..<nat (l_streams c)] s)"

section \<open>Running and cleaning up\<close>

fun loopback_audio_call :: "loopback_audio_op \<Rightarrow> loopback_ring \<Rightarrow> loopback_ring" where
  "loopback_audio_call (Capture buf) r = on_audio_capture buf r"
| "loopback_audio_call (Playback space) r = snd (on_audio_playback space r)"

definition loopback_close :: "stream_setup \<Rightarrow> pwf_stream option \<Rightarrow> pw_global \<Rightarrow> pw_global" where
  "loopback_close su h g =
     (if h = None then g
      else snd (pwf_stream_destroy app_thread (su_end su) g (snd (pwf_stream_stop app_thread ([], []) False h))))"

text \<open>The video streams, then playback, then capture. The result is the global state and \<open>dropped\<close>.\<close>

definition loopback_cleanup :: "loopback_env \<Rightarrow> loopback_session \<Rightarrow> pw_global \<times> u64" where
  "loopback_cleanup env s =
     (let g1 = fold (\<lambda>(i, h). loopback_close (le_video env i) h) (enumerate 0 (ls_videos s)) (ls_global s);
          g2 = loopback_close (le_playback env) (ls_playback s) g1;
          g3 = loopback_close (le_capture env) (ls_capture s) g2
      in (g3, case ls_ring s of None \<Rightarrow> 0 | Some r \<Rightarrow> dropped r))"

definition loopback_run :: "loopback_env \<Rightarrow> loopback_session \<Rightarrow> loopback_session" where
  "loopback_run env s =
     s\<lparr>ls_ring := map_option (fold loopback_audio_call (le_audio_ops env)) (ls_ring s),
       ls_capture := run_stream (le_capture env) (ls_capture s),
       ls_playback := run_stream (le_playback env) (ls_playback s),
       ls_videos := map (\<lambda>(i, h). run_stream (le_video env i) h) (enumerate 0 (ls_videos s))\<rparr>"

definition loopback_open_all :: "loopback_env \<Rightarrow> loopback_config \<Rightarrow> pw_global \<Rightarrow> loopback_session" where
  "loopback_open_all env c g =
     (let s0 = \<lparr>ls_status = 0, ls_ring = None, ls_capture = None, ls_playback = None, ls_videos = [], ls_global = g\<rparr>;
          s1 = (if l_audio c then loopback_audio env c s0 else s0)
      in if ls_status s1 \<noteq> 0 then s1
         else let s2 = (if l_streams c > 0 then loopback_video env c s1 else s1)
              in if ls_status s2 \<noteq> 0 then s2 else loopback_run env s2)"

text \<open>The exit status, the library's global state and the count of dropped bytes it reports.\<close>

definition loopback_main :: "loopback_env \<Rightarrow> loopback_option list \<Rightarrow> pw_global \<Rightarrow> int \<times> pw_global \<times> u64" where
  "loopback_main env opts g =
     (case read_options loopback_option_step opts loopback_defaults of
        Inl status \<Rightarrow> (status, g, 0)
      | Inr c \<Rightarrow>
          if \<not> l_audio c \<and> l_streams c = 0 then (1, g, 0)
          else let s = loopback_open_all env c g in (ls_status s, loopback_cleanup env s))"

end
