(* ===== verification/Pwf_Util_Facts.thy ===== *)
theory Pwf_Util_Facts
  imports Pwf_Record Pwf_Loopback Pwf_Stream_Run
begin

text \<open>
  Facts about the two programs: the bytes of a recorded file and how they read back, the ring a
  loopback runs on, and that every way out closes every stream that was opened.
\<close>

section \<open>Files\<close>

text \<open>An unlimited file written at a position inside it.\<close>

definition file_ok :: "out_file \<Rightarrow> bool" where
  "file_ok f \<longleftrightarrow> f_limit f = None \<and> f_pos f \<le> length (f_bytes f)"

lemma fwrite_free:
  "f_limit f = None \<Longrightarrow> c_fwrite bs f = (length bs, fput bs f)"
  by (simp add: c_fwrite_def fput_def file_room_def Let_def)

lemma fput_ok [simp]: "file_ok f \<Longrightarrow> file_ok (fput bs f)"
  by (simp add: file_ok_def fput_def c_fwrite_def file_room_def Let_def)

lemma fput_fput [simp]:
  assumes "file_ok f"
  shows "fput cs (fput bs f) = fput (bs @ cs) f"
  using assms by (simp add: fput_def c_fwrite_def file_ok_def file_room_def Let_def min_def ac_simps)

lemma fput_end:
  assumes "f_limit f = None" and "f_pos f = length (f_bytes f)"
  shows "fput bs f = f\<lparr>f_bytes := f_bytes f @ bs, f_pos := length (f_bytes f @ bs)\<rparr>"
  using assms by (simp add: fput_def c_fwrite_def file_room_def Let_def)

section \<open>Headers\<close>

definition wav_bytes :: "int \<Rightarrow> int \<Rightarrow> int \<Rightarrow> u16 \<Rightarrow> u32 \<Rightarrow> byte list" where
  "wav_bytes rate chans bps wav_tag data_size =
     ascii ''RIFF'' @ le32 (36 + data_size) @ ascii ''WAVE'' @ ascii ''fmt '' @ le32 16 @ le16 wav_tag @
     le16 (word_of_int chans) @ le32 (word_of_int rate) @
     le32 (word_of_int rate * word_of_int chans * word_of_int bps) @ le16 (word_of_int (chans * bps)) @
     le16 (word_of_int (bps * 8)) @ ascii ''data'' @ le32 data_size"

lemma length_le [simp]: "length (le16 v) = 2" "length (le32 w) = 4"
  by (simp_all add: le16_def le32_def)

lemma length_ascii [simp]: "length (ascii s) = length s"
  by (simp add: ascii_def)

lemma length_wav_bytes [simp]: "length (wav_bytes rate chans bps wav_tag n) = 44"
  by (simp add: wav_bytes_def)

lemma write_wav_header_eq:
  assumes "file_ok f"
  shows "write_wav_header rate chans bps wav_tag n f = fput (wav_bytes rate chans bps wav_tag n) f"
  using assms by (simp add: write_wav_header_def wav_bytes_def Let_def put_le16_def put_le32_def)

text \<open>Reading a canonical header back: the fields, and the bytes of the data chunk.\<close>

record wav_info =
  wi_tag :: u16
  wi_channels :: u16
  wi_rate :: u32
  wi_byte_rate :: u32
  wi_align :: u16
  wi_bits :: u16
  wi_data :: "byte list"

unbundle bit_operations_syntax

definition get16 :: "nat \<Rightarrow> byte list \<Rightarrow> u16" where
  "get16 i bs = ucast (bs ! i) OR push_bit 8 (ucast (bs ! (i + 1)))"

definition get32 :: "nat \<Rightarrow> byte list \<Rightarrow> u32" where
  "get32 i bs =
     ucast (bs ! i) OR push_bit 8 (ucast (bs ! (i + 1))) OR push_bit 16 (ucast (bs ! (i + 2))) OR
     push_bit 24 (ucast (bs ! (i + 3)))"

definition parse_wav :: "byte list \<Rightarrow> wav_info option" where
  "parse_wav bs =
     (if length bs < 44 \<or> take 4 bs \<noteq> ascii ''RIFF'' \<or> take 8 (drop 8 bs) \<noteq> ascii ''WAVEfmt '' \<or>
         get32 16 bs \<noteq> 16 \<or> take 4 (drop 36 bs) \<noteq> ascii ''data'' \<or>
         unat (get32 4 bs) \<noteq> 36 + unat (get32 40 bs) \<or> unat (get32 40 bs) \<noteq> length bs - 44
      then None
      else Some \<lparr>wi_tag = get16 20 bs, wi_channels = get16 22 bs, wi_rate = get32 24 bs,
                 wi_byte_rate = get32 28 bs, wi_align = get16 32 bs, wi_bits = get16 34 bs, wi_data = drop 44 bs\<rparr>)"

lemma join16: "(ucast (ucast v :: byte) :: u16) OR push_bit 8 (ucast (ucast (drop_bit 8 v) :: byte)) = v"
  by (rule bit_word_eqI) (auto simp: bit_simps)

lemma join32:
  "(ucast (ucast v :: byte) :: u32) OR push_bit 8 (ucast (ucast (drop_bit 8 v) :: byte)) OR
     push_bit 16 (ucast (ucast (drop_bit 16 v) :: byte)) OR push_bit 24 (ucast (ucast (drop_bit 24 v) :: byte)) = v"
  (is "?w = v")
proof (rule bit_word_eqI)
  fix n assume "n < LENGTH(32)"
  moreover have "n < 8 \<or> 8 \<le> n \<and> n < 16 \<or> 16 \<le> n \<and> n < 24 \<or> 24 \<le> n" by auto
  ultimately show "bit ?w n = bit v n" by (auto simp: bit_simps)
qed

text \<open>Where the header has which field, whatever follows it.\<close>

lemma wav_bytes_fields:
  assumes bs_def: "bs = wav_bytes rate chans bps wav_tag n @ data"
  shows "get16 20 bs = wav_tag" "get16 22 bs = word_of_int chans"
    "get16 32 bs = word_of_int (chans * bps)" "get16 34 bs = word_of_int (bps * 8)"
    "get32 4 bs = 36 + n" "get32 16 bs = 16" "get32 24 bs = word_of_int rate"
    "get32 28 bs = word_of_int rate * word_of_int chans * word_of_int bps" "get32 40 bs = n"
    "take 4 bs = ascii ''RIFF''" "take 8 (drop 8 bs) = ascii ''WAVEfmt ''" "take 4 (drop 36 bs) = ascii ''data''"
proof -
  have nth: "bs ! i = wav_bytes rate chans bps wav_tag n ! i" if "i < 44" for i
    using that by (simp add: bs_def nth_append)
  note bytes = bs_def wav_bytes_def le16_def le32_def ascii_def nth_append
  show "get16 20 bs = wav_tag" "get16 22 bs = word_of_int chans"
    "get16 32 bs = word_of_int (chans * bps)" "get16 34 bs = word_of_int (bps * 8)"
    unfolding get16_def by (simp_all add: bytes join16)
  show "get32 4 bs = 36 + n" "get32 16 bs = 16" "get32 24 bs = word_of_int rate"
    "get32 28 bs = word_of_int rate * word_of_int chans * word_of_int bps" "get32 40 bs = n"
    unfolding get32_def by (simp_all add: bytes join32)
  show "take 4 bs = ascii ''RIFF''" "take 8 (drop 8 bs) = ascii ''WAVEfmt ''" "take 4 (drop 36 bs) = ascii ''data''"
    by (simp_all add: bs_def wav_bytes_def le16_def le32_def ascii_def)
qed

lemma parse_wav_bytes:
  assumes "length data = unat n" and "36 + unat n < 2 ^ 32"
  shows "parse_wav (wav_bytes rate chans bps wav_tag n @ data) =
    Some \<lparr>wi_tag = wav_tag, wi_channels = word_of_int chans, wi_rate = word_of_int rate,
          wi_byte_rate = word_of_int rate * word_of_int chans * word_of_int bps,
          wi_align = word_of_int (chans * bps), wi_bits = word_of_int (bps * 8), wi_data = data\<rparr>"
proof -
  have "unat (36 + n) = 36 + unat n" using assms(2) by (simp add: unat_word_ariths)
  then show ?thesis
    using assms(1) wav_bytes_fields [of _ rate chans bps wav_tag n data, OF refl] by (simp add: parse_wav_def)
qed

section \<open>What a recording leaves in its file\<close>

text \<open>The bytes before the data, and what one buffer adds.\<close>

definition file_header :: "record_config \<Rightarrow> u32 \<Rightarrow> byte list" where
  "file_header c n =
     (if r_format c = FORMAT_WAV then wav_bytes (r_rate c) (r_channels c) (r_bytes c) (r_tag c) n
      else if r_format c = FORMAT_Y4M
      then ascii (''YUV4MPEG2 W'' @ c_signed (r_width c) @ '' H'' @ c_signed (r_height c) @ '' F'' @
                  c_signed (r_fps c) @ '':1 Ip A0:0 C420jpeg'') @ [10]
      else [])"

definition frame_bytes :: "record_format \<Rightarrow> byte list \<Rightarrow> byte list" where
  "frame_bytes fmt buf = (if fmt = FORMAT_Y4M then ascii ''FRAME'' @ [10] @ buf else buf)"

lemma frame_plain: "fmt \<noteq> FORMAT_Y4M \<Longrightarrow> frame_bytes fmt = (\<lambda>buf. buf)"
  by (rule ext) (simp add: frame_bytes_def)

definition at_end :: "out_file \<Rightarrow> bool" where
  "at_end f \<longleftrightarrow> f_limit f = None \<and> f_pos f = length (f_bytes f)"

lemma at_end_fput:
  assumes "at_end f"
  shows "at_end (fput bs f)" "f_bytes (fput bs f) = f_bytes f @ bs" "file_ok f"
  using assms by (simp_all add: at_end_def fput_end file_ok_def)

lemma start_file:
  "at_end (rc_file (record_start_file c None))" "f_bytes (rc_file (record_start_file c None)) = file_header c 0"
  "rc_format (record_start_file c None) = r_format c" "bytes_written (record_start_file c None) = 0"
proof -
  let ?f = "\<lparr>f_bytes = [], f_pos = 0, f_limit = None\<rparr>"
  have e: "at_end ?f" by (simp add: at_end_def)
  note p = at_end_fput [OF e]
  show "at_end (rc_file (record_start_file c None))" "f_bytes (rc_file (record_start_file c None)) = file_header c 0"
    "rc_format (record_start_file c None) = r_format c" "bytes_written (record_start_file c None) = 0"
    using e p by (simp_all add: record_start_file_def record_header_def file_header_def write_wav_header_eq
        write_y4m_header_def Let_def del: append.simps)
qed

lemma on_data_end:
  assumes "at_end (rc_file ctx)"
  shows "at_end (rc_file (on_data buf ctx))"
    "f_bytes (rc_file (on_data buf ctx)) = f_bytes (rc_file ctx) @ frame_bytes (rc_format ctx) buf"
    "rc_format (on_data buf ctx) = rc_format ctx"
    "bytes_written (on_data buf ctx) = bytes_written ctx + of_nat (length buf)"
proof -
  define f1 where "f1 = (if rc_format ctx = FORMAT_Y4M then fput (ascii ''FRAME'' @ [10]) (rc_file ctx) else rc_file ctx)"
  have f1: "at_end f1" "f_bytes f1 @ buf = f_bytes (rc_file ctx) @ frame_bytes (rc_format ctx) buf"
    using assms at_end_fput [OF assms] by (simp_all add: f1_def frame_bytes_def)
  then have "c_fwrite buf f1 = (length buf, fput buf f1)" by (simp add: fwrite_free at_end_def)
  then have "on_data buf ctx = ctx\<lparr>rc_file := fput buf f1, bytes_written := bytes_written ctx + of_nat (length buf)\<rparr>"
    by (simp add: on_data_def f1_def [symmetric])
  then show "at_end (rc_file (on_data buf ctx))"
    "f_bytes (rc_file (on_data buf ctx)) = f_bytes (rc_file ctx) @ frame_bytes (rc_format ctx) buf"
    "rc_format (on_data buf ctx) = rc_format ctx"
    "bytes_written (on_data buf ctx) = bytes_written ctx + of_nat (length buf)"
    using at_end_fput(1,2) [OF f1(1), of buf] f1(2) by simp_all
qed

lemma fold_on_data:
  "at_end (rc_file ctx) \<Longrightarrow>
     at_end (rc_file (fold on_data bufs ctx)) \<and>
     f_bytes (rc_file (fold on_data bufs ctx)) = f_bytes (rc_file ctx) @ concat (map (frame_bytes (rc_format ctx)) bufs) \<and>
     rc_format (fold on_data bufs ctx) = rc_format ctx \<and>
     bytes_written (fold on_data bufs ctx) = bytes_written ctx + of_nat (length (concat bufs))"
proof (induction bufs arbitrary: ctx)
  case (Cons buf bufs)
  note one = on_data_end [OF Cons.prems, of buf]
  show ?case using Cons.IH [OF one(1)] one by (simp add: algebra_simps)
qed simp

text \<open>A header written over the placeholder has its length.\<close>

lemma patch_header:
  assumes "at_end f" and "f_bytes f = wav_bytes rate chans bps wav_tag n @ data"
  shows "f_bytes (write_wav_header rate chans bps wav_tag m (c_rewind f)) = wav_bytes rate chans bps wav_tag m @ data"
proof -
  have "file_ok (c_rewind f)" using assms(1) by (simp add: file_ok_def at_end_def c_rewind_def)
  then show ?thesis using assms
    by (simp add: write_wav_header_eq fput_def c_fwrite_def c_rewind_def file_room_def at_end_def Let_def)
qed

text \<open>A recording that ends well, its configuration spelled out.\<close>

lemma record_success:
  assumes "record_main env opts g = (0, Some f, g')"
  obtains c0 c s g1 where "read_options record_option_step opts record_defaults = Inr c0" "record_check c0 = Inr c"
    "pwf_stream_create (su_connect (re_stream env)) (su_mem (re_stream env))
       (if r_type c = RECORD_TYPE_VIDEO then PWF_DATA_VIDEO else PWF_DATA_AUDIO) True g = (Some s, g1)"
    "fst (record_configure c (re_stream env) (Some s))"
    "f = (let ctx = fold on_data (re_buffers env) (record_start_file c (re_limit env))
          in if r_format c = FORMAT_WAV then record_header c (bytes_written ctx) (c_rewind (rc_file ctx)) else rc_file ctx)"
proof -
  obtain c0 where c0: "read_options record_option_step opts record_defaults = Inr c0"
    using assms by (cases "read_options record_option_step opts record_defaults") (auto simp: record_main_def)
  obtain c where c: "record_check c0 = Inr c"
    using assms c0 by (cases "record_check c0") (auto simp: record_main_def)
  let ?ty = "if r_type c = RECORD_TYPE_VIDEO then PWF_DATA_VIDEO else PWF_DATA_AUDIO"
  obtain h g1 where cr: "pwf_stream_create (su_connect (re_stream env)) (su_mem (re_stream env)) ?ty True g = (h, g1)" by fastforce
  obtain s where s: "h = Some s"
    using assms c0 c cr by (cases h) (auto simp: record_main_def Let_def split: if_splits)
  obtain b h1 where cf: "record_configure c (re_stream env) (Some s) = (b, h1)" by fastforce
  have b using assms c0 c cr s cf by (cases b) (auto simp: record_main_def Let_def split: if_splits)
  moreover have "f = (let ctx = fold on_data (re_buffers env) (record_start_file c (re_limit env))
      in if r_format c = FORMAT_WAV then record_header c (bytes_written ctx) (c_rewind (rc_file ctx)) else rc_file ctx)"
    using assms c0 c cr s cf \<open>b\<close> by (auto simp: record_main_def Let_def split: if_splits)
  ultimately show thesis using that [OF c0 c] cr s cf by simp
qed

lemma record_contents:
  assumes run: "record_main env opts g = (0, Some f, g')" and free: "re_limit env = None"
  shows "\<exists>c0 c. read_options record_option_step opts record_defaults = Inr c0 \<and> record_check c0 = Inr c \<and>
    f_bytes f = file_header c (of_nat (length (concat (re_buffers env)))) @
      concat (map (frame_bytes (r_format c)) (re_buffers env))"
proof -
  obtain c0 c s g1 where p: "read_options record_option_step opts record_defaults = Inr c0" "record_check c0 = Inr c"
    "f = (let ctx = fold on_data (re_buffers env) (record_start_file c (re_limit env))
          in if r_format c = FORMAT_WAV then record_header c (bytes_written ctx) (c_rewind (rc_file ctx)) else rc_file ctx)"
    by (rule record_success [OF run]) blast
  define ctx where "ctx = fold on_data (re_buffers env) (record_start_file c None)"
  have e: "at_end (rc_file ctx)" "bytes_written ctx = of_nat (length (concat (re_buffers env)))"
    "f_bytes (rc_file ctx) = file_header c 0 @ concat (map (frame_bytes (r_format c)) (re_buffers env))"
    using fold_on_data [OF start_file(1), of "re_buffers env" c] by (simp_all add: ctx_def start_file)
  have f: "f = (if r_format c = FORMAT_WAV then record_header c (bytes_written ctx) (c_rewind (rc_file ctx)) else rc_file ctx)"
    using p(3) free by (simp add: Let_def ctx_def)
  have "f_bytes f = file_header c (of_nat (length (concat (re_buffers env)))) @
      concat (map (frame_bytes (r_format c)) (re_buffers env))"
  proof (cases "r_format c = FORMAT_WAV")
    case True
    have "f_bytes (rc_file ctx) = wav_bytes (r_rate c) (r_channels c) (r_bytes c) (r_tag c) 0 @
        concat (map (frame_bytes (r_format c)) (re_buffers env))" using e(3) True by (simp add: file_header_def)
    from patch_header [OF e(1) this] show ?thesis using True by (simp add: f record_header_def e(2) file_header_def)
  next
    case False
    then show ?thesis using e(3) by (auto simp: f file_header_def)
  qed
  then show ?thesis using p by blast
qed

section \<open>Options that agree with each other\<close>

text \<open>The sample format, its width in bytes and the WAV tag are those of one row of the table.\<close>

definition record_bits_ok :: "record_config \<Rightarrow> bool" where
  "record_bits_ok c \<longleftrightarrow>
     (\<exists>row\<in>set record_bit_depths. r_bytes c = fst (snd (snd row)) \<and> r_tag c = snd (snd (snd row)) \<and>
        (case r_audio_format c of None \<Rightarrow> fst (snd row) = ''S16'' | Some name \<Rightarrow> name = fst (snd row)))"

lemma record_bits_update [simp]:
  "record_bits_ok (c\<lparr>r_output := o'\<rparr>) = record_bits_ok c" "record_bits_ok (c\<lparr>r_device := d\<rparr>) = record_bits_ok c"
  "record_bits_ok (c\<lparr>r_type := t\<rparr>) = record_bits_ok c" "record_bits_ok (c\<lparr>r_format := f\<rparr>) = record_bits_ok c"
  "record_bits_ok (c\<lparr>r_duration := n\<rparr>) = record_bits_ok c" "record_bits_ok (c\<lparr>r_rate := n\<rparr>) = record_bits_ok c"
  "record_bits_ok (c\<lparr>r_channels := n\<rparr>) = record_bits_ok c" "record_bits_ok (c\<lparr>r_width := n\<rparr>) = record_bits_ok c"
  "record_bits_ok (c\<lparr>r_height := n\<rparr>) = record_bits_ok c" "record_bits_ok (c\<lparr>r_fps := n\<rparr>) = record_bits_ok c"
  "record_bits_ok (c\<lparr>r_pixel := s\<rparr>) = record_bits_ok c"
  by (simp_all add: record_bits_ok_def)

lemma record_option_bits:
  assumes "record_bits_ok c" and "record_option_step opt c = Inr c'"
  shows "record_bits_ok c'"
proof (cases opt)
  case (Rec_bits a)
  then obtain row where row: "find (\<lambda>e. fst e = a) record_bit_depths = Some row"
    using assms(2) by (auto split: option.splits)
  then have "row \<in> set record_bit_depths" by (auto simp: find_Some_iff)
  moreover have "c' = c\<lparr>r_audio_format := Some (fst (snd row)), r_bytes := fst (snd (snd row)), r_tag := snd (snd (snd row))\<rparr>"
    using assms(2) Rec_bits row by (cases row) simp
  ultimately show ?thesis unfolding record_bits_ok_def by (intro bexI [of _ row]) simp_all
qed (use assms in \<open>auto split: if_splits\<close>)

lemma record_options_bits:
  "read_options record_option_step opts record_defaults = Inr c \<Longrightarrow> record_bits_ok c"
proof (erule read_options_inv [where P = record_bits_ok, rotated 2])
  show "record_bits_ok record_defaults"
    by (simp add: record_bits_ok_def record_defaults_def record_bit_depths_def)
qed (rule record_option_bits)

lemma record_check_format:
  assumes "record_check c0 = Inr c"
  shows "c = c0\<lparr>r_format := r_format c\<rparr>"
    "r_type c = (if r_format c = FORMAT_WAV \<or> r_format c = FORMAT_PCM then RECORD_TYPE_AUDIO else RECORD_TYPE_VIDEO)"
    "r_format c \<noteq> FORMAT_UNSET"
    "r_format c = FORMAT_Y4M \<Longrightarrow> r_pixel c = ''I420'' \<and> 0 < r_fps c"
proof -
  define fmt where "fmt = (if r_format c0 = FORMAT_UNSET
      then (if r_type c0 = RECORD_TYPE_VIDEO then FORMAT_RAW else FORMAT_WAV) else r_format c0)"
  have c: "c = c0\<lparr>r_format := fmt\<rparr>"
    and ok: "\<not> (r_type c0 = RECORD_TYPE_AUDIO \<and> (fmt = FORMAT_RAW \<or> fmt = FORMAT_Y4M))"
      "\<not> (r_type c0 = RECORD_TYPE_VIDEO \<and> (fmt = FORMAT_WAV \<or> fmt = FORMAT_PCM))"
      "fmt = FORMAT_Y4M \<Longrightarrow> r_pixel c0 = ''I420'' \<and> 0 < r_fps c0"
    using assms unfolding record_check_def fmt_def [symmetric] Let_def by (simp_all split: if_splits)
  have set: "fmt \<noteq> FORMAT_UNSET" by (simp add: fmt_def)
  show "c = c0\<lparr>r_format := r_format c\<rparr>" "r_format c \<noteq> FORMAT_UNSET"
    "r_format c = FORMAT_Y4M \<Longrightarrow> r_pixel c = ''I420'' \<and> 0 < r_fps c" using c set ok(3) by simp_all
  show "r_type c = (if r_format c = FORMAT_WAV \<or> r_format c = FORMAT_PCM then RECORD_TYPE_AUDIO else RECORD_TYPE_VIDEO)"
    using ok(1,2) set unfolding c by (cases "r_type c0"; cases fmt) simp_all
qed

text \<open>The stream that records has the frame size the header states.\<close>

lemma handle_result: "on_handle err body (Some s) = (r, h) \<longleftrightarrow> body s = (r, the h) \<and> h \<noteq> None"
  by (cases "body s"; cases h) (auto simp: on_handle_def)

lemma set_audio_frame:
  assumes "stream_set_audio_config th env (Some cfg) s = (PWF_OK, t)"
  shows "bytes_per_frame t = pwf_audio_bytes_per_frame (audio_config_format cfg) (channels cfg)"
    "0 < sample_rate cfg" "0 < channels cfg"
  using assms by (auto simp: stream_set_audio_config_def Let_def split: prod.splits bool.splits if_splits)

lemma bit_depth_bytes:
  assumes "row \<in> set record_bit_depths" and "0 < chans"
  shows "pwf_audio_bytes_per_frame (pwf_spa_lookup_audio_format (fst (snd row))) chans = word_of_int (chans * fst (snd (snd row)))"
  using assms
  by (auto simp: record_bit_depths_def pwf_spa_lookup_audio_format_def pwf_audio_sample_formats_def
      pwf_audio_bytes_per_frame_def)

lemma record_audio_frame:
  assumes bits: "record_bits_ok c" and audio: "r_type c = RECORD_TYPE_AUDIO"
    and run: "record_configure c su (Some s) = (True, Some t)"
  shows "bytes_per_frame t = word_of_int (r_channels c * r_bytes c)" "0 < r_rate c" "0 < r_channels c"
proof -
  let ?cfg = "\<lparr>sample_rate = r_rate c, channels = r_channels c, sample_format = r_audio_format c\<rparr>"
  let ?set = "stream_set_audio_config app_thread (su_config su) (Some ?cfg)"
  obtain u where u1: "fst (?set u) = PWF_OK" and t: "t = snd (stream_start app_thread (snd (?set u)))"
    using run audio
    by (auto simp: record_configure_def Let_def pwf_stream_set_audio_config_def pwf_stream_start_def
        pwf_stream_set_error_callback_def pwf_stream_set_target_def handle_result
        split: option.splits prod.splits if_splits)
  obtain v where u: "?set u = (PWF_OK, v)" using u1 by (cases "?set u") simp
  note frame = set_audio_frame [OF u]
  have keep: "bytes_per_frame t = bytes_per_frame v"
    using t u by (simp add: stream_start_def app_not_refused)
  obtain row where row: "row \<in> set record_bit_depths" "r_bytes c = fst (snd (snd row))"
    "case r_audio_format c of None \<Rightarrow> fst (snd row) = ''S16'' | Some name \<Rightarrow> name = fst (snd row)"
    using bits by (auto simp: record_bits_ok_def)
  have "audio_config_format ?cfg = pwf_spa_lookup_audio_format (fst (snd row))"
    using row(3) by (auto simp: audio_config_format_def split: option.splits)
  then show "bytes_per_frame t = word_of_int (r_channels c * r_bytes c)"
    using frame(1) keep bit_depth_bytes [OF row(1), of "r_channels c"] frame(3) row(2) by simp
  show "0 < r_rate c" "0 < r_channels c" using frame by simp_all
qed

section \<open>Every stream is closed\<close>

lemma configure_exists: "record_configure c su (Some s) = (b, h) \<Longrightarrow> h \<noteq> None"
  by (auto simp: record_configure_def Let_def pwf_stream_set_audio_config_def pwf_stream_set_video_config_def
      pwf_stream_set_video_config_ex_def pwf_stream_start_def pwf_stream_set_error_callback_def
      pwf_stream_set_target_def on_handle_def split: option.splits prod.splits if_splits)

lemma record_main_balanced: "g_pw_init_count (snd (snd (record_main env opts g))) = g_pw_init_count g"
proof (cases "read_options record_option_step opts record_defaults")
  case (Inr c0)
  show ?thesis
  proof (cases "record_check c0")
    case c: (Inr c)
    let ?su = "re_stream env" and ?ty = "if r_type c = RECORD_TYPE_VIDEO then PWF_DATA_VIDEO else PWF_DATA_AUDIO"
    obtain h g1 where cr: "pwf_stream_create (su_connect ?su) (su_mem ?su) ?ty True g = (h, g1)" by fastforce
    note count = stream_create_count [OF cr]
    show ?thesis
    proof (cases h)
      case None
      then show ?thesis using Inr c cr count by (simp add: record_main_def Let_def)
    next
      case (Some s)
      obtain b h1 where cf: "record_configure c ?su (Some s) = (b, h1)" by fastforce
      have h1: "h1 \<noteq> None" by (rule configure_exists [OF cf])
      have "(snd (pwf_stream_stop app_thread ([], []) False (run_stream ?su h1)) = None) = (h1 = None)"
        using on_handle_exists run_stream_exists unfolding pwf_stream_stop_def by (metis prod.collapse)
      then show ?thesis using Inr c cr count Some cf h1
        by (cases b) (auto simp: record_main_def Let_def stream_destroy_app deinit_count split: option.split)
    qed
  qed (use Inr in \<open>simp add: record_main_def\<close>)
qed (simp add: record_main_def)

text \<open>The streams a loopback has open, counted.\<close>

definition opened :: "pwf_stream option \<Rightarrow> int" where
  "opened h = (if h = None then 0 else 1)"

definition open_streams :: "loopback_session \<Rightarrow> int" where
  "open_streams s = opened (ls_capture s) + opened (ls_playback s) + sum_list (map opened (ls_videos s))"

lemma on_handle_opened: "opened (snd (on_handle err body h)) = opened h"
  using on_handle_exists [of err body h] by (cases "on_handle err body h") (simp add: opened_def)

lemma calls_opened [simp]:
  "opened (snd (pwf_stream_set_error_callback b h)) = opened h"
  "opened (snd (pwf_stream_set_target d t h)) = opened h"
  "opened (snd (pwf_stream_set_audio_config th su cfg h)) = opened h"
  "opened (snd (pwf_stream_set_video_config_ex th su vcfg opts h)) = opened h"
  "opened (snd (pwf_stream_set_video_config th su vcfg h)) = opened h"
  "opened (snd (pwf_stream_start th h)) = opened h"
  "opened (snd (pwf_stream_stop th sched drain h)) = opened h"
  "opened (run_stream u h) = opened h"
  unfolding pwf_stream_set_error_callback_def pwf_stream_set_target_def pwf_stream_set_audio_config_def
    pwf_stream_set_video_config_def pwf_stream_set_video_config_ex_def pwf_stream_start_def pwf_stream_stop_def
  by (simp_all add: on_handle_opened) (simp add: opened_def)

lemma result_opened:
  "pwf_stream_set_target d t h = (r, h') \<Longrightarrow> opened h' = opened h"
  "pwf_stream_set_audio_config th su cfg h = (r, h') \<Longrightarrow> opened h' = opened h"
  "pwf_stream_set_video_config_ex th su vcfg opts h = (r, h') \<Longrightarrow> opened h' = opened h"
  "pwf_stream_set_video_config th su vcfg h = (r, h') \<Longrightarrow> opened h' = opened h"
  "pwf_stream_start th h = (r, h') \<Longrightarrow> opened h' = opened h"
  by (metis calls_opened snd_conv)+

lemma create_opened:
  "pwf_stream_create ce m ty cb g = (h, g') \<Longrightarrow> g_pw_init_count g' = g_pw_init_count g + opened h"
  "pwf_stream_create_playback ce m cb g = (h, g') \<Longrightarrow> g_pw_init_count g' = g_pw_init_count g + opened h"
  using stream_create_count [of ce m ty cb g h g'] stream_create_playback_count [of ce m cb g h g']
  by (auto simp: opened_def split: option.splits)

lemma open_capture_count:
  assumes "loopback_open_capture c su g = (ok, h, g')"
  shows "g_pw_init_count g' = g_pw_init_count g + opened h"
proof -
  obtain h0 g1 where cr: "pwf_stream_create (su_connect su) (su_mem su) PWF_DATA_AUDIO True g = (h0, g1)" by fastforce
  have "g' = g1 \<and> opened h = opened h0"
    using assms cr by (auto simp: loopback_open_capture_def Let_def dest!: result_opened split: option.splits prod.splits if_splits)
  then show ?thesis using create_opened(1) [OF cr] by simp
qed

lemma open_playback_count:
  assumes "loopback_open_playback c su g = (ok, h, g')"
  shows "g_pw_init_count g' = g_pw_init_count g + opened h"
proof -
  obtain h0 g1 where cr: "pwf_stream_create_playback (su_connect su) (su_mem su) True g = (h0, g1)" by fastforce
  have "g' = g1 \<and> opened h = opened h0"
    using assms cr by (auto simp: loopback_open_playback_def Let_def dest!: result_opened split: option.splits prod.splits if_splits)
  then show ?thesis using create_opened(2) [OF cr] by simp
qed

lemma open_video_count:
  assumes "loopback_open_video c su g = (ok, h, g')"
  shows "g_pw_init_count g' = g_pw_init_count g + opened h"
proof -
  obtain h0 g1 where cr: "pwf_stream_create (su_connect su) (su_mem su) PWF_DATA_VIDEO True g = (h0, g1)" by fastforce
  have "g' = g1 \<and> opened h = opened h0"
    using assms cr by (auto simp: loopback_open_video_def Let_def dest!: result_opened split: option.splits prod.splits if_splits)
  then show ?thesis using create_opened(1) [OF cr] by simp
qed

definition balanced :: "int \<Rightarrow> loopback_session \<Rightarrow> bool" where
  "balanced n s \<longleftrightarrow> g_pw_init_count (ls_global s) = n + open_streams s"

lemma loopback_audio_balanced:
  assumes "balanced n s" and none: "ls_capture s = None" "ls_playback s = None"
  shows "balanced n (loopback_audio env c s)"
proof (cases "ring_init (le_ring_ok env) (ring_size c)")
  case None
  then show ?thesis using assms by (simp add: loopback_audio_def balanced_def open_streams_def)
next
  case (Some r)
  obtain ok1 cap g1 where o1: "loopback_open_capture c (le_capture env) (ls_global s) = (ok1, cap, g1)" by (metis prod_cases3)
  obtain ok2 play g2 where o2: "loopback_open_playback c (le_playback env) g1 = (ok2, play, g2)" by (metis prod_cases3)
  obtain r1 cap1 where s1: "pwf_stream_start app_thread cap = (r1, cap1)" by fastforce
  obtain r2 play1 where s2: "pwf_stream_start app_thread play = (r2, play1)" by fastforce
  have "opened cap1 = opened cap" "opened play1 = opened play" "opened None = 0"
    using result_opened(5) [OF s1] result_opened(5) [OF s2] by (simp_all add: opened_def)
  then show ?thesis
    using assms Some o1 o2 s1 s2 open_capture_count [OF o1] open_playback_count [OF o2]
    by (simp add: loopback_audio_def balanced_def open_streams_def Let_def)
qed

lemma loopback_videos_balanced: "balanced n s \<Longrightarrow> balanced n (loopback_videos env c is s)"
proof (induction "is" arbitrary: s)
  case (Cons i "is")
  obtain ok h g where o: "loopback_open_video c (le_video env i) (ls_global s) = (ok, h, g)" by (metis prod_cases3)
  have "balanced n (s\<lparr>ls_global := g, ls_videos := ls_videos s @ (if h = None then [] else [h])\<rparr>)"
    using Cons.prems open_video_count [OF o] by (simp add: balanced_def open_streams_def opened_def)
  then show ?case using o Cons.IH by (simp add: Let_def balanced_def open_streams_def)
qed simp

lemma loopback_run_balanced: "balanced n (loopback_run env s) = balanced n s"
proof -
  have "map opened (map (\<lambda>(i, h). run_stream (le_video env i) h) (enumerate k hs)) = map opened hs" for k hs
    by (induction hs arbitrary: k) simp_all
  then show ?thesis by (simp add: balanced_def open_streams_def loopback_run_def)
qed

lemma loopback_open_all_balanced: "balanced (g_pw_init_count g) (loopback_open_all env c g)"
proof -
  let ?s0 = "\<lparr>ls_status = 0, ls_ring = None, ls_capture = None, ls_playback = None, ls_videos = [], ls_global = g\<rparr>"
  define s1 where "s1 = (if l_audio c then loopback_audio env c ?s0 else ?s0)"
  have "balanced (g_pw_init_count g) ?s0" by (simp add: balanced_def open_streams_def opened_def)
  then have s1: "balanced (g_pw_init_count g) s1" using loopback_audio_balanced by (simp add: s1_def)
  define s2 where "s2 = (if l_streams c > 0 then loopback_video env c s1 else s1)"
  have "balanced n (s1\<lparr>ls_status := 1\<rparr>) = balanced n s1" for n by (simp add: balanced_def open_streams_def)
  then have s2: "balanced (g_pw_init_count g) s2"
    using s1 loopback_videos_balanced by (simp add: s2_def loopback_video_def)
  show ?thesis using s1 s2 loopback_run_balanced
    unfolding loopback_open_all_def Let_def s1_def [symmetric] s2_def [symmetric] by simp
qed

lemma loopback_close_count: "g_pw_init_count (loopback_close su h g) = g_pw_init_count g - opened h"
proof (cases h)
  case (Some s)
  have "snd (pwf_stream_stop app_thread ([], []) False h) \<noteq> None"
    using calls_opened(7) [of app_thread "([], [])" False h] Some by (simp add: opened_def split: if_splits)
  then show ?thesis using Some by (auto simp: loopback_close_def stream_destroy_app deinit_count opened_def)
qed (simp add: loopback_close_def opened_def)

lemma loopback_close_all:
  "g_pw_init_count (fold (\<lambda>(i, h). loopback_close (le_video env i) h) (enumerate k hs) g) =
     g_pw_init_count g - sum_list (map opened hs)"
  by (induction hs arbitrary: k g) (simp_all add: loopback_close_count)

lemma loopback_main_balanced: "g_pw_init_count (fst (snd (loopback_main env opts g))) = g_pw_init_count g"
proof (cases "read_options loopback_option_step opts loopback_defaults")
  case (Inr c)
  show ?thesis using Inr loopback_open_all_balanced [of g env c]
    by (simp add: loopback_main_def loopback_cleanup_def Let_def loopback_close_count loopback_close_all balanced_def
        open_streams_def)
qed (simp add: loopback_main_def)

section \<open>The ring of a running loopback\<close>

lemma ring_init_ok: "ring_init ok cap = Some r \<Longrightarrow> 0 < cap \<Longrightarrow> ring_ok r \<and> ring_bytes r = []"
  by (auto simp: ring_init_def ring_ok_def ring_bytes_def split: if_splits)

definition loopback_bits_ok :: "loopback_config \<Rightarrow> bool" where
  "loopback_bits_ok c \<longleftrightarrow> l_bytes c \<in> {2, 3, 4} \<and> l_rate c < 2147483648 \<and> l_channels c < 2147483648"

lemma c_atoi_bound [simp]: "c_atoi a < 2147483648"
  using sint_lt [of "word_of_int (c_strtol a) :: 32 word"] by (simp add: c_atoi_def)

lemma loopback_option_bits:
  assumes "loopback_bits_ok c" and "loopback_option_step opt c = Inr c'"
  shows "loopback_bits_ok c'"
proof (cases opt)
  case (Loop_bits a)
  then obtain row where row: "find (\<lambda>e. fst e = a) loopback_bit_depths = Some row"
    using assms(2) by (auto split: option.splits)
  then have "row \<in> set loopback_bit_depths" by (auto simp: find_Some_iff)
  then have "snd (snd row) \<in> {2, 3, 4}" by (auto simp: loopback_bit_depths_def)
  then show ?thesis using assms Loop_bits row by (cases row) (auto simp: loopback_bits_ok_def)
qed (use assms in \<open>auto simp: loopback_bits_ok_def split: if_splits\<close>)

lemma loopback_options_bits:
  "read_options loopback_option_step opts loopback_defaults = Inr c \<Longrightarrow> loopback_bits_ok c"
proof (erule read_options_inv [where P = loopback_bits_ok, rotated 2])
  show "loopback_bits_ok loopback_defaults" by (simp add: loopback_bits_ok_def loopback_defaults_def)
qed (rule loopback_option_bits)

lemma unat_word_of_int: "0 \<le> x \<Longrightarrow> x < 2 ^ 64 \<Longrightarrow> unat (word_of_int x :: u64) = nat x"
  by (simp add: unat_eq_nat_uint uint_word_of_int)

lemma ring_size_exact:
  assumes "loopback_bits_ok c" and "0 < l_rate c" and "0 < l_channels c"
  shows "unat (ring_size c) = nat (l_rate c * l_channels c * l_bytes c)" "0 < ring_size c"
proof -
  have b: "0 < l_bytes c" "l_bytes c \<le> 4" "l_rate c \<le> 2 ^ 31 - 1" "l_channels c \<le> 2 ^ 31 - 1"
    using assms(1) by (auto simp: loopback_bits_ok_def)
  have "l_rate c * l_channels c \<le> (2 ^ 31 - 1) * (2 ^ 31 - 1)" by (rule mult_mono) (use b assms in simp_all)
  then have "l_rate c * l_channels c * l_bytes c \<le> (2 ^ 31 - 1) * (2 ^ 31 - 1) * 4"
    by (rule mult_mono) (use b assms in simp_all)
  moreover have "0 < l_rate c * l_channels c * l_bytes c" using assms b by simp
  ultimately have bound: "0 < l_rate c * l_channels c * l_bytes c" "l_rate c * l_channels c * l_bytes c < 2 ^ 64" by simp_all
  have "ring_size c = word_of_int (l_rate c * l_channels c * l_bytes c)" by (simp add: ring_size_def)
  then show n: "unat (ring_size c) = nat (l_rate c * l_channels c * l_bytes c)"
    using unat_word_of_int [of "l_rate c * l_channels c * l_bytes c"] bound by (simp only: less_imp_le)
  show "0 < ring_size c" using bound(1) unfolding word_less_nat_alt n by simp
qed

lemma handle_audio_config:
  assumes "pwf_stream_set_audio_config th ce (Some cfg) h = (PWF_OK, h')"
  shows "0 < sample_rate cfg" "0 < channels cfg"
proof -
  obtain s where "h = Some s" using assms by (cases h) (auto simp: pwf_stream_set_audio_config_def)
  then have "stream_set_audio_config th ce (Some cfg) s = (PWF_OK, the h')"
    using assms by (cases "stream_set_audio_config th ce (Some cfg) s") (auto simp: pwf_stream_set_audio_config_def)
  from set_audio_frame [OF this] show "0 < sample_rate cfg" "0 < channels cfg" by simp_all
qed

lemma open_capture_format:
  assumes "loopback_open_capture c su g = (True, h, g')"
  shows "0 < l_rate c" "0 < l_channels c"
proof -
  obtain u v where "pwf_stream_set_audio_config app_thread (su_config su) (Some (loopback_audio_config c)) u = (PWF_OK, v)"
    using assms by (auto simp: loopback_open_capture_def Let_def split: option.splits prod.splits if_splits)
  from handle_audio_config [OF this] show "0 < l_rate c" "0 < l_channels c" by (simp_all add: loopback_audio_config_def)
qed

lemma loopback_ring_usable:
  assumes opts: "read_options loopback_option_step opts loopback_defaults = Inr c"
    and run: "loopback_audio env c s = t" and ok: "ls_status t = 0"
  shows "\<exists>r. ls_ring t = Some r \<and> ring_ok r \<and> ring_bytes r = [] \<and>
    unat (ring_capacity r) = nat (l_rate c * l_channels c * l_bytes c)"
proof -
  obtain r where r: "ring_init (le_ring_ok env) (ring_size c) = Some r"
    using run ok by (cases "ring_init (le_ring_ok env) (ring_size c)") (auto simp: loopback_audio_def)
  obtain ok1 cap g1 where o1: "loopback_open_capture c (le_capture env) (ls_global s) = (ok1, cap, g1)" by (metis prod_cases3)
  have ok1 using run ok r o1 by (auto simp: loopback_audio_def Let_def split: if_splits)
  note fmt = open_capture_format [OF o1 [unfolded eqTrueI [OF \<open>ok1\<close>]]]
  note size = ring_size_exact [OF loopback_options_bits [OF opts] fmt]
  have cap: "ring_capacity r = ring_size c" using r by (auto simp: ring_init_def split: if_splits)
  have "ls_ring t = Some r" using run r o1 \<open>ok1\<close>
    by (auto simp: loopback_audio_def Let_def split: prod.splits if_splits)
  then show ?thesis using ring_init_ok [OF r size(2)] size(1) cap by simp
qed

end
