(* ===== verification/Pwf_Util_Properties.thy ===== *)
theory Pwf_Util_Properties
  imports Pwf_Util_Facts
begin

text \<open>
  Properties of the two programs and of the ring between a loopback's threads.
\<close>

section \<open>The ring\<close>

text \<open>C8: safety. The ring of a loopback loses and reorders nothing: however the steps of the capture
  and the playback thread interleave, the bytes the reads have returned, and those a read under way
  has copied so far, are the front of the bytes the writes have accepted; never more than the
  capacity is in between; and between two writes every byte offered was either accepted or counted
  as dropped. (Up to \<open>2 ^ 64\<close> bytes offered, where the positions would wrap.)\<close>

theorem ring_fifo:
  assumes "ring_init ok cap = Some r" and "0 < cap"
    and "ring_step\<^sup>*\<^sup>* (ring_start r) s" and "offered s < 2 ^ 64"
  shows "prefix (delivered s) (accepted s) \<and>
    (\<forall>p n dst. reader_at s = R_copying p n dst \<longrightarrow> prefix (delivered s @ dst) (accepted s)) \<and>
    length (accepted s) \<le> length (delivered s) + unat cap \<and>
    (writer_at s = W_idle \<longrightarrow> offered s = length (accepted s) + unat (dropped (ring s)))"
proof -
  have i: "ring_inv s" by (rule ring_steps_inv [OF assms(3,4) ring_start_inv [OF assms(1,2)]])
  have cap: "ring_cap s = unat cap"
    using ring_steps_capacity [OF assms(3)] assms(1) by (auto simp: ring_cap_def ring_start_def ring_init_def split: if_splits)
  have "prefix (delivered s) (accepted s)" using i by (metis ring_inv_def take_is_prefix)
  moreover have "prefix (delivered s @ dst) (accepted s)" if "reader_at s = R_copying p n dst" for p n dst
  proof -
    have "dst = take (length dst) (drop (length (delivered s)) (accepted s))"
      "delivered s = take (length (delivered s)) (accepted s)"
      using i that by (simp_all add: ring_inv_def reader_ok_def)
    then have "delivered s @ dst = take (length (delivered s) + length dst) (accepted s)" by (metis take_add)
    then show ?thesis by (metis take_is_prefix)
  qed
  ultimately show ?thesis using i cap by (auto simp: ring_inv_def writer_ok_def)
qed

text \<open>Two of three bytes fit, and one of them has been read.\<close>

definition two_ring :: loopback_ring where
  "two_ring = \<lparr>ring_data = [0, 0], ring_capacity = 2, write_pos = 0, read_pos = 0, dropped = 0\<rparr>"

lemma two_ring_run:
  "ring_step\<^sup>*\<^sup>* (ring_start two_ring)
     \<lparr>ring = \<lparr>ring_data = [7, 8], ring_capacity = 2, write_pos = 2, read_pos = 1, dropped = 1\<rparr>,
      writer_at = W_idle, reader_at = R_idle, offered = 3, accepted = [7, 8], delivered = [7]\<rparr>"
proof -
  let ?s = "ring_start two_ring"
  let ?r = "two_ring\<lparr>dropped := 1\<rparr>"
  let ?t = "?s\<lparr>ring := ring_write [7, 8, 9] (ring ?s), offered := offered ?s + length [7, 8, 9 :: byte],
      accepted := accepted ?s @ take (unat (2 :: u64)) [7, 8, 9]\<rparr>"
  have begins: "write_begin [7, 8, 9] two_ring = (2, ?r)" by (simp add: write_begin_def two_ring_def)
  have w: "ring_step\<^sup>*\<^sup>* ?s ?t" by (rule ring_write_run [where r = ?r]) (simp_all add: ring_start_def begins)
  have wr: "ring_write [7, 8, 9] two_ring =
      \<lparr>ring_data = [7, 8], ring_capacity = 2, write_pos = 2, read_pos = 0, dropped = 1\<rparr>"
    by (simp add: ring_write_def begins) (simp add: two_ring_def put_byte_def ring_slot_def upt_rec)
  have rd: "ring_read 1 (ring ?t) =
      ([7], \<lparr>ring_data = [7, 8], ring_capacity = 2, write_pos = 2, read_pos = 1, dropped = 1\<rparr>)"
    by (simp add: wr ring_start_def) (simp add: ring_read_def read_begin_def get_byte_def ring_slot_def Let_def)
  have "ring_step\<^sup>*\<^sup>* ?t (?t\<lparr>ring := snd (ring_read 1 (ring ?t)), delivered := delivered ?t @ fst (ring_read 1 (ring ?t))\<rparr>)"
    by (rule ring_read_run) (simp_all add: ring_start_def)
  with w have "ring_step\<^sup>*\<^sup>* ?s (?t\<lparr>ring := snd (ring_read 1 (ring ?t)), delivered := delivered ?t @ fst (ring_read 1 (ring ?t))\<rparr>)"
    by (rule rtranclp_trans)
  then show ?thesis unfolding rd by (simp add: ring_start_def numeral_3_eq_3)
qed

lemma two_ring_init: "ring_init True 2 = Some two_ring"
proof -
  have "unat (2 :: u64) = Suc (Suc 0)" by simp
  then have "replicate (unat (2 :: u64)) (0 :: byte) = [0, 0]" by (simp only: replicate.simps)
  then show ?thesis by (simp only: ring_init_def two_ring_def not_True_eq_False if_False)
qed

theorem ring_fifo_witness:
  "prefix [7] [7, 8 :: byte] \<and> length [7, 8 :: byte] \<le> length [7 :: byte] + unat (2 :: u64) \<and>
   (3 :: nat) = length [7, 8 :: byte] + unat (1 :: u64)"
  using ring_fifo [OF two_ring_init _ two_ring_run] by simp

text \<open>C14: refinement. Called one at a time, the ring's functions are those of a bounded queue: a write
  appends the bytes there is room for, from the front of what it is given; a read returns the oldest
  bytes, as many as asked for or as there are, and removes them; both keep the ring well formed.\<close>

theorem ring_refines_queue:
  assumes "ring_ok r" and "unat (write_pos r) + unat (dropped r) + length src < 2 ^ 64"
  shows "ring_ok (ring_write src r) \<and>
    ring_bytes (ring_write src r) = ring_bytes r @ take (unat (ring_capacity r) - length (ring_bytes r)) src \<and>
    ring_ok (snd (ring_read len r)) \<and> fst (ring_read len r) = take (unat len) (ring_bytes r) \<and>
    ring_bytes (snd (ring_read len r)) = drop (unat len) (ring_bytes r)"
proof -
  obtain bytes r' where rd: "ring_read len r = (bytes, r')" by fastforce
  have room: "unat (write_pos r) + unat (dropped r) < 2 ^ 64" using assms(2) by simp
  show ?thesis using ring_write_queue [OF assms] ring_read_queue [OF assms(1) room rd] rd by simp
qed

theorem ring_refines_queue_witness:
  "ring_bytes (ring_write [7, 8, 9] two_ring) = [7, 8]"
proof -
  have r: "ring_ok two_ring" "ring_bytes two_ring = []" using ring_init_ok [OF two_ring_init] by simp_all
  show ?thesis using ring_refines_queue [of two_ring "[7, 8, 9]" 0] r by (simp add: two_ring_def)
qed

text \<open>The ring of a loopback whose audio started holds exactly one second: its size is the
  product of rate, channels and bytes per sample, computed without overflow for every argument the
  options accept, and it is a well formed empty queue.\<close>

theorem loopback_ring_ready:
  assumes "read_options loopback_option_step opts loopback_defaults = Inr c"
    and "ls_status (loopback_audio env c s) = 0"
  shows "\<exists>r. ls_ring (loopback_audio env c s) = Some r \<and> ring_ok r \<and> ring_bytes r = [] \<and>
    unat (ring_capacity r) = nat (l_rate c * l_channels c * l_bytes c)"
  by (rule loopback_ring_usable [OF assms(1) refl assms(2)])

text \<open>A server that answers at once, and memory that does not run out.\<close>

definition quick_setup :: stream_setup where
  "quick_setup =
     \<lparr>su_connect = \<lparr>env_loop = Some 1, env_loop_start = 0, env_context = True, env_core = True, env_seq = 7,
                     env_wakes = [[Core_done 0 7]], env_late = []\<rparr>,
      su_mem = Some 9, su_dup_ok = True,
      su_config = \<lparr>destroy_events = [], new_pw_stream = Some 5, connect_res = 0, failed_events = []\<rparr>,
      su_run = [], su_end = []\<rparr>"

definition quick_loopback :: loopback_env where
  "quick_loopback = \<lparr>le_ring_ok = True, le_capture = quick_setup, le_playback = quick_setup, le_arrays_ok = True,
     le_video = (\<lambda>_. quick_setup), le_audio_ops = []\<rparr>"

definition empty_session :: loopback_session where
  "empty_session = \<lparr>ls_status = 0, ls_ring = None, ls_capture = None, ls_playback = None, ls_videos = [],
     ls_global = pw_global_start\<rparr>"

lemmas quick_defs = quick_setup_def pwf_stream_create_def pwf_stream_create_playback_def pwf_stream_alloc_def
  pwf_pw_core_connect_def core_wait_def stream_zero_def conn_zero_def pwf_pw_core_on_done_def PW_ID_CORE_def
  pwf_stream_set_error_callback_def pwf_stream_set_audio_config_def stream_set_audio_config_def
  pwf_stream_start_def stream_start_def app_not_refused audio_config_format_def
  pwf_spa_lookup_audio_format_def pwf_audio_sample_formats_def pwf_stream_internal_connect_def Let_def

lemma quick_loopback_starts: "ls_status (loopback_audio quick_loopback loopback_defaults empty_session) = 0"
  by (simp add: loopback_audio_def quick_loopback_def empty_session_def loopback_defaults_def ring_init_def ring_size_def
      loopback_open_capture_def loopback_open_playback_def loopback_audio_config_def quick_defs)

theorem loopback_ring_ready_witness:
  "\<exists>r. ls_ring (loopback_audio quick_loopback loopback_defaults empty_session) = Some r \<and>
     unat (ring_capacity r) = 192000"
  using loopback_ring_ready [of "[]" loopback_defaults quick_loopback empty_session] quick_loopback_starts
  by (auto simp: loopback_defaults_def)

section \<open>Recordings\<close>

text \<open>The recording of the witnesses: three bytes in two buffers, to a WAV file.\<close>

definition quick_record :: record_env where
  "quick_record = \<lparr>re_open = True, re_limit = None, re_stream = quick_setup, re_buffers = [[1, 2], [3]]\<rparr>"

definition quick_config :: record_config where
  "quick_config = record_defaults\<lparr>r_output := Some ''a.wav'', r_format := FORMAT_WAV\<rparr>"

lemma quick_options:
  "read_options record_option_step [Rec_output ''a.wav''] record_defaults = Inr (record_defaults\<lparr>r_output := Some ''a.wav''\<rparr>)"
  "record_check (record_defaults\<lparr>r_output := Some ''a.wav''\<rparr>) = Inr quick_config"
  by (simp_all add: quick_config_def record_check_def record_defaults_def)

lemma quick_created:
  obtains s g where "pwf_stream_create (su_connect quick_setup) (su_mem quick_setup) PWF_DATA_AUDIO True pw_global_start = (Some s, g)"
    "fst (record_configure quick_config quick_setup (Some s))"
proof -
  obtain s g where c: "pwf_stream_create (su_connect quick_setup) (su_mem quick_setup) PWF_DATA_AUDIO True pw_global_start = (Some s, g)"
    and s: "stream_type s = PWF_DATA_AUDIO" "pw_stream s = None"
    by (simp add: quick_defs)
  have "fst (record_configure quick_config quick_setup (Some s))"
    using s by (simp add: record_configure_def quick_config_def record_defaults_def quick_defs split: prod.split)
  with c show thesis by (rule that)
qed

lemma quick_run: "\<exists>f g'. record_main quick_record [Rec_output ''a.wav''] pw_global_start = (0, Some f, g')"
proof -
  obtain s g where c: "pwf_stream_create (su_connect quick_setup) (su_mem quick_setup) PWF_DATA_AUDIO True pw_global_start = (Some s, g)"
    and conf: "fst (record_configure quick_config quick_setup (Some s))" by (rule quick_created)
  obtain h where "record_configure quick_config quick_setup (Some s) = (True, h)"
    using conf by (cases "record_configure quick_config quick_setup (Some s)") simp
  moreover have "r_type quick_config = RECORD_TYPE_AUDIO" by (simp add: quick_config_def record_defaults_def)
  ultimately show ?thesis using c by (simp add: record_main_def quick_options quick_record_def Let_def)
qed



text \<open>C20: round trip. A WAV recording of less than 4 GiB reads back: the header parses, with the tag, the
  number of channels, the rate and the sample width of the options, and the data chunk is what was
  recorded.\<close>

theorem wav_file_reads_back:
  assumes "record_main env opts g = (0, Some f, g')" and "re_limit env = None"
    and "read_options record_option_step opts record_defaults = Inr c0" and "record_check c0 = Inr c"
    and "r_format c = FORMAT_WAV" and "36 + length (concat (re_buffers env)) < 2 ^ 32"
  shows "\<exists>info. parse_wav (f_bytes f) = Some info \<and> wi_data info = concat (re_buffers env) \<and>
    wi_tag info = r_tag c \<and> wi_channels info = word_of_int (r_channels c) \<and>
    wi_rate info = word_of_int (r_rate c) \<and> wi_bits info = word_of_int (r_bytes c * 8)"
proof -
  let ?data = "concat (re_buffers env)"
  have "f_bytes f = wav_bytes (r_rate c) (r_channels c) (r_bytes c) (r_tag c) (of_nat (length ?data)) @ ?data"
    using record_contents [OF assms(1,2)] assms(3-5) by (simp add: file_header_def frame_plain)
  moreover have n: "unat (of_nat (length ?data) :: u32) = length ?data"
    using assms(6) by (simp add: unsigned_of_nat take_bit_nat_eq_self)
  ultimately show ?thesis
    using parse_wav_bytes [of ?data "of_nat (length ?data)" "r_rate c" "r_channels c" "r_bytes c" "r_tag c"] assms(6)
    by simp
qed

theorem wav_file_reads_back_witness:
  "\<exists>f g' info. record_main quick_record [Rec_output ''a.wav''] pw_global_start = (0, Some f, g') \<and>
     parse_wav (f_bytes f) = Some info \<and> wi_data info = [1, 2, 3] \<and> wi_rate info = 48000"
proof -
  obtain f g' where r: "record_main quick_record [Rec_output ''a.wav''] pw_global_start = (0, Some f, g')"
    using quick_run by blast
  have "r_format quick_config = FORMAT_WAV" "re_buffers quick_record = [[1, 2], [3]]" "re_limit quick_record = None"
    "r_rate quick_config = 48000" by (simp_all add: quick_config_def quick_record_def record_defaults_def)
  then show ?thesis using wav_file_reads_back [OF r _ quick_options] r by auto
qed

lemma ucast_word_of_int64: "(ucast (word_of_int k :: u64) :: 'a::len word) = word_of_int k" if "LENGTH('a) \<le> 64"
  using that by (intro bit_word_eqI) (simp add: bit_simps)

text \<open>C40: type. The header a WAV recording starts with describes the stream that records: the block
  alignment in it is the stream's frame size, the byte rate that times the sample rate, and rate and
  channels are positive.\<close>

theorem record_header_frame:
  assumes "read_options record_option_step opts record_defaults = Inr c0" and "record_check c0 = Inr c"
    and "r_format c = FORMAT_WAV" and "record_configure c su (Some s) = (True, Some t)"
  shows "get16 32 (f_bytes (rc_file (record_start_file c None))) = ucast (bytes_per_frame t) \<and>
    get32 28 (f_bytes (rc_file (record_start_file c None))) = word_of_int (r_rate c) * ucast (bytes_per_frame t) \<and>
    0 < r_rate c \<and> 0 < r_channels c"
proof -
  note chk = record_check_format [OF assms(2)]
  have bits: "record_bits_ok c" using record_options_bits [OF assms(1)] by (subst chk(1)) simp
  note frame = record_audio_frame [OF bits _ assms(4)]
  have audio: "r_type c = RECORD_TYPE_AUDIO" using chk(2) assms(3) by simp
  have header: "f_bytes (rc_file (record_start_file c None)) = wav_bytes (r_rate c) (r_channels c) (r_bytes c) (r_tag c) 0"
    using start_file(2) [of c] assms(3) by (simp add: file_header_def)
  show ?thesis
    using wav_bytes_fields(3,8) [of _ "r_rate c" "r_channels c" "r_bytes c" "r_tag c" 0 "[]", OF refl] frame [OF audio]
    by (simp add: header ucast_word_of_int64 del: of_int_mult) (simp add: mult.assoc)
qed

theorem record_header_frame_witness:
  "\<exists>s t. record_configure quick_config quick_setup (Some s) = (True, Some t) \<and>
     get16 32 (f_bytes (rc_file (record_start_file quick_config None))) = ucast (bytes_per_frame t)"
proof -
  obtain s where conf: "fst (record_configure quick_config quick_setup (Some s))" by (rule quick_created)
  obtain b h where r: "record_configure quick_config quick_setup (Some s) = (b, h)" by fastforce
  have b using conf r by simp
  moreover obtain t where "h = Some t" using configure_exists [OF r] by blast
  ultimately have run: "record_configure quick_config quick_setup (Some s) = (True, Some t)" using r by simp
  show ?thesis using record_header_frame [OF quick_options _ run] run by (auto simp: quick_config_def)
qed

section \<open>Both programs\<close>

text \<open>C39: safety. However they end, on a refused option, at a call that fails or after running, both
  programs have destroyed every stream they created: the library's initialisation count is back
  where it was.\<close>

theorem programs_close_streams:
  "g_pw_init_count (snd (snd (record_main env opts g))) = g_pw_init_count g \<and>
   g_pw_init_count (fst (snd (loopback_main lenv lopts g))) = g_pw_init_count g"
  using record_main_balanced loopback_main_balanced by blast

end
