(* ===== verification/Pwf_Examples.thy ===== *)
theory Pwf_Examples
  imports Pwf_Filter_Runs Pwf_Util
begin

text \<open>
  Two programs of \<^verbatim>\<open>examples/\<close> whose callback computes something, the mixer \<^verbatim>\<open>filter_mix.c\<close> and the
  event echo \<^verbatim>\<open>filter_event_port.c\<close>: their callbacks, their \<^verbatim>\<open>main\<close> over the filter model, and what they compute.
\<close>

section \<open>The mixer\<close>

text \<open>One output sample; an absent input is \<open>None\<close>.\<close>

definition mix_sample :: "16 word option \<Rightarrow> 16 word option \<Rightarrow> 16 word" where
  "mix_sample a b =
     (let sum0 = (case a of None \<Rightarrow> (0 :: 32 word) | Some x \<Rightarrow> scast x);
          sum1 = sum0 + (case b of None \<Rightarrow> 0 | Some x \<Rightarrow> scast x);
          sum2 = (if word_sless 32767 sum1 then 32767 else sum1);
          sum3 = (if word_sless sum2 (- 32768) then - 32768 else sum2)
      in scast sum3)"

text \<open>The 16-bit samples behind each pointer.\<close>

type_synonym sample_memory = "data_ptr \<Rightarrow> 16 word list"

primrec mix_loop ::
    "data_ptr option \<Rightarrow> data_ptr option \<Rightarrow> data_ptr \<Rightarrow> nat \<Rightarrow> nat \<Rightarrow> sample_memory \<Rightarrow> sample_memory" where
  "mix_loop a b out i 0 mem = mem"
| "mix_loop a b out i (Suc left) mem =
     mix_loop a b out (Suc i) left
       (mem(out := (mem out)[i := mix_sample (map_option (\<lambda>p. mem p ! i) a) (map_option (\<lambda>p. mem p ! i) b)]))"

text \<open>The number of bytes both present inputs and the output have.\<close>

definition mix_bytes :: "pwf_filter_port_buffer \<Rightarrow> pwf_filter_port_buffer \<Rightarrow> pwf_filter_port_buffer \<Rightarrow> nat" where
  "mix_bytes in0 in1 out =
     (let n0 = pb_capacity out;
          n1 = (if pb_data in0 \<noteq> None \<and> pb_size in0 < n0 then pb_size in0 else n0)
      in if pb_data in1 \<noteq> None \<and> pb_size in1 < n1 then pb_size in1 else n1)"

definition mix_on_process ::
    "sample_memory \<Rightarrow> pwf_filter_port_buffer list \<Rightarrow> sample_memory \<times> pwf_filter_port_buffer list" where
  "mix_on_process mem bufs =
     (if length bufs < 3 then (mem, bufs)
      else
        let in0 = bufs ! 0; in1 = bufs ! 1; out = bufs ! 2
        in case pb_data out of
             None \<Rightarrow> (mem, bufs)
           | Some o_ptr \<Rightarrow>
               if pb_capacity out = 0 \<or> (pb_data in0 = None \<and> pb_data in1 = None) then (mem, bufs)
               else
                 let n_samples = mix_bytes in0 in1 out div 2
                 in (mix_loop (pb_data in0) (pb_data in1) o_ptr 0 n_samples mem,
                     bufs[2 := out\<lparr>pb_size := n_samples * 2\<rparr>]))"

section \<open>The echo\<close>

text \<open>
  The loop over the port's incoming events, from index \<open>i\<close>: each is read and pushed to the output
  port. \<open>pod_size\<close>, \<open>grow\<close> and \<open>copy_ok\<close> are what the outside answers a push.
\<close>

primrec echo_events ::
    "(built_control list \<Rightarrow> nat) \<Rightarrow> (nat \<Rightarrow> grow_answer \<times> bool) \<Rightarrow> pwf_thread \<Rightarrow> nat \<Rightarrow> nat \<Rightarrow> nat \<Rightarrow> nat \<Rightarrow>
     pwf_filter \<Rightarrow> pwf_filter" where
  "echo_events pod_size mem th inp out i 0 f = f"
| "echo_events pod_size mem th inp out i (Suc left) f =
     echo_events pod_size mem th inp out (Suc i) left
       (case pwf_filter_port_get_event (Some inp) i True f of
          (res, ev) \<Rightarrow>
            if res \<noteq> PWF_OK then f
            else snd (pwf_filter_port_push_event pod_size (fst (mem i)) (snd (mem i)) th (Some out) ev f))"

definition event_port_on_process ::
    "(built_control list \<Rightarrow> nat) \<Rightarrow> (nat \<Rightarrow> grow_answer \<times> bool) \<Rightarrow> process_callback" where
  "event_port_on_process pod_size mem th bufs f =
     (if length bufs < 2 then (bufs, f)
      else
        let inp = pb_port (bufs ! 0); out = pb_port (bufs ! 1)
        in (bufs, echo_events pod_size mem th inp out 0 (pwf_filter_port_get_event_count (Some inp) f) f))"

section \<open>The programs\<close>

text \<open>
  What the outside answers over a program's life; \<open>fa_run\<close> is what the loop and the data thread do to the
  filter until the signal comes.
\<close>

record filter_app_env =
  fa_create :: filter_create_env
  fa_port :: "nat \<Rightarrow> add_port_env"
  fa_start :: int
  fa_run :: "filter_op list"
  fa_end :: "filter_event list"

text \<open>What each \<^verbatim>\<open>main\<close> does between creating and starting: whether it got its ports.\<close>

definition mix_setup :: "filter_app_env \<Rightarrow> pwf_filter option \<Rightarrow> bool \<times> pwf_filter option" where
  "mix_setup env h =
     (let h0 = snd (pwf_filter_set_error_callback True h);
          cfg = Some \<lparr>sample_rate = 48000, channels = 2, sample_format = None\<rparr>;
          (in0, h1) = pwf_filter_add_audio_port (fa_port env 0) PWF_FILTER_PORT_INPUT cfg h0;
          (in1, h2) = pwf_filter_add_audio_port (fa_port env 1) PWF_FILTER_PORT_INPUT cfg h1;
          (out, h3) = pwf_filter_add_audio_port (fa_port env 2) PWF_FILTER_PORT_OUTPUT cfg h2
      in (in0 \<noteq> None \<and> in1 \<noteq> None \<and> out \<noteq> None, h3))"

definition event_port_setup :: "filter_app_env \<Rightarrow> pwf_filter option \<Rightarrow> bool \<times> pwf_filter option" where
  "event_port_setup env h =
     (let (inp, h1) = pwf_filter_add_event_port (fa_port env 0) PWF_FILTER_PORT_INPUT h;
          (out, h2) = pwf_filter_add_event_port (fa_port env 1) PWF_FILTER_PORT_OUTPUT h1
      in (inp \<noteq> None \<and> out \<noteq> None, h2))"

text \<open>Up to the start: whether the filter runs, and the handle, \<open>None\<close> when none was created.\<close>

definition filter_app_open ::
    "string \<Rightarrow> (filter_app_env \<Rightarrow> pwf_filter option \<Rightarrow> bool \<times> pwf_filter option) \<Rightarrow> filter_app_env \<Rightarrow> pw_global \<Rightarrow>
     bool \<times> pwf_filter option \<times> pw_global" where
  "filter_app_open name prepare env g =
     (case pwf_filter_create (fa_create env) (Some name) True g of
        (None, _, g1) \<Rightarrow> (False, None, g1)
      | (Some f, _, g1) \<Rightarrow>
          (case prepare env (Some f) of
             (ok, h) \<Rightarrow>
               if \<not> ok then (False, h, g1)
               else case pwf_filter_start app_thread (fa_start env) h of (res, h1) \<Rightarrow> (res = PWF_OK, h1, g1)))"

text \<open>The exit status and the library's global state.\<close>

definition filter_app_main ::
    "string \<Rightarrow> (filter_app_env \<Rightarrow> pwf_filter option \<Rightarrow> bool \<times> pwf_filter option) \<Rightarrow> filter_app_env \<Rightarrow> pw_global \<Rightarrow>
     int \<times> pw_global" where
  "filter_app_main name prepare env g =
     (case filter_app_open name prepare env g of
        (False, h, g1) \<Rightarrow> (1, snd (pwf_filter_destroy app_thread (fa_end env) g1 h))
      | (True, h, g1) \<Rightarrow>
          let h1 = map_option (fold filter_call (fa_run env)) h;
              h2 = snd (pwf_filter_stop app_thread ([], []) False h1)
          in (0, snd (pwf_filter_destroy app_thread (fa_end env) g1 h2)))"

definition mix_main :: "filter_app_env \<Rightarrow> pw_global \<Rightarrow> int \<times> pw_global" where
  "mix_main = filter_app_main ''pwf-filter-mix'' mix_setup"

definition event_port_main :: "filter_app_env \<Rightarrow> pw_global \<Rightarrow> int \<times> pw_global" where
  "event_port_main = filter_app_main ''pwf-filter-event-port'' event_port_setup"

section \<open>Mixing\<close>

lemma sint16_bounds: "- 32768 \<le> sint (w :: 16 word)" "sint (w :: 16 word) < 32768"
  using sint_greater_eq [of w] sint_lt [of w] by simp_all

lemma sint16_abs: "\<bar>sint (w :: 16 word)\<bar> \<le> 32768"
  using sint16_bounds [of w] by (simp add: abs_le_iff)

lemma sint_widened: "sint (scast (w :: 16 word) :: 32 word) = sint w"
  by (rule sint_up_scast) (simp add: is_up)

lemma sint_narrowed:
  assumes "- 32768 \<le> sint (w :: 32 word)" and "sint w < 32768"
  shows "sint (scast w :: 16 word) = sint w"
  using assms by (simp add: signed_scast_eq signed_take_bit_int_eq_self)

definition sample_value :: "16 word option \<Rightarrow> int" where
  "sample_value a = (case a of None \<Rightarrow> 0 | Some x \<Rightarrow> sint x)"

lemma sint_sum32:
  assumes "\<bar>sint (x :: 32 word)\<bar> \<le> 32768" and "\<bar>sint y\<bar> \<le> 32768"
  shows "sint (x + y) = sint x + sint y"
proof -
  have "- (2 ^ 31) \<le> sint x + sint y" "sint x + sint y < 2 ^ 31" using assms by simp_all
  then show ?thesis by (simp add: sint_word_ariths signed_take_bit_int_eq_self)
qed

lemma sint_at_most: "sint (if word_sless m x then m else x) = min (sint m) (sint x)"
  by (simp add: word_sless_alt)

lemma sint_at_least: "sint (if word_sless x m then m else x) = max (sint m) (sint x)"
  by (simp add: word_sless_alt)

lemma mix_sample_value: "sint (mix_sample a b) = max (- 32768) (min 32767 (sample_value a + sample_value b))"
proof -
  let ?x = "case a of None \<Rightarrow> 0 :: 32 word | Some x \<Rightarrow> scast x" and ?y = "case b of None \<Rightarrow> 0 :: 32 word | Some x \<Rightarrow> scast x"
  have v: "sint ?x = sample_value a" "sint ?y = sample_value b" "\<bar>sample_value a\<bar> \<le> 32768" "\<bar>sample_value b\<bar> \<le> 32768"
    by (simp_all add: sample_value_def sint_widened sint16_abs split: option.split)
  have sum: "sint (?x + ?y) = sample_value a + sample_value b" using sint_sum32 [of ?x ?y] v by simp
  have lim: "sint (32767 :: 32 word) = 32767" "sint (- 32768 :: 32 word) = - 32768" by simp_all
  let ?s2 = "if word_sless 32767 (?x + ?y) then 32767 else ?x + ?y"
  let ?s3 = "if word_sless ?s2 (- 32768) then - 32768 else ?s2"
  have s3: "sint ?s3 = max (- 32768) (min 32767 (sample_value a + sample_value b))"
    by (simp only: sint_at_least sint_at_most sum lim)
  have "sint (scast ?s3 :: 16 word) = sint ?s3" by (rule sint_narrowed) (subst s3, simp)+
  then show ?thesis using s3 by (simp only: mix_sample_def Let_def)
qed

text \<open>The loop computes each sample from what the inputs held before, even where one of them is the output.\<close>

lemma mix_loop_memory:
  "p \<noteq> out \<Longrightarrow> mix_loop a b out i left mem p = mem p"
  "length (mix_loop a b out i left mem p) = length (mem p)"
  "k < i \<or> i + left \<le> k \<Longrightarrow> mix_loop a b out i left mem p ! k = mem p ! k"
  by (induction left arbitrary: i mem) auto

lemma mix_loop_sample:
  assumes "i \<le> k" and "k < i + left" and "k < length (mem out)"
  shows "mix_loop a b out i left mem out ! k =
    mix_sample (map_option (\<lambda>p. mem p ! k) a) (map_option (\<lambda>p. mem p ! k) b)"
  using assms
proof (induction left arbitrary: i mem)
  case Nil: 0
  then show ?case by simp
next
  case (Suc left)
  show ?case
  proof (cases "k = i")
    case True
    then show ?thesis using Suc.prems by (simp add: mix_loop_memory(3))
  next
    case False
    let ?m = "mem(out := (mem out)[i := mix_sample (map_option (\<lambda>p. mem p ! i) a) (map_option (\<lambda>p. mem p ! i) b)])"
    have old: "?m p ! k = mem p ! k" for p using False by simp
    have "mix_loop a b out (Suc i) left ?m out ! k =
        mix_sample (map_option (\<lambda>p. ?m p ! k) a) (map_option (\<lambda>p. ?m p ! k) b)"
      by (rule Suc.IH) (use Suc.prems False in auto)
    then show ?thesis by (simp only: mix_loop.simps old)
  qed
qed

lemma mix_bytes_le:
  "mix_bytes in0 in1 out \<le> pb_capacity out"
  "pb_data in0 \<noteq> None \<Longrightarrow> mix_bytes in0 in1 out \<le> pb_size in0"
  "pb_data in1 \<noteq> None \<Longrightarrow> mix_bytes in0 in1 out \<le> pb_size in1"
  by (simp_all add: mix_bytes_def Let_def)

lemma mix_bytes_Min:
  "mix_bytes in0 in1 out = Min ({pb_capacity out} \<union> {pb_size b |b. b \<in> {in0, in1} \<and> pb_data b \<noteq> None})"
proof -
  have "{pb_size b |b. b \<in> {in0, in1} \<and> pb_data b \<noteq> None} =
      (if pb_data in0 = None then {} else {pb_size in0}) \<union> (if pb_data in1 = None then {} else {pb_size in1})"
    by auto
  then show ?thesis by (auto simp: mix_bytes_def Let_def min_def)
qed

section \<open>Echoing\<close>

text \<open>The kinds a push takes; what a decoded event is like.\<close>

definition known_kind :: "pwf_event \<Rightarrow> bool" where
  "known_kind ev \<longleftrightarrow> event_kind ev \<noteq> PWF_EVENT_UNKNOWN"

definition decoded_event :: "pwf_event \<Rightarrow> bool" where
  "decoded_event ev \<longleftrightarrow>
     (\<exists>d. event_data ev = Some d \<and> length d = event_size ev) \<and>
     (known_kind ev \<longrightarrow> pwf_event_kind_key_valid (event_kind ev) (event_key ev))"

lemma unknown_invalid: "\<not> known_kind ev \<Longrightarrow> \<not> pwf_event_kind_key_valid (event_kind ev) key"
  by (simp add: known_kind_def pwf_event_kind_key_valid_def)

lemma incoming_append_items:
  "set (items (snd (pwf_filter_incoming_event_append grow ev g))) \<subseteq> insert ev (set (items g))"
  by (cases "growable_append 4 (grow (length (items g))) ev g")
     (auto simp: pwf_filter_incoming_event_append_def growable_append_def growable_push_def dest: growable_reserve_items
        split: option.splits if_splits)

lemma decoded_bytes_event:
  "(kind \<noteq> PWF_EVENT_UNKNOWN \<longrightarrow> pwf_event_kind_key_valid kind key) \<Longrightarrow> decoded_event (bytes_event off kind key d)"
  by (simp add: decoded_event_def bytes_event_def known_kind_def)

lemma append_decoded:
  "\<forall>x\<in>set (items g). decoded_event x \<Longrightarrow> decoded_event ev \<Longrightarrow>
     \<forall>x\<in>set (items (snd (pwf_filter_incoming_event_append grow ev g))). decoded_event x"
  using incoming_append_items [of grow ev g] by blast

lemma decode_props_decoded:
  "\<forall>x\<in>set (items g). decoded_event x \<Longrightarrow>
     \<forall>x\<in>set (items (fold (\<lambda>(key, body) g.
        case pwf_property_find_by_id key of
          None \<Rightarrow> g
        | Some entry \<Rightarrow> snd (pwf_filter_incoming_event_append grow
            (bytes_event off PWF_EVENT_PROPERTY (Some (fst entry)) body) g)) props g)). decoded_event x"
proof (induction props arbitrary: g)
  case Nil
  then show ?case by simp
next
  case (Cons p props)
  obtain key body where p: "p = (key, body)" by fastforce
  show ?case
  proof (cases "pwf_property_find_by_id key")
    case None
    then show ?thesis using Cons p by simp
  next
    case (Some entry)
    then have "decoded_event (bytes_event off PWF_EVENT_PROPERTY (Some (fst entry)) body)"
      using find_by_name_of_id(2) [OF Some] by (intro decoded_bytes_event) (simp add: pwf_event_kind_key_valid_def)
    from Cons.IH [OF append_decoded [OF Cons.prems this]] show ?thesis using Some p by simp
  qed
qed

lemma decode_control_decoded:
  assumes "\<forall>x\<in>set (items g). decoded_event x"
  shows "\<forall>x\<in>set (items (decode_control grow c g)). decoded_event x"
proof -
  have ev: "decoded_event (bytes_event off PWF_EVENT_MIDI None d)" "decoded_event (bytes_event off PWF_EVENT_OSC None d)"
    "decoded_event (bytes_event off PWF_EVENT_UNKNOWN None d)" for off d
    by (intro decoded_bytes_event; simp add: pwf_event_kind_key_valid_def)+
  show ?thesis
    using append_decoded [OF assms ev(1)] append_decoded [OF assms ev(2)] append_decoded [OF assms ev(3)]
      decode_props_decoded [OF assms] assms
    by (simp add: decode_control_def split: option.split)
qed

lemma decode_decoded:
  "\<forall>x\<in>set (items g). decoded_event x \<Longrightarrow> \<forall>x\<in>set (items (fold (decode_control grow) cs g)). decoded_event x"
proof (induction cs arbitrary: g)
  case Nil
  then show ?case by simp
next
  case (Cons c cs)
  have "\<forall>x\<in>set (items (decode_control grow c g)). decoded_event x" by (rule decode_control_decoded [OF Cons.prems])
  then show ?case using Cons.IH by simp
qed

text \<open>One push to an output port, where memory does not run out: accepted exactly for a kind it takes.\<close>

lemma push_event_other:
  assumes "i < n_ports f" and "j \<noteq> i" and "pwf_filter_port_push_event pod_size grow ok th (Some i) ev f = (res, f')"
  shows "get_port j f' = get_port j f"
  using assms
  by (cases ev; cases "port_dir (get_port i f)")
     (auto simp: pwf_filter_port_push_event_def Let_def get_port_map_port split: if_splits prod.splits)

lemma push_output:
  assumes i: "i < n_ports f" and port: "port_media (get_port i f) = PWF_DATA_EVENT" "port_dir (get_port i f) = PWF_FILTER_PORT_OUTPUT"
    and ev: "decoded_event ev"
    and room: "known_kind ev \<longrightarrow>
      pod_size (concat (map encode_event (items (pending_events (get_port i f)) @ [pending_of_event ev]))) \<le>
        event_output_capacity (get_port i f)"
    and run: "pwf_filter_port_push_event pod_size (\<lambda>_. True) True th (Some i) (Some ev) f = (res, f')"
  shows "(res = PWF_OK) = known_kind ev"
proof (cases "known_kind ev")
  case False
  then show ?thesis using run port unknown_invalid [OF False] by (auto simp: pwf_filter_port_push_event_def split: if_splits)
next
  case True
  obtain staged p where a: "pwf_filter_pending_event_append (\<lambda>_. True) True ev (get_port i f) = (staged, p)" by fastforce
  then have st: staged by (auto simp: pwf_filter_pending_event_append_def growable_reserve_def split: if_splits)
  note its = pending_append_items [OF a]
  have cap: "event_output_capacity p = event_output_capacity (get_port i f)"
    using pending_append_frame [OF a] by auto
  have "\<not> pod_size (pwf_filter_event_encode p) > event_output_capacity p"
    using room True its st cap by (simp add: pwf_filter_event_encode_def not_less)
  then show ?thesis using run port ev True a st
    by (auto simp: pwf_filter_port_push_event_def decoded_event_def Let_def split: if_splits)
qed

definition known_before :: "nat \<Rightarrow> pwf_event list \<Rightarrow> pwf_event list" where
  "known_before n evs = filter known_kind (take n evs)"

lemma known_before_Suc:
  "n < length evs \<Longrightarrow> known_before (Suc n) evs = known_before n evs @ (if known_kind (evs ! n) then [evs ! n] else [])"
  by (simp add: known_before_def take_Suc_conv_app_nth)

lemma known_before_fits:
  assumes "\<forall>xs ys. pod_size xs \<le> (pod_size (xs @ ys) :: nat)"
    and "pod_size (concat (map (encode_event \<circ> pending_of_event) (filter known_kind evs))) \<le> room"
  shows "pod_size (concat (map (encode_event \<circ> pending_of_event) (known_before k evs))) \<le> room"
proof -
  have "filter known_kind evs = known_before k evs @ filter known_kind (drop k evs)"
    unfolding known_before_def filter_append [symmetric] append_take_drop_id ..
  then have "pod_size (concat (map (encode_event \<circ> pending_of_event) (known_before k evs))) \<le>
      pod_size (concat (map (encode_event \<circ> pending_of_event) (filter known_kind evs)))" using assms(1) by simp
  with assms(2) show ?thesis by simp
qed

lemma echo_events_pending:
  assumes "inp \<noteq> out" and "out < n_ports f"
    and "port_media (get_port inp f) = PWF_DATA_EVENT" and "port_dir (get_port inp f) = PWF_FILTER_PORT_INPUT"
    and "port_media (get_port out f) = PWF_DATA_EVENT" and "port_dir (get_port out f) = PWF_FILTER_PORT_OUTPUT"
    and "\<forall>ev\<in>set evs. decoded_event ev" and "items (incoming_events (get_port inp f)) = evs"
    and "\<forall>n. pod_size (concat (map (encode_event \<circ> pending_of_event) (known_before n evs))) \<le> event_output_capacity (get_port out f)"
    and "items (pending_events (get_port out f)) = map pending_of_event (known_before i evs)"
    and "i + left \<le> length evs"
    and "echo_events pod_size (\<lambda>_. (\<lambda>_. True, True)) th inp out i left f = f'"
  shows "n_ports f' = n_ports f \<and> get_port inp f' = get_port inp f \<and>
    (\<exists>g. get_port out f' = (get_port out f)\<lparr>pending_events := g\<rparr> \<and>
       items g = map pending_of_event (known_before (i + left) evs))"
  using assms
proof (induction left arbitrary: i f)
  case 0
  then show ?case by (auto intro: exI [of _ "pending_events (get_port out f)"])
next
  case (Suc left)
  let ?ev = "evs ! i"
  have i: "i < length evs" using Suc.prems(11) by simp
  have get: "pwf_filter_port_get_event (Some inp) i True f = (PWF_OK, Some ?ev)"
    using get_event_all(2) [OF Suc.prems(3,4)] i Suc.prems(8) by simp
  obtain res f1 where push: "pwf_filter_port_push_event pod_size (\<lambda>_. True) True th (Some out) (Some ?ev) f = (res, f1)"
    by fastforce
  note one = push_event_port [OF Suc.prems(2,5) push]
  have room: "known_kind ?ev \<longrightarrow>
      pod_size (concat (map encode_event (items (pending_events (get_port out f)) @ [pending_of_event ?ev]))) \<le>
        event_output_capacity (get_port out f)"
    using Suc.prems(9)[rule_format, of "Suc i"] Suc.prems(10) known_before_Suc [OF i] by (cases "known_kind ?ev") simp_all
  have ok: "(res = PWF_OK) = known_kind ?ev"
    by (rule push_output [OF Suc.prems(2,5,6) _ room push]) (use Suc.prems(7) i in simp)
  obtain g where g: "get_port out f1 = (get_port out f)\<lparr>pending_events := g\<rparr>"
    "items g = map pending_of_event (known_before (Suc i) evs)"
    using one(2) ok known_before_Suc [OF i] Suc.prems(10) by auto
  have inp: "get_port inp f1 = get_port inp f" by (rule push_event_other [OF Suc.prems(2,1) push])
  have "n_ports f' = n_ports f1 \<and> get_port inp f' = get_port inp f1 \<and>
    (\<exists>h. get_port out f' = (get_port out f1)\<lparr>pending_events := h\<rparr> \<and>
       items h = map pending_of_event (known_before (Suc i + left) evs))"
    by (rule Suc.IH [of f1 "Suc i"]) (use Suc.prems one(1) inp g push get in simp_all)
  then show ?case using one(1) g(1) inp by auto
qed

section \<open>The events of a sequence\<close>

definition graph_events :: "spa_control list \<Rightarrow> pwf_event list" where
  "graph_events cs = items (fold (decode_control (\<lambda>_. True)) cs growable_empty)"

text \<open>Where memory does not run out, what a sequence decodes to does not depend on the array's room.\<close>

lemma append_items_same:
  "items g = items h \<Longrightarrow> items (snd (pwf_filter_incoming_event_append (\<lambda>_. True) ev g)) =
     items (snd (pwf_filter_incoming_event_append (\<lambda>_. True) ev h))"
  by (simp add: pwf_filter_incoming_event_append_def growable_append_items)

lemma fold_items_same:
  assumes "\<And>x g h. items g = items h \<Longrightarrow> items (u x g) = items (u x h)"
  shows "items g = items h \<Longrightarrow> items (fold u xs g) = items (fold u xs h)"
proof (induction xs arbitrary: g h)
  case (Cons x xs)
  from Cons.IH [OF assms [OF Cons.prems]] show ?case by simp
qed simp

lemma decode_control_items:
  assumes "items g = items h"
  shows "items (decode_control (\<lambda>_. True) c g) = items (decode_control (\<lambda>_. True) c h)"
proof -
  have "items (fold (\<lambda>(key, body) g.
        case pwf_property_find_by_id key of
          None \<Rightarrow> g
        | Some entry \<Rightarrow> snd (pwf_filter_incoming_event_append (\<lambda>_. True)
            (bytes_event (c_offset c) PWF_EVENT_PROPERTY (Some (fst entry)) body) g)) props g) =
      items (fold (\<lambda>(key, body) g.
        case pwf_property_find_by_id key of
          None \<Rightarrow> g
        | Some entry \<Rightarrow> snd (pwf_filter_incoming_event_append (\<lambda>_. True)
            (bytes_event (c_offset c) PWF_EVENT_PROPERTY (Some (fst entry)) body) g)) props h)" for props
    by (rule fold_items_same [OF _ assms]) (auto split: option.split intro: append_items_same)
  then show ?thesis using append_items_same [OF assms] assms by (simp add: decode_control_def split: option.split)
qed

lemma decode_items:
  "items g = [] \<Longrightarrow> items (fold (decode_control (\<lambda>_. True)) cs g) = graph_events cs"
  unfolding graph_events_def
  by (rule fold_items_same [OF decode_control_items]) (simp_all add: growable_empty_def)

lemma graph_events_decoded: "\<forall>ev\<in>set (graph_events cs). decoded_event ev"
  unfolding graph_events_def by (rule decode_decoded) (simp add: growable_empty_def)

text \<open>Encoding decoded events of a kind a push takes and decoding them again gives them back.\<close>

lemma graph_events_back:
  assumes "\<forall>ev\<in>set evs. decoded_event ev \<and> known_kind ev \<and> event_size ev < 2 ^ 32"
  shows "graph_events (map read_back (concat (map (encode_event \<circ> pending_of_event) evs))) = evs"
proof -
  have "\<forall>ev\<in>set evs. pushable ev" using assms by (auto simp: pushable_def decoded_event_def)
  from decode_encoded [OF this, of growable_empty] show ?thesis by (simp add: graph_events_def growable_empty_def)
qed

section \<open>What the programs set up\<close>

lemma finish_adds:
  assumes "finish_add_port env set_fields (pwf_filter_add_port_common env dir params mb f) = (Some i, f1)"
  shows "\<exists>name. items (filter_ports f1) = items (filter_ports f) @ [set_fields (port_zero\<lparr>pw_port_name := name\<rparr>)]"
    "process_cb f1 = process_cb f" "filter_state f1 = filter_state f"
  using assms
  by (auto simp: finish_add_port_def pwf_filter_add_port_common_def pwf_filter_add_port_to_list_def Let_def
      growable_append_def growable_push_def dest: growable_reserve_items split: option.splits if_splits)

lemma add_event_port_adds:
  assumes "pwf_filter_add_event_port env dir (Some f) = (Some i, h)"
  shows "\<exists>f1 name. h = Some f1 \<and>
    items (filter_ports f1) = items (filter_ports f) @ [port_zero\<lparr>pw_port_name := name, port_dir := dir, port_media := PWF_DATA_EVENT\<rparr>] \<and>
    process_cb f1 = process_cb f \<and> filter_state f1 = filter_state f"
proof -
  obtain f1 where f1: "h = Some f1" "filter_add_event_port env dir f = (Some i, f1)"
    using assms by (auto simp: pwf_filter_add_event_port_def on_handle_def split: prod.splits)
  then have "finish_add_port env (\<lambda>p. p\<lparr>port_dir := dir, port_media := PWF_DATA_EVENT\<rparr>)
      (pwf_filter_add_port_common env dir [pwf_spa_build_event_format, pwf_spa_build_cpu_buffers] True f) = (Some i, f1)"
    by (simp add: filter_add_event_port_def split: if_splits)
  from finish_adds [OF this] f1(1) show ?thesis by simp
qed

lemma add_audio_port_adds:
  assumes "pwf_filter_add_audio_port env dir (Some cfg) (Some f) = (Some i, h)"
  shows "\<exists>f1 name conf. h = Some f1 \<and>
    items (filter_ports f1) = items (filter_ports f) @
      [port_zero\<lparr>pw_port_name := name, port_dir := dir, port_media := PWF_DATA_AUDIO, port_config := conf\<rparr>] \<and>
    process_cb f1 = process_cb f \<and> filter_state f1 = filter_state f"
proof -
  obtain f1 where f1: "h = Some f1" "filter_add_audio_port env dir (Some cfg) f = (Some i, f1)"
    using assms by (auto simp: pwf_filter_add_audio_port_def on_handle_def split: prod.splits)
  then obtain conf ps where "finish_add_port env
      (\<lambda>p. p\<lparr>port_dir := dir, port_media := PWF_DATA_AUDIO, port_config := conf\<rparr>)
      (pwf_filter_add_port_common env dir ps True f) = (Some i, f1)"
    by (auto simp: filter_add_audio_port_def Let_def split: if_splits)
  from finish_adds [OF this] f1(1) show ?thesis by auto
qed

lemma created_cb:
  "pwf_filter_create env name True g = (Some f, x, g1) \<Longrightarrow> process_cb f \<and> filter_ports f = growable_empty"
  by (auto simp: pwf_filter_create_def filter_zero_def Let_def split: option.splits prod.splits if_splits)

lemma start_keeps_ports:
  "filter_start th ans f = (res, f1) \<Longrightarrow> filter_ports f1 = filter_ports f \<and> process_cb f1 = process_cb f"
  by (auto simp: filter_start_def pwf_filter_refuse_in_callback_def pwf_filter_apply_period_hint_def Let_def split: if_splits)

lemma filter_app_open_parts:
  assumes "filter_app_open name prepare env g = (True, h, g1)"
  obtains f0 x h1 res where "pwf_filter_create (fa_create env) (Some name) True g = (Some f0, x, g1)"
    "prepare env (Some f0) = (True, h1)" "pwf_filter_start app_thread (fa_start env) h1 = (PWF_OK, h)"
  using assms by (auto simp: filter_app_open_def split: option.splits prod.splits if_splits)

text \<open>The echo's filter has an input and an output event port, in this order, with nothing in them.\<close>

lemma event_port_app_ports:
  assumes "filter_app_open name event_port_setup env g = (True, h, g1)"
  shows "\<exists>f nm nm'. h = Some f \<and> process_cb f \<and> items (filter_ports f) =
    [port_zero\<lparr>pw_port_name := nm, port_dir := PWF_FILTER_PORT_INPUT, port_media := PWF_DATA_EVENT\<rparr>,
     port_zero\<lparr>pw_port_name := nm', port_dir := PWF_FILTER_PORT_OUTPUT, port_media := PWF_DATA_EVENT\<rparr>]"
proof -
  obtain f0 x h2 where c: "pwf_filter_create (fa_create env) (Some name) True g = (Some f0, x, g1)"
    and s: "event_port_setup env (Some f0) = (True, h2)" and st: "pwf_filter_start app_thread (fa_start env) h2 = (PWF_OK, h)"
    by (rule filter_app_open_parts [OF assms])
  obtain i j h1 where a: "pwf_filter_add_event_port (fa_port env 0) PWF_FILTER_PORT_INPUT (Some f0) = (Some i, h1)"
    "pwf_filter_add_event_port (fa_port env 1) PWF_FILTER_PORT_OUTPUT h1 = (Some j, h2)"
    using s by (auto simp: event_port_setup_def Let_def split: prod.splits)
  obtain f1 nm where f1: "h1 = Some f1" "items (filter_ports f1) = items (filter_ports f0) @
      [port_zero\<lparr>pw_port_name := nm, port_dir := PWF_FILTER_PORT_INPUT, port_media := PWF_DATA_EVENT\<rparr>]" "process_cb f1 = process_cb f0"
    using add_event_port_adds [OF a(1)] by blast
  obtain f2 nm' where f2: "h2 = Some f2" "items (filter_ports f2) = items (filter_ports f1) @
      [port_zero\<lparr>pw_port_name := nm', port_dir := PWF_FILTER_PORT_OUTPUT, port_media := PWF_DATA_EVENT\<rparr>]" "process_cb f2 = process_cb f1"
    using add_event_port_adds [OF a(2) [unfolded f1(1)]] by blast
  obtain f where f: "h = Some f" "filter_start app_thread (fa_start env) f2 = (PWF_OK, f)"
    using st f2(1) by (auto simp: pwf_filter_start_def on_handle_def split: prod.splits)
  show ?thesis
    by (rule exI [of _ f], rule exI [of _ nm], rule exI [of _ nm'])
      (use created_cb [OF c] start_keeps_ports [OF f(2)] f(1) f1 f2 in \<open>simp add: growable_empty_def\<close>)
qed

text \<open>The mixer's has two inputs and then the output, the order its callback counts on.\<close>

lemma mix_app_ports:
  assumes "filter_app_open name mix_setup env g = (True, h, g1)"
  shows "\<exists>f. h = Some f \<and> process_cb f \<and>
    map port_dir (items (filter_ports f)) = [PWF_FILTER_PORT_INPUT, PWF_FILTER_PORT_INPUT, PWF_FILTER_PORT_OUTPUT] \<and>
    map port_media (items (filter_ports f)) = [PWF_DATA_AUDIO, PWF_DATA_AUDIO, PWF_DATA_AUDIO]"
proof -
  let ?cfg = "\<lparr>sample_rate = 48000, channels = 2, sample_format = None\<rparr>"
  obtain f0 x h3 where c: "pwf_filter_create (fa_create env) (Some name) True g = (Some f0, x, g1)"
    and s: "mix_setup env (Some f0) = (True, h3)" and st: "pwf_filter_start app_thread (fa_start env) h3 = (PWF_OK, h)"
    by (rule filter_app_open_parts [OF assms])
  obtain i j k h1 h2 where a: "pwf_filter_add_audio_port (fa_port env 0) PWF_FILTER_PORT_INPUT (Some ?cfg) (Some (f0\<lparr>filter_error_cb := True\<rparr>)) = (Some i, h1)"
    "pwf_filter_add_audio_port (fa_port env 1) PWF_FILTER_PORT_INPUT (Some ?cfg) h1 = (Some j, h2)"
    "pwf_filter_add_audio_port (fa_port env 2) PWF_FILTER_PORT_OUTPUT (Some ?cfg) h2 = (Some k, h3)"
    using s by (auto simp: mix_setup_def pwf_filter_set_error_callback_def on_handle_def Let_def split: prod.splits)
  note f1 = add_audio_port_adds [OF a(1)]
  then obtain f1 where h1: "h1 = Some f1" by blast
  note f2 = add_audio_port_adds [OF a(2) [unfolded h1]]
  then obtain f2 where h2: "h2 = Some f2" by blast
  note f3 = add_audio_port_adds [OF a(3) [unfolded h2]]
  then obtain f3 where h3: "h3 = Some f3" by blast
  obtain f where f: "h = Some f" "filter_start app_thread (fa_start env) f3 = (PWF_OK, f)"
    using st h3 by (auto simp: pwf_filter_start_def on_handle_def split: prod.splits)
  show ?thesis using created_cb [OF c] start_keeps_ports [OF f(2)] f(1) f1 f2 f3 h1 h2 h3 by (auto simp: growable_empty_def)
qed

section \<open>The count of users\<close>

lemma filter_create_count:
  assumes "pwf_filter_create env name cb g = (f, x, g1)"
  shows "g_pw_init_count g1 = g_pw_init_count g + (case f of None \<Rightarrow> 0 | Some _ \<Rightarrow> 1)"
  using assms teardown_global [of g]
  by (auto simp: pwf_filter_create_def Let_def pwf_pw_global_init_def pwf_pw_global_deinit_def split: option.splits prod.splits if_splits)

lemma filter_destroy_app:
  "pwf_filter_destroy app_thread evs g h = (None, case h of None \<Rightarrow> g | Some _ \<Rightarrow> pwf_pw_global_deinit g)"
  by (auto simp: pwf_filter_destroy_def filter_destroy_def pwf_filter_refuse_in_callback_def app_thread_def Let_def
      split: option.split prod.split)

lemma filter_app_balanced:
  assumes prepare: "\<And>f. \<exists>ok f1. prepare env (Some f) = (ok, Some f1)"
  shows "g_pw_init_count (snd (filter_app_main name prepare env g)) = g_pw_init_count g"
proof -
  obtain c x g1 where c: "pwf_filter_create (fa_create env) (Some name) True g = (c, x, g1)" by (metis prod_cases3)
  note n = filter_create_count [OF c]
  show ?thesis
  proof (cases c)
    case None
    then show ?thesis using c n by (simp add: filter_app_main_def filter_app_open_def filter_destroy_app)
  next
    case (Some f)
    obtain ok f1 where f1: "prepare env (Some f) = (ok, Some f1)" using prepare by blast
    obtain res f2 where f2: "filter_start app_thread (fa_start env) f1 = (res, f2)" by fastforce
    show ?thesis using c n Some f1 f2
      by (cases "ok \<and> res = PWF_OK")
         (auto simp: filter_app_main_def filter_app_open_def filter_destroy_app deinit_count pwf_filter_start_def
            pwf_filter_stop_def on_handle_def Let_def split: prod.split)
  qed
qed

lemma example_mains_balanced:
  "g_pw_init_count (snd (mix_main env g)) = g_pw_init_count g"
  "g_pw_init_count (snd (event_port_main env g)) = g_pw_init_count g"
  unfolding mix_main_def event_port_main_def
  by (rule filter_app_balanced,
      simp add: mix_setup_def event_port_setup_def pwf_filter_set_error_callback_def pwf_filter_add_audio_port_def
        pwf_filter_add_event_port_def on_handle_def Let_def split: prod.split)+

end
