(* ===== verification/Pwf_Example_Properties.thy ===== *)
theory Pwf_Example_Properties
  imports Pwf_Examples Pwf_Filter_Properties Pwf_Life_Properties
begin

text \<open>
  What the two examples do: the mixer's samples are the clipped sums of its inputs, and the echo sends
  out what came in.
\<close>

section \<open>The mixer\<close>

text \<open>C26: bounds. The mixer adds its inputs and clips: every sample it writes is the sum of the present
  inputs' samples, an absent one counting nothing, limited to 16 bits, whether or not the output is
  one of the inputs' buffers. It writes the greatest whole number of samples that the output has room for and
  every present input has, reports them and touches nothing else.\<close>

theorem mixer_clips:
  assumes "3 \<le> length bufs" and "pb_data (bufs ! 2) = Some out" and "0 < pb_capacity (bufs ! 2)"
    and "pb_data (bufs ! 0) \<noteq> None \<or> pb_data (bufs ! 1) \<noteq> None" and "pb_capacity (bufs ! 2) div 2 \<le> length (mem out)"
    and "mix_on_process mem bufs = (mem', bufs')"
  shows "\<exists>n. bufs' = bufs[2 := (bufs ! 2)\<lparr>pb_size := 2 * n\<rparr>] \<and>
    (\<forall>k<n. sint (mem' out ! k) = max (- 32768) (min 32767
       (sample_value (map_option (\<lambda>p. mem p ! k) (pb_data (bufs ! 0))) +
        sample_value (map_option (\<lambda>p. mem p ! k) (pb_data (bufs ! 1)))))) \<and>
    (\<forall>k\<ge>n. mem' out ! k = mem out ! k) \<and> (\<forall>p. p \<noteq> out \<longrightarrow> mem' p = mem p) \<and>
    length (mem' out) = length (mem out) \<and>
    n = Min ({pb_capacity (bufs ! 2)} \<union> {pb_size b |b. b \<in> {bufs ! 0, bufs ! 1} \<and> pb_data b \<noteq> None}) div 2"
proof -
  let ?b = "mix_bytes (bufs ! 0) (bufs ! 1) (bufs ! 2)" and ?a0 = "pb_data (bufs ! 0)" and ?a1 = "pb_data (bufs ! 1)"
  let ?n = "?b div 2"
  have run: "mem' = mix_loop ?a0 ?a1 out 0 ?n mem" "bufs' = bufs[2 := (bufs ! 2)\<lparr>pb_size := 2 * ?n\<rparr>]"
    using assms by (auto simp: mix_on_process_def Let_def mult.commute [of _ 2])
  have "?n \<le> pb_capacity (bufs ! 2) div 2" using mix_bytes_le(1) by (rule div_le_mono)
  then have len: "?n \<le> length (mem out)" using assms(5) by simp
  have "mem' out ! k = mix_sample (map_option (\<lambda>p. mem p ! k) ?a0) (map_option (\<lambda>p. mem p ! k) ?a1)" if "k < ?n" for k
    unfolding run(1) by (rule mix_loop_sample) (use that len in simp_all)
  then have samples: "\<forall>k<?n. sint (mem' out ! k) = max (- 32768) (min 32767
      (sample_value (map_option (\<lambda>p. mem p ! k) ?a0) + sample_value (map_option (\<lambda>p. mem p ! k) ?a1)))"
    by (simp add: mix_sample_value)
  have rest: "\<forall>k\<ge>?n. mem' out ! k = mem out ! k" "\<forall>p. p \<noteq> out \<longrightarrow> mem' p = mem p" "length (mem' out) = length (mem out)"
    by (simp_all add: run(1) mix_loop_memory)
  show ?thesis
    by (rule exI [of _ ?n]) (use samples rest run(2) mix_bytes_Min in simp)
qed

definition loud :: "data_ptr option \<Rightarrow> pwf_filter_port_buffer" where
  "loud p = (empty_buffer 0)\<lparr>pb_data := p, pb_size := 6, pb_capacity := 5\<rparr>"

theorem mixer_clips_witness:
  "\<exists>mem'. fst (mix_on_process (\<lambda>_. [30000, - 30000]) [loud (Some (Mapped 1)), loud (Some (Mapped 2)), loud (Some (Mapped 3))]) = mem' \<and>
     sint (mem' (Mapped 3) ! 0) = 32767 \<and> sint (mem' (Mapped 3) ! 1) = - 32768"
proof -
  let ?bufs = "[loud (Some (Mapped 1)), loud (Some (Mapped 2)), loud (Some (Mapped 3))]"
  let ?mem = "\<lambda>_. [30000, - 30000] :: 16 word list"
  obtain mem' bufs' where run: "mix_on_process ?mem ?bufs = (mem', bufs')" by fastforce
  obtain n where n: "\<forall>k<n. sint (mem' (Mapped 3) ! k) = max (- 32768) (min 32767
      (sample_value (map_option (\<lambda>p. ?mem p ! k) (pb_data (?bufs ! 0))) +
       sample_value (map_option (\<lambda>p. ?mem p ! k) (pb_data (?bufs ! 1)))))" "n = mix_bytes (?bufs ! 0) (?bufs ! 1) (?bufs ! 2) div 2"
    using mixer_clips [OF _ _ _ _ _ run, of "Mapped 3"] unfolding mix_bytes_Min by (auto simp: loud_def)
  have "n = 2" using n(2) by (simp add: mix_bytes_def loud_def)
  with n(1) have "\<forall>k<2. sint (mem' (Mapped 3) ! k) = max (- 32768) (min 32767 (sint (?mem (Mapped 1) ! k) + sint (?mem (Mapped 2) ! k)))"
    by (simp add: loud_def sample_value_def)
  then show ?thesis using run by (simp add: numeral_2_eq_2 All_less_Suc)
qed

section \<open>The echo\<close>

lemma echo_begin_input:
  assumes "n_ports f = 2" and "port_media (get_port 0 f) = PWF_DATA_EVENT" and "port_dir (get_port 0 f) = PWF_FILTER_PORT_INPUT"
    and "items (delivering_events (get_port 0 f)) = []" and "\<not> (ce_staged env \<and> items (pending_events (get_port 0 f)) \<noteq> [])"
    and "ce_dequeue env 0 = Some d" and "data_present d" and "controls d = Some cs" and "sizeof_spa_pod \<le> chunk_bytes d"
    and "ce_grow env = (\<lambda>_. True)" and "begin_port env 0 f = (c, f1)"
  shows "n_ports f1 = 2" "get_port 1 f1 = get_port 1 f" "process_cb f1 = process_cb f" "filter_id f1 = filter_id f"
    "pb_port (pc_buffer c) = 0" "port_media (get_port 0 f1) = PWF_DATA_EVENT" "port_dir (get_port 0 f1) = PWF_FILTER_PORT_INPUT"
    "items (incoming_events (get_port 0 f1)) = graph_events cs"
proof -
  let ?f = "map_port 0 (\<lambda>p. p\<lparr>port_dmabuf_buf := None\<rparr>) f"
  let ?g = "check_datas (Some d) (map_port 0 (\<lambda>_. get_port 0 ?f) ?f)"
  have p: "port_media (get_port 0 ?f) = PWF_DATA_EVENT" "port_dir (get_port 0 ?f) = PWF_FILTER_PORT_INPUT"
    "delivering_events (get_port 0 ?f) = delivering_events (get_port 0 f)"
    "pending_events (get_port 0 ?f) = pending_events (get_port 0 f)"
    using assms(1-3) by (simp_all add: get_port_map_port)
  have "begin_port env 0 f = begin_event_input env 0 ?f" using p by (simp add: begin_port_def)
  also have "\<dots> = (\<lparr>pc_buffer = empty_buffer 0, pc_dequeued = Some d, pc_taken = Some d\<rparr>,
      map_port 0 (pwf_filter_event_decode (\<lambda>_. True) (chunk_bytes d) (Some cs)) ?g)"
    using assms(4-8,10) p(3,4) by (auto simp: begin_event_input_def Let_def)
  finally have r: "c = \<lparr>pc_buffer = empty_buffer 0, pc_dequeued = Some d, pc_taken = Some d\<rparr>"
    "f1 = map_port 0 (pwf_filter_event_decode (\<lambda>_. True) (chunk_bytes d) (Some cs)) ?g" using assms(11) by simp_all
  have dec: "items (incoming_events (pwf_filter_event_decode (\<lambda>_. True) (chunk_bytes d) (Some cs) q)) = graph_events cs"
    "port_media (pwf_filter_event_decode (\<lambda>_. True) (chunk_bytes d) (Some cs) q) = port_media q"
    "port_dir (pwf_filter_event_decode (\<lambda>_. True) (chunk_bytes d) (Some cs) q) = port_dir q" for q
    using assms(9) by (simp_all add: pwf_filter_event_decode_def Let_def decode_items)
  show "n_ports f1 = 2" "get_port 1 f1 = get_port 1 f" "process_cb f1 = process_cb f" "filter_id f1 = filter_id f"
    "pb_port (pc_buffer c) = 0" "port_media (get_port 0 f1) = PWF_DATA_EVENT" "port_dir (get_port 0 f1) = PWF_FILTER_PORT_INPUT"
    "items (incoming_events (get_port 0 f1)) = graph_events cs"
    using assms(1-3) by (simp_all add: r dec get_port_map_port empty_buffer_def)
qed

lemma echo_begin_output:
  assumes "n_ports f = 2" and "port_media (get_port 1 f) = PWF_DATA_EVENT" and "port_dir (get_port 1 f) = PWF_FILTER_PORT_OUTPUT"
    and "ce_dequeue env 1 = Some d" and "data_present d" and "begin_port env 1 f = (c, f1)"
  shows "n_ports f1 = 2" "get_port 0 f1 = get_port 0 f" "process_cb f1 = process_cb f" "filter_id f1 = filter_id f"
    "pb_port (pc_buffer c) = 1" "pc_dequeued c = Some d"
    "port_media (get_port 1 f1) = PWF_DATA_EVENT" "port_dir (get_port 1 f1) = PWF_FILTER_PORT_OUTPUT"
    "items (pending_events (get_port 1 f1)) = []" "event_output_capacity (get_port 1 f1) = unat (maxsize (first_data d))"
proof -
  let ?f = "map_port 1 (\<lambda>p. p\<lparr>port_dmabuf_buf := None\<rparr>) f"
  let ?g = "check_datas (Some d) (map_port 1 (\<lambda>p. p\<lparr>pending_events := (pending_events p)\<lparr>items := []\<rparr>\<rparr>) ?f)"
  have p: "port_media (get_port 1 ?f) = PWF_DATA_EVENT" "port_dir (get_port 1 ?f) = PWF_FILTER_PORT_OUTPUT"
    using assms(1-3) by (simp_all add: get_port_map_port)
  have "begin_port env 1 f = begin_event_output env 1 ?f" using p by (simp add: begin_port_def)
  also have "\<dots> = (\<lparr>pc_buffer = empty_buffer 1, pc_dequeued = Some d, pc_taken = Some d\<rparr>,
      map_port 1 (\<lambda>p. p\<lparr>event_output_capacity := unat (maxsize (first_data d))\<rparr>) ?g)"
    using assms(4,5) by (simp add: begin_event_output_def Let_def)
  finally have r: "c = \<lparr>pc_buffer = empty_buffer 1, pc_dequeued = Some d, pc_taken = Some d\<rparr>"
    "f1 = map_port 1 (\<lambda>p. p\<lparr>event_output_capacity := unat (maxsize (first_data d))\<rparr>) ?g" using assms(6) by simp_all
  show "n_ports f1 = 2" "get_port 0 f1 = get_port 0 f" "process_cb f1 = process_cb f" "filter_id f1 = filter_id f"
    "pb_port (pc_buffer c) = 1" "pc_dequeued c = Some d"
    "port_media (get_port 1 f1) = PWF_DATA_EVENT" "port_dir (get_port 1 f1) = PWF_FILTER_PORT_OUTPUT"
    "items (pending_events (get_port 1 f1)) = []" "event_output_capacity (get_port 1 f1) = unat (maxsize (first_data d))"
    using assms(1-3) by (simp_all add: r get_port_map_port empty_buffer_def)
qed

text \<open>C16: functional. A filter that echoes events sends on what it got: when a buffer comes in with a sequence
  and another is there to go out, the sequence that goes out decodes to the events the incoming one
  decodes to, in the same order, without those of a kind the library does not know, provided that they fit
  the outgoing buffer and memory does not run out. A sequence is not longer than one it is the
  beginning of, and an event's size fits 32 bits.\<close>

theorem echo_sends_events:
  assumes n: "n_ports f = 2" and cb: "process_cb f"
    and inp: "port_media (get_port 0 f) = PWF_DATA_EVENT" "port_dir (get_port 0 f) = PWF_FILTER_PORT_INPUT"
      "items (delivering_events (get_port 0 f)) = []" "\<not> (ce_staged env \<and> items (pending_events (get_port 0 f)) \<noteq> [])"
    and out: "port_media (get_port 1 f) = PWF_DATA_EVENT" "port_dir (get_port 1 f) = PWF_FILTER_PORT_OUTPUT"
    and came: "ce_dequeue env 0 = Some d" "data_present d" "controls d = Some cs" "sizeof_spa_pod \<le> chunk_bytes d"
    and goes: "ce_dequeue env 1 = Some e" "data_present e" and grow: "ce_grow env = (\<lambda>_. True)"
    and sizes: "\<forall>xs ys. ce_pod_size env xs \<le> ce_pod_size env (xs @ ys)" "\<forall>ev\<in>set (graph_events cs). event_size ev < 2 ^ 32"
    and fit: "ce_pod_size env (concat (map (encode_event \<circ> pending_of_event) (filter known_kind (graph_events cs)))) \<le>
      unat (maxsize (first_data e))"
    and run: "pwf_filter_on_process env (event_port_on_process (ce_pod_size env) (\<lambda>_. (\<lambda>_. True, True))) th f = ((cycles, outs), g)"
  shows "\<exists>q. outs = [q] \<and> out_port q = 1 \<and>
    graph_events (map read_back (out_events q)) = filter known_kind (graph_events cs)"
proof -
  let ?evs = "graph_events cs" and ?mem = "\<lambda>_. (\<lambda>_. True, True)" and ?size = "ce_pod_size env"
  let ?enc = "\<lambda>evs. concat (map (encode_event \<circ> pending_of_event) evs)"
  obtain c1 f1 where b1: "begin_port env 0 f = (c1, f1)" by fastforce
  obtain c2 f2 where b2: "begin_port env 1 f1 = (c2, f2)" by fastforce
  note one = echo_begin_input [OF n inp came grow b1]
  note two = echo_begin_output [OF one(1) _ _ goes b2, unfolded one(2), OF out]
  let ?th = "th\<lparr>pwf_filter_processing := Some (filter_id f2)\<rparr>"
  let ?f3 = "echo_events ?size ?mem ?th 0 1 0 (length ?evs) f2"
  have count: "pwf_filter_port_get_event_count (Some 0) f2 = length ?evs"
    using one(6-8) two(2) by (simp add: pwf_filter_port_get_event_count_def)
  have app: "event_port_on_process ?size ?mem ?th [pc_buffer c1, pc_buffer c2] f2 = ([pc_buffer c1, pc_buffer c2], ?f3)"
    using one(5) two(5) count by (simp add: event_port_on_process_def)
  have begun: "begin_ports env [0..<2] f = ([c1, c2], f2)" using b1 b2 by (simp add: upt_rec numeral_2_eq_2)
  have room: "\<forall>k. ?size (?enc (known_before k ?evs)) \<le> event_output_capacity (get_port 1 f2)"
    using known_before_fits [OF sizes(1) fit] two(10) by simp
  have "n_ports ?f3 = n_ports f2 \<and> get_port 0 ?f3 = get_port 0 f2 \<and> (\<exists>h. get_port 1 ?f3 = (get_port 1 f2)\<lparr>pending_events := h\<rparr> \<and>
      items h = map pending_of_event (known_before (0 + length ?evs) ?evs))"
    by (rule echo_events_pending [OF _ _ _ _ two(7,8) graph_events_decoded _ room])
      (use one(6-8) two in \<open>simp_all add: known_before_def\<close>)
  then obtain h where f3: "n_ports ?f3 = 2" "get_port 0 ?f3 = get_port 0 f1" "get_port 1 ?f3 = (get_port 1 f2)\<lparr>pending_events := h\<rparr>"
    "items h = map pending_of_event (filter known_kind ?evs)"
    using two(1,2) by (auto simp: known_before_def)
  obtain o1 f4 where e1: "end_port env 0 (pc_dequeued c1) (pc_buffer c1) ?f3 = (o1, f4)" by fastforce
  obtain o2 f5 where e2: "end_port env 1 (pc_dequeued c2) (pc_buffer c2) f4 = (o2, f5)" by fastforce
  have "outs = (case o1 of None \<Rightarrow> (case o2 of None \<Rightarrow> [] | Some q \<Rightarrow> [q]) | Some q \<Rightarrow> q # (case o2 of None \<Rightarrow> [] | Some q \<Rightarrow> [q]))"
    using run n cb begun app two(3) one(3) e1 e2
    by (simp add: pwf_filter_on_process_def PWF_FILTER_STACK_PORTS_def upt_rec numeral_2_eq_2)
  moreover have f4: "o1 = None" "get_port 1 f4 = get_port 1 ?f3"
    using e1 one(6,7) f3(1,2) by (auto simp: end_port_def Let_def get_port_map_port split: option.splits)
  moreover have "\<exists>q. o2 = Some q \<and> out_port q = 1 \<and> out_events q = ?enc (filter known_kind ?evs)"
    using e2 two(6-8) f3(3,4) f4(2)
    by (auto simp: end_port_def Let_def pwf_filter_event_finish_output_def pwf_filter_event_encode_def)
  ultimately obtain q where q: "outs = [q]" "out_port q = 1" "out_events q = ?enc (filter known_kind ?evs)" by auto
  have "graph_events (map read_back (out_events q)) = filter known_kind ?evs"
    unfolding q(3) by (rule graph_events_back) (use graph_events_decoded sizes(2) in auto)
  then show ?thesis using q by blast
qed

text \<open>The echo program, opened without trouble, in a cycle that brings a MIDI event and one of a kind the
  library does not know.\<close>

definition easy_app :: filter_app_env where
  "easy_app = \<lparr>fa_create = easy_filter, fa_port = (\<lambda>_. easy_port), fa_start = 0, fa_run = [], fa_end = []\<rparr>"

lemma easy_app_opened:
  "\<exists>f g1. filter_app_open ''pwf-filter-event-port'' event_port_setup easy_app pw_global_start = (True, Some f, g1)"
  by (simp add: filter_app_open_def event_port_setup_def easy_app_def pwf_filter_create_def easy_filter_def filter_zero_def
      pwf_pw_core_connect_def core_wait_def conn_zero_def pwf_pw_core_on_done_def PW_ID_CORE_def Let_def
      pwf_filter_add_event_port_def on_handle_def filter_add_event_port_def finish_add_port_def
      pwf_filter_add_port_common_def easy_port_def pwf_filter_add_port_to_list_def growable_append_def growable_reserve_def
      growable_push_def growable_empty_def pwf_filter_start_def filter_start_def pwf_filter_refuse_in_callback_def
      app_thread_def n_ports_def pwf_filter_apply_period_hint_def)

definition two_controls :: "spa_control list" where
  "two_controls =
     [read_back (Built_bytes 4 SPA_CONTROL_Midi [144, 60, 127]),
      \<lparr>c_offset = 5, c_type = SPA_CONTROL_other 0, c_bytes = None, c_props = None, c_body = [1]\<rparr>]"

definition echo_env :: cycle_env where
  "echo_env = quiet_env\<lparr>
     ce_dequeue := (\<lambda>i. Some \<lparr>buf_id = 7 + i, buffer = \<lparr>datas = [mapped_data], header_pts = None\<rparr>, requested = 0, b_size = 0,
       controls = (if i = 0 then Some two_controls else None)\<rparr>),
     ce_pod_size := (\<lambda>cs. 16 + 24 * length cs)\<rparr>"

lemma two_controls_events: "filter known_kind (graph_events two_controls) = [note_on]" "\<forall>ev\<in>set (graph_events two_controls). event_size ev < 2 ^ 32"
  by (simp_all add: graph_events_def two_controls_def decode_control_def pwf_filter_incoming_event_append_def growable_append_items
      growable_empty_def bytes_event_def known_kind_def note_on_def)

theorem echo_sends_events_witness:
  "\<exists>f g1 cycles outs g. filter_app_open ''pwf-filter-event-port'' event_port_setup easy_app pw_global_start = (True, Some f, g1) \<and>
     pwf_filter_on_process echo_env (event_port_on_process (ce_pod_size echo_env) (\<lambda>_. (\<lambda>_. True, True))) app_thread f
       = ((cycles, outs), g) \<and>
     graph_events (map read_back (concat (map out_events outs))) = [note_on]"
proof -
  obtain f g1 where o: "filter_app_open ''pwf-filter-event-port'' event_port_setup easy_app pw_global_start = (True, Some f, g1)"
    using easy_app_opened by blast
  obtain cycles outs g where r: "pwf_filter_on_process echo_env (event_port_on_process (ce_pod_size echo_env) (\<lambda>_. (\<lambda>_. True, True))) app_thread f
      = ((cycles, outs), g)" by (metis prod.exhaust)
  obtain nm nm' where cb: "process_cb f" and its: "items (filter_ports f) =
    [port_zero\<lparr>pw_port_name := nm, port_dir := PWF_FILTER_PORT_INPUT, port_media := PWF_DATA_EVENT\<rparr>,
     port_zero\<lparr>pw_port_name := nm', port_dir := PWF_FILTER_PORT_OUTPUT, port_media := PWF_DATA_EVENT\<rparr>]"
    using event_port_app_ports [OF o] by blast
  define d where "d i = (the (ce_dequeue echo_env i))" for i
  have d: "ce_dequeue echo_env i = Some (d i)" "data_present (d i)" "controls (d 0) = Some two_controls"
    "sizeof_spa_pod \<le> chunk_bytes (d i)" "unat (maxsize (first_data (d i))) = 64" for i
    by (simp_all add: d_def echo_env_def quiet_env_def data_present_def first_data_def mapped_data_def chunk_bytes_def sizeof_spa_pod_def)
  have "\<exists>q. outs = [q] \<and> out_port q = 1 \<and>
      graph_events (map read_back (out_events q)) = filter known_kind (graph_events two_controls)"
    by (rule echo_sends_events [OF _ cb _ _ _ _ _ _ d(1,2,3,4) d(1,2) _ _ two_controls_events(2) _ r])
      (simp_all add: n_ports_def get_port_def its port_zero_def growable_empty_def echo_env_def quiet_env_def two_controls_events(1)
        d(5) [unfolded echo_env_def quiet_env_def] encode_event_def pending_of_event_def note_on_def)
  then show ?thesis using o r two_controls_events(1) by auto
qed

end
