(* ===== verification/Spec2Isabelle.thy ===== *)
theory Spec2Isabelle
  imports Pwf_Core_Properties Pwf_Stream_Properties Pwf_Filter_Properties Pwf_Link_Properties
    Pwf_Life_Properties Pwf_Util_Properties Pwf_Example_Properties
begin

text \<open>
  Verification of tinypipewire, a C library over PipeWire, of its two programs and of two of its examples.

  \<^bold>\<open>The program.\<close> An application creates \<^emph>\<open>streams\<close> (\<^verbatim>\<open>src/pwf_stream*.c\<close>, \<^verbatim>\<open>src/pwf_buffer.c\<close>), which
  capture or play audio or video, and \<^emph>\<open>filters\<close> (\<^verbatim>\<open>src/pwf_filter*.c\<close>), nodes with input and output
  ports whose data meet in one callback per cycle. Both own a connection (\<^verbatim>\<open>src/pwf_pw_core.c\<close>: a thread
  loop, a context, a core) and a registry, a cache of the nodes and ports the server announces. Formats
  are negotiated with the builders and tables of \<^verbatim>\<open>src/pwf_spa_format.c\<close>, \<^verbatim>\<open>src/pwf_video_enum.c\<close>,
  \<^verbatim>\<open>src/pwf_audio_format.c\<close> and \<^verbatim>\<open>src/pwf_video_format.c\<close>; \<^verbatim>\<open>src/pwf_dmabuf.c\<close>, \<^verbatim>\<open>src/pwf_log.c\<close> and
  \<^verbatim>\<open>src/pwf_rate_limit.c\<close> serve both. \<^verbatim>\<open>utils/pwf_record.c\<close> records a stream to a file,
  \<^verbatim>\<open>utils/pwf_stream_loopback.c\<close> plays what it captures; \<^verbatim>\<open>examples/filter_mix.c\<close> is a filter that adds two
  inputs, \<^verbatim>\<open>examples/filter_event_port.c\<close> one that sends back the events it gets.

  \<^bold>\<open>How it is modelled.\<close> A struct is a record with the fields of the C struct; a stream or filter also
  keeps \<open>calls\<close>, what it called outside, in order: PipeWire's functions, the application's callbacks, the
  log. PipeWire is a parameter: what it answers is in the environment record a function takes first
  (\<open>connect_env\<close>, \<open>sync_env\<close>, \<open>port_link_env\<close>, \<open>cycle_env\<close>, ...). The loop thread is a dispatch function
  from an event to a state change (\<open>stream_dispatch\<close>, \<open>filter_dispatch\<close>, \<open>core_dispatch\<close>). A wait with a
  deadline is \<open>loop_wait\<close>: the wake-ups before the deadline, each with the events dispatched in it, and
  the events after the last; it ends at the first wake-up that finds its condition true. Everything
  between the entry and the exit of the loop lock is one step, as are a callback of the loop or data
  thread and a call of a mutex-protected function. A fallible function returns a \<open>pwf_error\<close>, an
  option, or the status the C function returns. Machine integers are words where the code computes
  with them, memory a filter allocates is a heap of blocks in which a use after free is recorded as
  a fault. A POD is the sequence of builder calls that makes it.

  \<^bold>\<open>The theories.\<close>
  \<^item> \<open>Pwf_Prelude\<close>: \<open>loop_wait\<close>, growable arrays, C strings and numbers, the locales \<open>loop_client\<close> (an
    invariant of events holds across a wait) and others shared below; \<open>Pwf_Types\<close>: \<^verbatim>\<open>pwf_types.h\<close> and the
    SPA values.
  \<^item> \<open>Pwf_Log\<close>, \<open>Pwf_Rate_Limit\<close>, \<open>Pwf_Dmabuf\<close>, \<open>Pwf_Spa_Format\<close>, \<open>Pwf_Video_Enum\<close>: the files of these names.
  \<^item> \<open>Pwf_Pw_Core\<close>, \<open>Pwf_Registry\<close>, \<open>Pwf_Registry_Facts\<close>: the two halves of \<^verbatim>\<open>pwf_pw_core.c\<close>.
    \<open>Pwf_Client\<close>, \<open>Pwf_Owner\<close>: what streams and filters have in common, the object that owns a
    connection and a registry, with the locale \<open>client_inv\<close> for what its waits keep.
  \<^item> \<open>Pwf_Stream_State\<close> (state, events), \<open>Pwf_Stream\<close> (creation to destruction), \<open>Pwf_Stream_Process\<close>
    (\<^verbatim>\<open>pwf_buffer.c\<close>, \<^verbatim>\<open>pwf_stream_playback.c\<close>, \<^verbatim>\<open>pwf_stream_dmabuf.c\<close>), \<open>Pwf_Stream_Routing\<close>
    (\<^verbatim>\<open>pwf_stream_routing.c\<close>); lemmas in \<open>Pwf_Stream_Facts\<close> and \<open>Pwf_Stream_Routing_Facts\<close>; \<open>Pwf_Stream_Run\<close>
    has sequences of calls and events and the invariant they keep.
  \<^item> \<open>Pwf_Filter_State\<close> (state, events), \<open>Pwf_Filter\<close> (\<^verbatim>\<open>pwf_filter.c\<close>), \<open>Pwf_Filter_Port\<close>,
    \<open>Pwf_Filter_Event\<close>, \<open>Pwf_Filter_Process\<close> (\<^verbatim>\<open>pwf_filter_process.c\<close>, \<^verbatim>\<open>pwf_filter_dmabuf.c\<close>),
    \<open>Pwf_Filter_Port_Link\<close>; lemmas on memory, cycles, delivery, events, lifetime and links in
    \<open>Pwf_Filter_Memory\<close>, \<open>Pwf_Filter_Cycle\<close>, \<open>Pwf_Filter_Delivery\<close>, \<open>Pwf_Filter_Event_Facts\<close>,
    \<open>Pwf_Filter_Lifetime\<close>, \<open>Pwf_Filter_Link_Facts\<close>; \<open>Pwf_Filter_Run\<close>, \<open>Pwf_Filter_Calls\<close> and
    \<open>Pwf_Filter_Runs\<close> have sequences of calls, cycles and events and the invariant they keep.
  \<^item> \<open>Pwf_Util\<close>, \<open>Pwf_Record\<close>, \<open>Pwf_Loopback_Ring\<close>, \<open>Pwf_Loopback\<close>: the programs, over the stream model;
    lemmas in \<open>Pwf_Util_Facts\<close>.
  \<^item> \<open>Pwf_Examples\<close>: the callbacks of the two examples and their \<^verbatim>\<open>main\<close>, over the filter model.
  \<^item> \<open>Pwf_Core_Properties\<close>, \<open>Pwf_Stream_Properties\<close>, \<open>Pwf_Filter_Properties\<close>, \<open>Pwf_Link_Properties\<close>,
    \<open>Pwf_Life_Properties\<close>, \<open>Pwf_Util_Properties\<close>, \<open>Pwf_Example_Properties\<close>: what the parts promise, each property with its number and a concrete instance.
\<close>

text \<open>
  \<^bold>\<open>What is shown.\<close>
  \<^item> Over any run: a created stream or filter stays well formed and never keeps the loop lock; a
    filter's blocks are exactly the allocated ones and none is used after it was freed; buffers
    dequeued in a cycle are queued once, held or lost only as the code means to. Destroying either
    leaves no block, link, lock or PipeWire object behind.
  \<^item> Data: pushed data and events reach one cycle unchanged, a push never disturbs what a callback
    reads, hold repeats the last buffer, playback output is the callback's bytes and silence; events
    survive encoding and decoding.
  \<^item> The registry refines the server's graph; listings are stable sorts; a listed serial resolves.
  \<^item> Linking by hand is all or nothing; a filter's target string means an announced node and port; its
    link settles with the first answer and the request ends after a bounded number of waits; undoing
    a link reports no loss; a lost source is reported once.
  \<^item> Waiting: a connection the server answers succeeds, and every outcome of it, of a configuration and of
    a link request is described; calls from inside a callback are refused.
  \<^item> The loopback's ring is a bounded queue under any interleaving of its two threads; a recording's
    file is its header and data, and a WAV file reads back; both programs destroy what they create.
  \<^item> The mixing example writes the clipped sum of its inputs; the echoing one sends out, through a whole
    cycle from decoding to encoding, the events that came in.

  \<^bold>\<open>Bounds.\<close> Loops run on the code's counters: \<open>PWF_OWN_PORT_ATTEMPTS\<close> (100) and
  \<open>PWF_TARGET_PORT_ATTEMPTS\<close> (10) attempts, as many ports or bytes as there are; no fuel is used. The ring's
  positions are 64 bits and the FIFO property is about the first \<open>2 ^ 64\<close> bytes; a WAV file reads back
  below 4 GiB, where the code's 32-bit count holds.

  \<^bold>\<open>Not modelled.\<close> The byte layout of PODs and everything else inside PipeWire and libc; the mutexes,
  whose sections are single steps; the real-time thread running in the middle of such a section; the
  text of messages; signals and the usage text of the programs, and the video callbacks of the
  loopback, which only print; the other programs of \<^verbatim>\<open>examples/\<close>, which print what they receive, call the
  API in a fixed order or play a tone computed in floating point; \<^verbatim>\<open>tests/\<close>; the build files.
\<close>

end
